theory Spec2Isabelle
  imports Main
begin

section \<open>IX.br status bot: event ingestion and delivery pipeline\<close>

text \<open>
  A shallow embedding of the delivery pipeline of the bot: the quiet-hours
  predicate, the event classifier, the ledger tables, the reconciler, the flush of
  queued notifications, the feed fetch with its retries and the polling cycle.

  Strings are \<^typ>\<open>string\<close>, one \<^typ>\<open>char\<close> per character; the Python
  string methods are modelled on ASCII text (case folding and white space of
  characters beyond ASCII are not modelled).
\<close>

subsection \<open>Python string operations\<close>

text \<open>\<^verbatim>\<open>str.lower\<close> on ASCII letters.\<close>

definition lower_char :: "char \<Rightarrow> char" where
  "lower_char c =
     (case map_of (zip ''ABCDEFGHIJKLMNOPQRSTUVWXYZ'' ''abcdefghijklmnopqrstuvwxyz'') c of
        Some d \<Rightarrow> d
      | None \<Rightarrow> c)"

definition lower :: "string \<Rightarrow> string" where
  "lower s = map lower_char s"

text \<open>\<^verbatim>\<open>s.startswith(p)\<close> and the substring test \<^verbatim>\<open>p in s\<close>.\<close>

fun startswith :: "string \<Rightarrow> string \<Rightarrow> bool" where
  "startswith s [] = True"
| "startswith [] (p # ps) = False"
| "startswith (c # cs) (p # ps) = (c = p \<and> startswith cs ps)"

fun contains :: "string \<Rightarrow> string \<Rightarrow> bool" where
  "contains [] p = (p = [])"
| "contains (c # cs) p = (startswith (c # cs) p \<or> contains cs p)"

text \<open>\<^verbatim>\<open>any(kw in text for kw in keywords)\<close>.\<close>

definition any_in :: "string list \<Rightarrow> string \<Rightarrow> bool" where
  "any_in keywords text = list_ex (\<lambda>kw. contains text kw) keywords"

text \<open>
  A keyword occurs in a text: the text is some prefix, the keyword, and some
  suffix.
\<close>

abbreviation keyword_occurs :: "string list \<Rightarrow> string \<Rightarrow> bool" where
  "keyword_occurs keywords text \<equiv> \<exists>kw\<in>set keywords. \<exists>pre post. text = pre @ kw @ post"

text \<open>
  White space as \<^verbatim>\<open>str.isspace\<close> has it on ASCII: tab, line feed, vertical tab,
  form feed, carriage return, the four separators 0x1C to 0x1F, and the space.
\<close>

definition isspace :: "char \<Rightarrow> bool" where
  "isspace c = (c \<in> set [CHR 0x09, CHR 0x0A, CHR 0x0B, CHR 0x0C, CHR 0x0D,
                          CHR 0x1C, CHR 0x1D, CHR 0x1E, CHR 0x1F, CHR 0x20])"

definition strip :: "string \<Rightarrow> string" where
  "strip s = rev (dropWhile isspace (rev (dropWhile isspace s)))"

text \<open>
  \<^verbatim>\<open>s.split(sep)\<close> for a separator that is not empty (every separator of the
  source is a literal); Python raises ValueError on the empty separator, which is
  never passed.  \<open>acc\<close> holds the current piece, reversed.
\<close>

function split_acc :: "string \<Rightarrow> string \<Rightarrow> string \<Rightarrow> string list" where
  "split_acc sep acc [] = [rev acc]"
| "split_acc sep acc (c # cs) =
     (if sep \<noteq> [] \<and> startswith (c # cs) sep
      then rev acc # split_acc sep [] (drop (length sep) (c # cs))
      else split_acc sep (c # acc) cs)"
  by pat_completeness auto
termination
  by (relation "measure (\<lambda>(sep, acc, s). length s)") (auto simp: neq_Nil_conv)

definition split :: "string \<Rightarrow> string \<Rightarrow> string list" where
  "split s sep = split_acc sep [] s"

text \<open>
  \<^verbatim>\<open>int(s)\<close> on a string: surrounding white space is dropped, one sign is
  allowed, then decimal digits, where single underscores may stand between digits.
  \<open>None\<close> is the ValueError.
\<close>

definition digit_val :: "char \<Rightarrow> nat option" where
  "digit_val c = map_of (zip ''0123456789'' [0, 1, 2, 3, 4, 5, 6, 7, 8, 9]) c"

fun py_digits :: "bool \<Rightarrow> nat \<Rightarrow> string \<Rightarrow> nat option" where
  "py_digits prev acc [] = (if prev then Some acc else None)"
| "py_digits prev acc (c # cs) =
     (if c = CHR ''_'' then (if prev \<and> cs \<noteq> [] then py_digits False acc cs else None)
      else (case digit_val c of
              None \<Rightarrow> None
            | Some d \<Rightarrow> py_digits True (10 * acc + d) cs))"

definition py_int :: "string \<Rightarrow> int option" where
  "py_int s =
     (case strip s of
        [] \<Rightarrow> None
      | c # cs \<Rightarrow>
          if c = CHR ''-'' then map_option (\<lambda>n. - int n) (py_digits False 0 cs)
          else if c = CHR ''+'' then map_option int (py_digits False 0 cs)
          else map_option int (py_digits False 0 (c # cs)))"

text \<open>\<^verbatim>\<open>str(n)\<close> of a number that is not negative, as an f-string prints it.\<close>

fun str_nat :: "nat \<Rightarrow> string" where
  "str_nat n =
     (if n < 10 then [''0123456789'' ! n]
      else str_nat (n div 10) @ [''0123456789'' ! (n mod 10)])"

declare str_nat.simps [simp del]

subsection \<open>Quiet hours\<close>

datatype py_error = ValueError | IndexError

text \<open>
  \<^verbatim>\<open>datetime.time\<close>: Python orders two times by hour, minute, second and
  microsecond, in this order.
\<close>

record pytime =
  hour :: nat
  minute :: nat
  second :: nat
  microsecond :: nat

definition time_lt :: "pytime \<Rightarrow> pytime \<Rightarrow> bool" where
  "time_lt a b =
     (hour a < hour b \<or> (hour a = hour b \<and>
       (minute a < minute b \<or> (minute a = minute b \<and>
         (second a < second b \<or> (second a = second b \<and>
           microsecond a < microsecond b))))))"

definition time_le :: "pytime \<Rightarrow> pytime \<Rightarrow> bool" where
  "time_le a b =
     (time_lt a b \<or> (hour a = hour b \<and> minute a = minute b \<and>
        second a = second b \<and> microsecond a = microsecond b))"

text \<open>The time of day \<open>h:m\<close>, on the second.\<close>

definition at_clock :: "nat \<Rightarrow> nat \<Rightarrow> pytime" where
  "at_clock h m = \<lparr>hour = h, minute = m, second = 0, microsecond = 0\<rparr>"

text \<open>The constructor \<^verbatim>\<open>time(h, m)\<close> refuses an hour or minute out of range.\<close>

definition mk_time :: "int \<Rightarrow> int \<Rightarrow> py_error + pytime" where
  "mk_time h m =
     (if 0 \<le> h \<and> h \<le> 23 \<and> 0 \<le> m \<and> m \<le> 59
      then Inr \<lparr>hour = nat h, minute = nat m, second = 0, microsecond = 0\<rparr>
      else Inl ValueError)"

text \<open>
  \<^verbatim>\<open>time(int(parts[0]), int(parts[1]))\<close>, in Python's order of evaluation:
  \<^verbatim>\<open>int(parts[0])\<close>, the index \<^verbatim>\<open>parts[1]\<close>, its \<^verbatim>\<open>int\<close>, then the constructor.
\<close>

definition time_of_parts :: "string list \<Rightarrow> py_error + pytime" where
  "time_of_parts parts =
     (case parts of
        [] \<Rightarrow> Inl IndexError
      | p0 # rest \<Rightarrow>
          (case py_int p0 of
             None \<Rightarrow> Inl ValueError
           | Some h \<Rightarrow>
               (case rest of
                  [] \<Rightarrow> Inl IndexError
                | p1 # _ \<Rightarrow>
                    (case py_int p1 of
                       None \<Rightarrow> Inl ValueError
                     | Some m \<Rightarrow> mk_time h m))))"

text \<open>
  The check that the command \<^verbatim>\<open>/silencio\<close> makes on a start or end time before it
  stores it: two parts around one colon, both integers, the hour within 0 to 23
  and the minute within 0 to 59.
\<close>

definition valid_time_string :: "string \<Rightarrow> bool" where
  "valid_time_string t =
     (case split t '':'' of
        [p0, p1] \<Rightarrow>
          (case py_int p0 of
             None \<Rightarrow> False
           | Some h \<Rightarrow>
               (case py_int p1 of
                  None \<Rightarrow> False
                | Some m \<Rightarrow> 0 \<le> h \<and> h \<le> 23 \<and> 0 \<le> m \<and> m \<le> 59))
      | _ \<Rightarrow> False)"

text \<open>The table \<^verbatim>\<open>TIMEZONES\<close>: offsets from UTC in hours.\<close>

definition TIMEZONES :: "(string \<times> int) list" where
  "TIMEZONES = [(''UTC'', 0), (''BRT'', -3), (''AMT'', -4), (''ACT'', -5), (''FNT'', -2)]"

text \<open>
  \<^verbatim>\<open>(now_utc + timedelta(hours=tz_offset)).time()\<close>: only the time of day of
  the shifted instant is used, so the date is left out; \<open>now_utc\<close> is the time of
  day of \<^verbatim>\<open>datetime.now(tz.utc)\<close>.
\<close>

definition shift_hours :: "pytime \<Rightarrow> int \<Rightarrow> pytime" where
  "shift_hours t off = t\<lparr>hour := nat ((int (hour t) + off) mod 24)\<rparr>"

text \<open>\<^verbatim>\<open>not s\<close> for an optional string: true of \<^verbatim>\<open>None\<close> and of the empty string.\<close>

definition falsy :: "string option \<Rightarrow> bool" where
  "falsy s = (case s of None \<Rightarrow> True | Some t \<Rightarrow> t = [])"

definition tz_offset_of :: "string option \<Rightarrow> int" where
  "tz_offset_of quiet_tz =
     (case map_of TIMEZONES (if falsy quiet_tz then ''UTC'' else the quiet_tz) of
        Some off \<Rightarrow> off
      | None \<Rightarrow> 0)"

definition is_quiet_hours ::
  "pytime \<Rightarrow> string option \<Rightarrow> string option \<Rightarrow> string option \<Rightarrow> py_error + bool" where
  "is_quiet_hours now_utc quiet_start quiet_end quiet_tz =
     (if falsy quiet_start \<or> falsy quiet_end then Inr False
      else
        let tz_offset = tz_offset_of quiet_tz;
            now = shift_hours now_utc tz_offset;
            start_parts = split (the quiet_start) '':'';
            end_parts = split (the quiet_end) '':''
        in (case time_of_parts start_parts of
              Inl e \<Rightarrow> Inl e
            | Inr start \<Rightarrow>
                (case time_of_parts end_parts of
                   Inl e \<Rightarrow> Inl e
                 | Inr end \<Rightarrow>
                     if time_lt end start
                     then Inr (time_le start now \<or> time_le now end)
                     else Inr (time_le start now \<and> time_le now end))))"

text \<open>
  The window as the specification words it, on times of day counted in
  microseconds since midnight: if the start is after the end the window wraps
  midnight and a recipient is quiet when \<open>now \<ge> start\<close> or \<open>now \<le> end\<close>; otherwise
  it is quiet when \<open>start \<le> now \<le> end\<close>.
\<close>

definition micros_of_day :: "nat \<Rightarrow> nat \<Rightarrow> nat \<Rightarrow> nat \<Rightarrow> nat" where
  "micros_of_day h m s us = ((h * 60 + m) * 60 + s) * 1000000 + us"

definition spec_window_quiet :: "nat \<Rightarrow> nat \<Rightarrow> nat \<Rightarrow> bool" where
  "spec_window_quiet start end now =
     (if start > end then now \<ge> start \<or> now \<le> end else start \<le> now \<and> now \<le> end)"

subsection \<open>Events and their classification\<close>

datatype EventType = MAINTENANCE | INCIDENT | RESOLVED | UNKNOWN

text \<open>The value of an \<^verbatim>\<open>EventType\<close> member.\<close>

fun event_type_value :: "EventType \<Rightarrow> string" where
  "event_type_value MAINTENANCE = ''maintenance''"
| "event_type_value INCIDENT = ''incident''"
| "event_type_value RESOLVED = ''resolved''"
| "event_type_value UNKNOWN = ''unknown''"

definition resolved_keywords :: "string list" where
  "resolved_keywords =
     [''resolvid'', ''solved'', ''restored'', ''restabelecid'', ''normalizado'', ''normalized'']"

definition maintenance_keywords :: "string list" where
  "maintenance_keywords =
     [''manutencao'', ''maintenance'', ''janela'', ''window'', ''programad'', ''scheduled'']"

definition incident_keywords :: "string list" where
  "incident_keywords =
     [''indisponibilidade'', ''unavailability'', ''problema'', ''problem'', ''incident'',
      ''incidente'', ''falha'', ''failure'', ''rompimento'', ''disruption'']"

text \<open>\<^verbatim>\<open>_classify_event\<close>: the kind and the flag \<^verbatim>\<open>is_resolved\<close>.\<close>

definition classify_event :: "string \<Rightarrow> string \<Rightarrow> EventType \<times> bool" where
  "classify_event title description =
     (let text = lower (title @ '' '' @ description);
          is_resolved = any_in resolved_keywords text
      in if is_resolved then (RESOLVED, True)
         else if any_in maintenance_keywords text then (MAINTENANCE, False)
         else if any_in incident_keywords text then (INCIDENT, False)
         else (UNKNOWN, False))"

text \<open>
  The three separators of \<^verbatim>\<open>_extract_location\<close>: a hyphen, an en dash and an em
  dash, each between two spaces; the two dashes stand in their UTF-8 encoding.
\<close>

definition location_separators :: "string list" where
  "location_separators =
     ['' - '',
      [CHR 0x20, CHR 0xE2, CHR 0x80, CHR 0x93, CHR 0x20],
      [CHR 0x20, CHR 0xE2, CHR 0x80, CHR 0x94, CHR 0x20]]"

text \<open>One round of the loop over the separators.\<close>

definition cut_at :: "string \<Rightarrow> string \<Rightarrow> string" where
  "cut_at sep location =
     (if contains location sep
      then (case split location sep of [] \<Rightarrow> location | p # _ \<Rightarrow> strip p)
      else location)"

definition extract_location :: "string \<Rightarrow> string option" where
  "extract_location title =
     (if contains title ''IX.br''
      then (case split title ''IX.br'' of
              _ # p1 # _ \<Rightarrow>
                (let location = fold cut_at location_separators (strip p1)
                 in if location \<noteq> [] then Some location else None)
            | _ \<Rightarrow> None)
      else None)"

text \<open>
  An aware \<^verbatim>\<open>datetime\<close>: the instant it denotes, in microseconds since the epoch
  (what a comparison of two aware datetimes compares), and its calendar fields
  (what \<^verbatim>\<open>strftime\<close> prints and \<^verbatim>\<open>.time()\<close> returns).
\<close>

record datetime =
  dt_instant :: int
  dt_year :: nat
  dt_month :: nat
  dt_day :: nat
  dt_time :: pytime

record status_event =
  ev_guid :: string
  ev_title :: string
  ev_description :: string
  ev_link :: string
  ev_published :: datetime
  ev_event_type :: EventType
  ev_location :: "string option"
  ev_is_resolved :: bool

text \<open>
  \<^verbatim>\<open>get_content_hash\<close>: the first 32 hexadecimal digits of the SHA-256 digest of
  title, description and kind; the digest function of \<^verbatim>\<open>hashlib\<close> is a parameter.
\<close>

definition get_content_hash :: "(string \<Rightarrow> string) \<Rightarrow> status_event \<Rightarrow> string" where
  "get_content_hash sha256_hexdigest event =
     take 32 (sha256_hexdigest
       (ev_title event @ ''|'' @ ev_description event @ ''|'' @
        event_type_value (ev_event_type event)))"

definition replace_char :: "char \<Rightarrow> string \<Rightarrow> string \<Rightarrow> string" where
  "replace_char c r s = concat (map (\<lambda>x. if x = c then r else [x]) s)"

definition escape_html :: "string \<Rightarrow> string" where
  "escape_html text =
     replace_char (CHR 0x22) ''&quot;''
       (replace_char CHR ''>'' ''&gt;''
         (replace_char CHR ''<'' ''&lt;''
           (replace_char CHR ''&'' ''&amp;'' text)))"

fun type_label :: "EventType \<Rightarrow> string" where
  "type_label MAINTENANCE = ''[MANUTENCAO]''"
| "type_label INCIDENT = ''[INCIDENTE]''"
| "type_label RESOLVED = ''[RESOLVIDO]''"
| "type_label UNKNOWN = ''[AVISO]''"

definition NL :: string where
  "NL = [CHR 0x0A]"

text \<open>\<^verbatim>\<open>sep.join(lines)\<close>.\<close>

fun join :: "string \<Rightarrow> string list \<Rightarrow> string" where
  "join sep [] = []"
| "join sep [x] = x"
| "join sep (x # y # ys) = x @ sep @ join sep (y # ys)"

text \<open>A number on two digits at least, as \<^verbatim>\<open>%d\<close>, \<^verbatim>\<open>%m\<close>, \<^verbatim>\<open>%H\<close> and \<^verbatim>\<open>%M\<close> print it.\<close>

definition pad2 :: "nat \<Rightarrow> string" where
  "pad2 n = (if n < 10 then ''0'' @ str_nat n else str_nat n)"

text \<open>\<^verbatim>\<open>published.strftime("%d/%m/%Y as %H:%M (UTC)")\<close>.\<close>

definition strftime_published :: "datetime \<Rightarrow> string" where
  "strftime_published d =
     pad2 (dt_day d) @ ''/'' @ pad2 (dt_month d) @ ''/'' @ str_nat (dt_year d) @ '' as '' @
     pad2 (hour (dt_time d)) @ '':'' @ pad2 (minute (dt_time d)) @ '' (UTC)''"

definition to_telegram_message :: "status_event \<Rightarrow> string" where
  "to_telegram_message event =
     (let lines = [''<b>'' @ type_label (ev_event_type event) @ ''</b>'',
                   [],
                   ''<b>'' @ escape_html (ev_title event) @ ''</b>'',
                   []];
          lines = (if \<not> falsy (ev_location event)
                   then lines @ [''<b>Local:</b> '' @ escape_html (the (ev_location event)), []]
                   else lines);
          lines = (if ev_description event \<noteq> []
                   then lines @
                     [escape_html
                        (if length (ev_description event) > 800
                         then take 800 (ev_description event) @ ''...''
                         else ev_description event),
                      []]
                   else lines);
          lines = (if ev_link event \<noteq> []
                   then lines @ [''<b>Detalhes:</b> '' @ ev_link event, []]
                   else lines);
          date_str = strftime_published (ev_published event)
      in join NL (lines @ [''<i>Postado em: '' @ date_str @ ''</i>'']))"

subsection \<open>The ledger store\<close>

text \<open>
  The tables of \<^verbatim>\<open>database.py\<close> as lists of rows in the order of insertion.  A
  time stamp is a number of seconds; the key \<^verbatim>\<open>id\<close> of a row, which nothing
  reads, and the columns of \<^verbatim>\<open>subscribed_chats\<close> the pipeline does not touch are
  left out, and so is the table \<^verbatim>\<open>command_log\<close>.
\<close>

type_synonym timestamp = nat

record subscribed_chat =
  sc_chat_id :: int
  sc_chat_type :: string
  sc_is_active :: int
  sc_quiet_hours_start :: "string option"
  sc_quiet_hours_end :: "string option"
  sc_quiet_hours_tz :: "string option"

record sent_message =
  sm_message_guid :: string
  sm_chat_id :: int
  sm_telegram_message_id :: "int option"
  sm_content_hash :: "string option"
  sm_sent_at :: timestamp
  sm_updated_at :: "timestamp option"
  sm_message_title :: "string option"
  sm_delivery_status :: "string option"

record pending_notification =
  pn_chat_id :: int
  pn_message_guid :: string
  pn_message_text :: string
  pn_event_title :: "string option"
  pn_created_at :: timestamp

record database =
  subscribed_chats :: "subscribed_chat list"
  sent_messages :: "sent_message list"
  pending_notifications :: "pending_notification list"

text \<open>\<^verbatim>\<open>UPDATE subscribed_chats SET is_active = 0 WHERE chat_id = ? AND is_active = 1\<close>.\<close>

definition unsubscribe_chat :: "int \<Rightarrow> database \<Rightarrow> database" where
  "unsubscribe_chat chat_id d =
     d\<lparr>subscribed_chats :=
         map (\<lambda>r. if sc_chat_id r = chat_id \<and> sc_is_active r = 1
                   then r\<lparr>sc_is_active := 0\<rparr> else r)
             (subscribed_chats d)\<rparr>"

definition get_active_chats :: "database \<Rightarrow> subscribed_chat list" where
  "get_active_chats d = filter (\<lambda>r. sc_is_active r = 1) (subscribed_chats d)"

definition get_sent_message :: "string \<Rightarrow> int \<Rightarrow> database \<Rightarrow> sent_message option" where
  "get_sent_message message_guid chat_id d =
     find (\<lambda>r. sm_message_guid r = message_guid \<and> sm_chat_id r = chat_id) (sent_messages d)"

text \<open>
  \<^verbatim>\<open>INSERT OR REPLACE INTO sent_messages\<close>: a row with the same
  \<^verbatim>\<open>(message_guid, chat_id)\<close> is deleted, then the new row is inserted;
  \<^verbatim>\<open>updated_at\<close> is not among the columns given and is NULL in the new row.
\<close>

definition mark_message_sent ::
  "timestamp \<Rightarrow> string \<Rightarrow> int \<Rightarrow> int \<Rightarrow> string \<Rightarrow> string option \<Rightarrow> string \<Rightarrow>
   database \<Rightarrow> database" where
  "mark_message_sent now message_guid chat_id telegram_message_id content_hash
       message_title delivery_status d =
     d\<lparr>sent_messages :=
         filter (\<lambda>r. \<not> (sm_message_guid r = message_guid \<and> sm_chat_id r = chat_id))
                (sent_messages d) @
         [\<lparr>sm_message_guid = message_guid, sm_chat_id = chat_id,
           sm_telegram_message_id = Some telegram_message_id,
           sm_content_hash = Some content_hash,
           sm_sent_at = now, sm_updated_at = None,
           sm_message_title = message_title,
           sm_delivery_status = Some delivery_status\<rparr>]\<rparr>"

definition update_message_record ::
  "timestamp \<Rightarrow> string \<Rightarrow> int \<Rightarrow> string \<Rightarrow> string option \<Rightarrow> database \<Rightarrow> database" where
  "update_message_record now message_guid chat_id content_hash message_title d =
     d\<lparr>sent_messages :=
         map (\<lambda>r. if sm_message_guid r = message_guid \<and> sm_chat_id r = chat_id
                   then r\<lparr>sm_content_hash := Some content_hash,
                          sm_message_title := message_title,
                          sm_updated_at := Some now\<rparr>
                   else r)
             (sent_messages d)\<rparr>"

definition update_delivery_status :: "string \<Rightarrow> int \<Rightarrow> string \<Rightarrow> database \<Rightarrow> database" where
  "update_delivery_status message_guid chat_id status d =
     d\<lparr>sent_messages :=
         map (\<lambda>r. if sm_message_guid r = message_guid \<and> sm_chat_id r = chat_id
                   then r\<lparr>sm_delivery_status := Some status\<rparr> else r)
             (sent_messages d)\<rparr>"

text \<open>
  \<^verbatim>\<open>DELETE FROM sent_messages WHERE sent_at < ?\<close>: \<open>before_cutoff\<close> is the
  comparison of a stored \<^verbatim>\<open>sent_at\<close> with the cutoff, as SQLite makes it.
\<close>

definition cleanup_old_messages :: "(timestamp \<Rightarrow> bool) \<Rightarrow> database \<Rightarrow> database" where
  "cleanup_old_messages before_cutoff d =
     d\<lparr>sent_messages := filter (\<lambda>r. \<not> before_cutoff (sm_sent_at r)) (sent_messages d)\<rparr>"

text \<open>
  \<^verbatim>\<open>INSERT OR IGNORE INTO pending_notifications\<close>: nothing is inserted when a row
  with the same \<^verbatim>\<open>(message_guid, chat_id)\<close> is there.
\<close>

definition add_pending_notification ::
  "timestamp \<Rightarrow> int \<Rightarrow> string \<Rightarrow> string \<Rightarrow> string option \<Rightarrow> database \<Rightarrow> database" where
  "add_pending_notification now chat_id message_guid message_text event_title d =
     (if list_ex (\<lambda>r. pn_message_guid r = message_guid \<and> pn_chat_id r = chat_id)
                 (pending_notifications d)
      then d
      else d\<lparr>pending_notifications :=
               pending_notifications d @
               [\<lparr>pn_chat_id = chat_id, pn_message_guid = message_guid,
                 pn_message_text = message_text, pn_event_title = event_title,
                 pn_created_at = now\<rparr>]\<rparr>)"

text \<open>
  \<^verbatim>\<open>SELECT ... WHERE chat_id = ? ORDER BY created_at ASC\<close>; rows of one time
  stamp come in the order of insertion.
\<close>

definition get_pending_notifications :: "int \<Rightarrow> database \<Rightarrow> pending_notification list" where
  "get_pending_notifications chat_id d =
     sort_key pn_created_at (filter (\<lambda>r. pn_chat_id r = chat_id) (pending_notifications d))"

definition clear_pending_notifications :: "int \<Rightarrow> database \<Rightarrow> database" where
  "clear_pending_notifications chat_id d =
     d\<lparr>pending_notifications :=
         filter (\<lambda>r. pn_chat_id r \<noteq> chat_id) (pending_notifications d)\<rparr>"

subsection \<open>Uniqueness of the keys of the two tables\<close>

text \<open>
  \<^verbatim>\<open>UNIQUE(message_guid, chat_id)\<close> on \<^verbatim>\<open>sent_messages\<close>: no two rows of the
  table have the same pair.
\<close>

definition sent_key :: "sent_message \<Rightarrow> string \<times> int" where
  "sent_key r = (sm_message_guid r, sm_chat_id r)"

definition ledger_unique :: "database \<Rightarrow> bool" where
  "ledger_unique d = distinct (map sent_key (sent_messages d))"

text \<open>The rows of \<^verbatim>\<open>sent_messages\<close> for one event and one recipient.\<close>

definition records_of :: "string \<Rightarrow> int \<Rightarrow> database \<Rightarrow> sent_message list" where
  "records_of message_guid chat_id d =
     filter (\<lambda>r. sm_message_guid r = message_guid \<and> sm_chat_id r = chat_id) (sent_messages d)"

subsection \<open>The world: store, monitor, and the trace of outbound calls\<close>

text \<open>
  What the bot does to the outside, in the order it does it: the two transport
  calls, the request to deactivate a recipient, a sleep (in milliseconds) and a
  fetch of the feed.
\<close>

datatype call =
    SendMessage int string
  | EditMessageText int int string
  | Unsubscribe int
  | Sleep nat
  | FetchFeed

text \<open>The fields of \<^verbatim>\<open>RSSMonitor\<close> that \<^verbatim>\<open>fetch_events\<close> reads and writes.\<close>

record rss_monitor =
  max_age_days :: int
  last_successful_fetch :: "datetime option"
  consecutive_failures :: nat

text \<open>
  \<open>tick\<close> counts the interactions with the outside made so far; it indexes the
  answers of the environment below, so that the same call can be answered
  differently at different moments.
\<close>

record world =
  db :: database
  monitor :: rss_monitor
  calls :: "call list"
  tick :: nat

text \<open>
  The environment: the answers of everything outside the pipeline.
  \<^item> \<open>api_send_message\<close>: \<^verbatim>\<open>bot.send_message\<close>, the id of the message sent, or the text
    of the \<^verbatim>\<open>TelegramError\<close> raised;
  \<^item> \<open>api_edit_message_text\<close>: \<^verbatim>\<open>bot.edit_message_text\<close>, \<open>None\<close> on success, or the
    text of the \<^verbatim>\<open>TelegramError\<close> raised;
  \<^item> \<open>utc_now\<close>: \<^verbatim>\<open>datetime.now(timezone.utc)\<close>;
  \<^item> \<open>current_timestamp\<close>: SQLite's \<^verbatim>\<open>CURRENT_TIMESTAMP\<close>;
  \<^item> \<open>before_cutoff\<close>: the comparison of \<^verbatim>\<open>cleanup_old_messages\<close>;
  \<^item> \<open>fetch_feed_async\<close>: \<^verbatim>\<open>_fetch_feed_async\<close>, the entries of the feed, or the
    text of the \<^verbatim>\<open>RSSFetchError\<close> raised;
  \<^item> \<open>parse_entry\<close>: \<^verbatim>\<open>_parse_entry\<close> on one entry of the feed (the feed parser
    and the date parser are outside the model);
  \<^item> \<open>sha256_hexdigest\<close>: \<^verbatim>\<open>hashlib.sha256(s.encode()).hexdigest()\<close>.
  Errors of the store and exceptions of the transport other than
  \<^verbatim>\<open>TelegramError\<close> are not modelled.
\<close>

record 'e env =
  api_send_message :: "nat \<Rightarrow> int \<Rightarrow> string \<Rightarrow> string + int"
  api_edit_message_text :: "nat \<Rightarrow> int \<Rightarrow> int \<Rightarrow> string \<Rightarrow> string option"
  utc_now :: "nat \<Rightarrow> datetime"
  current_timestamp :: "nat \<Rightarrow> timestamp"
  before_cutoff :: "nat \<Rightarrow> timestamp \<Rightarrow> bool"
  fetch_feed_async :: "nat \<Rightarrow> string + 'e list"
  parse_entry :: "nat \<Rightarrow> 'e \<Rightarrow> status_event option"
  sha256_hexdigest :: "string \<Rightarrow> string"

definition advance :: "world \<Rightarrow> world" where
  "advance w = w\<lparr>tick := Suc (tick w)\<rparr>"

definition record_call :: "call \<Rightarrow> world \<Rightarrow> world" where
  "record_call c w = advance (w\<lparr>calls := calls w @ [c]\<rparr>)"

text \<open>The store's operations on the world, each reading the clock it needs.\<close>

definition db_mark_message_sent ::
  "'e env \<Rightarrow> string \<Rightarrow> int \<Rightarrow> int \<Rightarrow> string \<Rightarrow> string option \<Rightarrow> string \<Rightarrow> world \<Rightarrow> world" where
  "db_mark_message_sent E message_guid chat_id telegram_message_id content_hash
       message_title delivery_status w =
     advance (w\<lparr>db := mark_message_sent (current_timestamp E (tick w)) message_guid chat_id
                          telegram_message_id content_hash message_title delivery_status
                          (db w)\<rparr>)"

definition db_update_message_record ::
  "'e env \<Rightarrow> string \<Rightarrow> int \<Rightarrow> string \<Rightarrow> string option \<Rightarrow> world \<Rightarrow> world" where
  "db_update_message_record E message_guid chat_id content_hash message_title w =
     advance (w\<lparr>db := update_message_record (current_timestamp E (tick w)) message_guid chat_id
                          content_hash message_title (db w)\<rparr>)"

definition db_add_pending_notification ::
  "'e env \<Rightarrow> int \<Rightarrow> string \<Rightarrow> string \<Rightarrow> string option \<Rightarrow> world \<Rightarrow> world" where
  "db_add_pending_notification E chat_id message_guid message_text event_title w =
     advance (w\<lparr>db := add_pending_notification (current_timestamp E (tick w)) chat_id
                          message_guid message_text event_title (db w)\<rparr>)"

definition db_unsubscribe_chat :: "int \<Rightarrow> world \<Rightarrow> world" where
  "db_unsubscribe_chat chat_id w =
     record_call (Unsubscribe chat_id) (w\<lparr>db := unsubscribe_chat chat_id (db w)\<rparr>)"

definition db_clear_pending_notifications :: "int \<Rightarrow> world \<Rightarrow> world" where
  "db_clear_pending_notifications chat_id w =
     w\<lparr>db := clear_pending_notifications chat_id (db w)\<rparr>"

definition db_cleanup_old_messages :: "'e env \<Rightarrow> world \<Rightarrow> world" where
  "db_cleanup_old_messages E w =
     advance (w\<lparr>db := cleanup_old_messages (before_cutoff E (tick w)) (db w)\<rparr>)"

text \<open>The two transport calls: the answer, and the world with the call recorded.\<close>

definition bot_send_message :: "'e env \<Rightarrow> int \<Rightarrow> string \<Rightarrow> world \<Rightarrow> (string + int) \<times> world" where
  "bot_send_message E chat_id text w =
     (api_send_message E (tick w) chat_id text, record_call (SendMessage chat_id text) w)"

definition bot_edit_message_text ::
  "'e env \<Rightarrow> int \<Rightarrow> int \<Rightarrow> string \<Rightarrow> world \<Rightarrow> string option \<times> world" where
  "bot_edit_message_text E chat_id message_id text w =
     (api_edit_message_text E (tick w) chat_id message_id text,
      record_call (EditMessageText chat_id message_id text) w)"

text \<open>The quiet-hours check of one recipient, at the time the environment gives.\<close>

definition chat_is_quiet :: "'e env \<Rightarrow> subscribed_chat \<Rightarrow> world \<Rightarrow> (py_error + bool) \<times> world" where
  "chat_is_quiet E chat_info w =
     (is_quiet_hours (dt_time (utc_now E (tick w)))
        (sc_quiet_hours_start chat_info) (sc_quiet_hours_end chat_info)
        (sc_quiet_hours_tz chat_info),
      advance w)"

subsection \<open>The delivery reconciler\<close>

definition permanent_errors :: "string list" where
  "permanent_errors =
     [''blocked'', ''deactivated'', ''not found'', ''chat not found'', ''kicked'', ''forbidden'']"

text \<open>\<^verbatim>\<open>_send_message\<close>: whether the message was sent, and the world after.\<close>

definition send_message ::
  "'e env \<Rightarrow> int \<Rightarrow> status_event \<Rightarrow> string \<Rightarrow> string \<Rightarrow> world \<Rightarrow> bool \<times> world" where
  "send_message E chat_id event message_text content_hash w =
     (case bot_send_message E chat_id message_text w of
        (Inr message_id, w1) \<Rightarrow>
          (True,
           record_call (Sleep 100)
             (db_mark_message_sent E (ev_guid event) chat_id message_id content_hash
                (Some (ev_title event)) ''sent'' w1))
      | (Inl e, w1) \<Rightarrow>
          (let error_str = lower e
           in if any_in permanent_errors error_str
              then (False, db_unsubscribe_chat chat_id w1)
              else (False, w1)))"

definition updated_marker :: string where
  "updated_marker = NL @ NL @ ''<i>[Mensagem atualizada]</i>''"

text \<open>
  The attempt to edit the message of an existing record whose content changed:
  \<open>True\<close> when the loop goes on to the next recipient (\<^verbatim>\<open>continue\<close>), \<open>False\<close>
  when control falls through to the send.  \<^verbatim>\<open>if telegram_msg_id:\<close> holds of an
  id that is neither \<^verbatim>\<open>None\<close> nor 0.
\<close>

definition try_edit ::
  "'e env \<Rightarrow> status_event \<Rightarrow> string \<Rightarrow> string \<Rightarrow> int \<Rightarrow> sent_message \<Rightarrow> world \<Rightarrow>
   bool \<times> world" where
  "try_edit E event message_text current_hash chat_id existing w =
     (case sm_telegram_message_id existing of
        None \<Rightarrow> (False, w)
      | Some telegram_msg_id \<Rightarrow>
          if telegram_msg_id = 0 then (False, w)
          else
            (let updated_text = message_text @ updated_marker
             in case bot_edit_message_text E chat_id telegram_msg_id updated_text w of
                  (None, w1) \<Rightarrow>
                    (True,
                     record_call (Sleep 100)
                       (db_update_message_record E (ev_guid event) chat_id current_hash
                          (Some (ev_title event)) w1))
                | (Some e, w1) \<Rightarrow> (False, w1)))"

text \<open>
  The body of the loop of \<^verbatim>\<open>_send_event_to_chats\<close> for one recipient; the
  exception is the one the quiet-hours check raises on a malformed time.
\<close>

definition send_event_to_chat ::
  "'e env \<Rightarrow> status_event \<Rightarrow> string \<Rightarrow> string \<Rightarrow> subscribed_chat \<Rightarrow> world \<Rightarrow>
   py_error option \<times> world" where
  "send_event_to_chat E event message_text current_hash chat_info w =
     (let chat_id = sc_chat_id chat_info
      in case chat_is_quiet E chat_info w of
           (Inl e, w1) \<Rightarrow> (Some e, w1)
         | (Inr True, w1) \<Rightarrow>
             (None,
              db_add_pending_notification E chat_id (ev_guid event) message_text
                (Some (ev_title event)) w1)
         | (Inr False, w1) \<Rightarrow>
             (case get_sent_message (ev_guid event) chat_id (db w1) of
                None \<Rightarrow>
                  (None, snd (send_message E chat_id event message_text current_hash w1))
              | Some existing \<Rightarrow>
                  if sm_content_hash existing = Some current_hash then (None, w1)
                  else
                    (case try_edit E event message_text current_hash chat_id existing w1 of
                       (True, w2) \<Rightarrow> (None, w2)
                     | (False, w2) \<Rightarrow>
                         (None,
                          snd (send_message E chat_id event message_text
                                 current_hash w2)))))"

fun send_event_to_chats_loop ::
  "'e env \<Rightarrow> status_event \<Rightarrow> string \<Rightarrow> string \<Rightarrow> subscribed_chat list \<Rightarrow> world \<Rightarrow>
   py_error option \<times> world" where
  "send_event_to_chats_loop E event message_text current_hash [] w = (None, w)"
| "send_event_to_chats_loop E event message_text current_hash (chat_info # chats) w =
     (case send_event_to_chat E event message_text current_hash chat_info w of
        (Some e, w1) \<Rightarrow> (Some e, w1)
      | (None, w1) \<Rightarrow> send_event_to_chats_loop E event message_text current_hash chats w1)"

definition send_event_to_chats ::
  "'e env \<Rightarrow> status_event \<Rightarrow> subscribed_chat list \<Rightarrow> world \<Rightarrow> py_error option \<times> world" where
  "send_event_to_chats E event chats w =
     (let message_text = to_telegram_message event;
          current_hash = get_content_hash (sha256_hexdigest E) event
      in send_event_to_chats_loop E event message_text current_hash chats w)"

subsection \<open>The flush of queued notifications\<close>

text \<open>The title of one line of the summary: \<^verbatim>\<open>p["event_title"] or "Evento"\<close>, cut at 50.\<close>

definition summary_title :: "pending_notification \<Rightarrow> string" where
  "summary_title p =
     (let title = (if falsy (pn_event_title p) then ''Evento'' else the (pn_event_title p))
      in if length title > 50 then take 50 title @ ''...'' else title)"

definition summary_lines :: "pending_notification list \<Rightarrow> string list" where
  "summary_lines pending = map (\<lambda>p. ''- '' @ summary_title p @ NL) (take 5 pending)"

definition summary_trailer :: "pending_notification list \<Rightarrow> string" where
  "summary_trailer pending =
     (if length pending > 5
      then NL @ ''... e mais '' @ str_nat (length pending - 5) @ '' eventos.''
      else [])"

definition summary_text :: "pending_notification list \<Rightarrow> string" where
  "summary_text pending =
     ''<b>Resumo: '' @ str_nat (length pending) @ '' notificacoes durante silencio</b>'' @
     NL @ NL @
     concat (summary_lines pending) @
     summary_trailer pending @
     NL @ NL @ ''Veja detalhes em https://status.ix.br''"

text \<open>The loop \<^verbatim>\<open>for p in pending\<close> that marks every queued item as sent.\<close>

fun mark_all_sent :: "'e env \<Rightarrow> int \<Rightarrow> pending_notification list \<Rightarrow> world \<Rightarrow> world" where
  "mark_all_sent E chat_id [] w = w"
| "mark_all_sent E chat_id (p # ps) w =
     mark_all_sent E chat_id ps
       (db_mark_message_sent E (pn_message_guid p) chat_id 0 ''pending_summary''
          (pn_event_title p) ''sent'' w)"

text \<open>
  The \<^verbatim>\<open>try\<close> block of \<^verbatim>\<open>_process_pending_notifications\<close> on a queue that is not
  empty: \<open>False\<close> when the \<^verbatim>\<open>TelegramError\<close> handler ran.
\<close>

definition send_pending ::
  "'e env \<Rightarrow> int \<Rightarrow> pending_notification list \<Rightarrow> world \<Rightarrow> bool \<times> world" where
  "send_pending E chat_id pending w =
     (case pending of
        [p] \<Rightarrow>
          (case bot_send_message E chat_id (pn_message_text p) w of
             (Inr message_id, w1) \<Rightarrow>
               (True,
                db_mark_message_sent E (pn_message_guid p) chat_id message_id
                  ''pending_delivered'' (pn_event_title p) ''sent'' w1)
           | (Inl e, w1) \<Rightarrow> (False, w1))
      | _ \<Rightarrow>
          (case bot_send_message E chat_id (summary_text pending) w of
             (Inr message_id, w1) \<Rightarrow> (True, mark_all_sent E chat_id pending w1)
           | (Inl e, w1) \<Rightarrow> (False, w1)))"

text \<open>The body of the loop of \<^verbatim>\<open>_process_pending_notifications\<close> for one recipient.\<close>

definition flush_chat :: "'e env \<Rightarrow> subscribed_chat \<Rightarrow> world \<Rightarrow> py_error option \<times> world" where
  "flush_chat E chat_info w =
     (let chat_id = sc_chat_id chat_info
      in case chat_is_quiet E chat_info w of
           (Inl e, w1) \<Rightarrow> (Some e, w1)
         | (Inr True, w1) \<Rightarrow> (None, w1)
         | (Inr False, w1) \<Rightarrow>
             (let pending = get_pending_notifications chat_id (db w1)
              in if pending = [] then (None, w1)
                 else (case send_pending E chat_id pending w1 of
                         (False, w2) \<Rightarrow> (None, w2)
                       | (True, w2) \<Rightarrow> (None, db_clear_pending_notifications chat_id w2))))"

fun process_pending_notifications ::
  "'e env \<Rightarrow> subscribed_chat list \<Rightarrow> world \<Rightarrow> py_error option \<times> world" where
  "process_pending_notifications E [] w = (None, w)"
| "process_pending_notifications E (chat_info # chats) w =
     (case flush_chat E chat_info w of
        (Some e, w1) \<Rightarrow> (Some e, w1)
      | (None, w1) \<Rightarrow> process_pending_notifications E chats w1)"

text \<open>The text that the flush sends for a queue: the one text, or the summary.\<close>

definition flush_text :: "pending_notification list \<Rightarrow> string" where
  "flush_text pending = (case pending of [p] \<Rightarrow> pn_message_text p | _ \<Rightarrow> summary_text pending)"

text \<open>
  The records that the flush of a summary writes, one for each queued item, the
  first at time stamp index \<open>t\<close>: message id 0 and hash \<^verbatim>\<open>"pending_summary"\<close>.
\<close>

definition summary_record :: "'e env \<Rightarrow> int \<Rightarrow> nat \<Rightarrow> pending_notification \<Rightarrow> sent_message" where
  "summary_record E chat_id t p =
     \<lparr>sm_message_guid = pn_message_guid p, sm_chat_id = chat_id,
      sm_telegram_message_id = Some 0, sm_content_hash = Some ''pending_summary'',
      sm_sent_at = current_timestamp E t, sm_updated_at = None,
      sm_message_title = pn_event_title p, sm_delivery_status = Some ''sent''\<rparr>"

fun summary_records :: "'e env \<Rightarrow> int \<Rightarrow> nat \<Rightarrow> pending_notification list \<Rightarrow> sent_message list" where
  "summary_records E chat_id t [] = []"
| "summary_records E chat_id t (p # ps) =
     summary_record E chat_id t p # summary_records E chat_id (Suc t) ps"

text \<open>\<^verbatim>\<open>UNIQUE(message_guid, chat_id)\<close> on \<^verbatim>\<open>pending_notifications\<close>.\<close>

definition pending_unique :: "database \<Rightarrow> bool" where
  "pending_unique d =
     distinct (map (\<lambda>r. (pn_message_guid r, pn_chat_id r)) (pending_notifications d))"

subsection \<open>The feed fetcher\<close>

text \<open>
  The loop over the entries of a fetched feed: an entry is kept when it parses and
  is not older than the cutoff.
\<close>

fun collect_events :: "'e env \<Rightarrow> int \<Rightarrow> 'e list \<Rightarrow> world \<Rightarrow> status_event list \<times> world" where
  "collect_events E cutoff_date [] w = ([], w)"
| "collect_events E cutoff_date (entry # entries) w =
     (let event = parse_entry E (tick w) entry;
          (events, w1) = collect_events E cutoff_date entries (advance w)
      in (case event of
            None \<Rightarrow> (events, w1)
          | Some ev \<Rightarrow>
              if dt_instant (ev_published ev) \<ge> cutoff_date then (ev # events, w1)
              else (events, w1)))"

text \<open>
  \<^verbatim>\<open>fetch_events\<close> from attempt \<open>attempt\<close> of \<^verbatim>\<open>range(3)\<close> on; the wait is in
  milliseconds.  A day has 86400000000 microseconds.
\<close>

function fetch_events_from :: "'e env \<Rightarrow> nat \<Rightarrow> world \<Rightarrow> status_event list \<times> world" where
  "fetch_events_from E attempt w =
     (if attempt < 3 then
        (case fetch_feed_async E (tick w) of
           Inr feed \<Rightarrow>
             (let w1 = record_call FetchFeed w;
                  w2 = advance (w1\<lparr>monitor := (monitor w1)
                          \<lparr>consecutive_failures := 0,
                           last_successful_fetch := Some (utc_now E (tick w1))\<rparr>\<rparr>);
                  cutoff_date = dt_instant (utc_now E (tick w2))
                                - max_age_days (monitor w2) * 86400000000
              in collect_events E cutoff_date feed (advance w2))
         | Inl e \<Rightarrow>
             (let w1 = record_call FetchFeed w;
                  wait_time = 4 * 2 ^ attempt;
                  w2 = (if attempt < 2 then record_call (Sleep (1000 * wait_time)) w1 else w1)
              in fetch_events_from E (Suc attempt) w2))
      else
        ([], w\<lparr>monitor := (monitor w)
                  \<lparr>consecutive_failures := consecutive_failures (monitor w) + 1\<rparr>\<rparr>))"
  by pat_completeness auto
termination
  by (relation "measure (\<lambda>(E, attempt, w). 3 - attempt)") auto

declare fetch_events_from.simps [simp del]

definition fetch_events :: "'e env \<Rightarrow> world \<Rightarrow> status_event list \<times> world" where
  "fetch_events E w = fetch_events_from E 0 w"

subsection \<open>The polling cycle\<close>

fun send_events ::
  "'e env \<Rightarrow> status_event list \<Rightarrow> subscribed_chat list \<Rightarrow> world \<Rightarrow> py_error option \<times> world" where
  "send_events E [] active_chats w = (None, w)"
| "send_events E (event # events) active_chats w =
     (case send_event_to_chats E event active_chats w of
        (Some e, w1) \<Rightarrow> (Some e, w1)
      | (None, w1) \<Rightarrow> send_events E events active_chats w1)"

text \<open>
  \<^verbatim>\<open>check_rss_updates\<close>: an exception raised inside ends the cycle where it is
  (the handler only logs it).
\<close>

definition check_rss_updates :: "'e env \<Rightarrow> world \<Rightarrow> world" where
  "check_rss_updates E w =
     (case fetch_events E w of
        (events, w1) \<Rightarrow>
          if events = [] then w1
          else
            (let active_chats = get_active_chats (db w1)
             in if active_chats = [] then w1
                else
                  (case send_events E events active_chats w1 of
                     (Some e, w2) \<Rightarrow> w2
                   | (None, w2) \<Rightarrow>
                       (case process_pending_notifications E active_chats w2 of
                          (Some e, w3) \<Rightarrow> w3
                        | (None, w3) \<Rightarrow> db_cleanup_old_messages E w3))))"

subsection \<open>Sample data\<close>

text \<open>
  An event, recipients, an environment that gives one answer to every call of a
  kind, and a world at its start; the theorems are put to work on them below.
  The feed of the sample environment carries events that are parsed already, the
  clock stands at noon UTC, and the digest is the text itself.
\<close>

definition noon :: datetime where
  "noon = \<lparr>dt_instant = 0, dt_year = 2024, dt_month = 5, dt_day = 1, dt_time = at_clock 12 0\<rparr>"

definition sample_event :: status_event where
  "sample_event =
     \<lparr>ev_guid = ''guid-1'',
      ev_title = ''IX.br Sao Paulo - Manutencao programada'',
      ev_description = ''janela de manutencao das 2h as 4h'',
      ev_link = ''https://status.ix.br/1'',
      ev_published = noon,
      ev_event_type = MAINTENANCE,
      ev_location = Some ''Sao Paulo'',
      ev_is_resolved = False\<rparr>"

definition sample_chat :: "int \<Rightarrow> string option \<Rightarrow> string option \<Rightarrow> subscribed_chat" where
  "sample_chat chat_id quiet_start quiet_end =
     \<lparr>sc_chat_id = chat_id, sc_chat_type = ''private'', sc_is_active = 1,
      sc_quiet_hours_start = quiet_start, sc_quiet_hours_end = quiet_end,
      sc_quiet_hours_tz = Some ''UTC''\<rparr>"

definition sample_record :: "string \<Rightarrow> int \<Rightarrow> int option \<Rightarrow> string \<Rightarrow> sent_message" where
  "sample_record message_guid chat_id telegram_message_id content_hash =
     \<lparr>sm_message_guid = message_guid, sm_chat_id = chat_id,
      sm_telegram_message_id = telegram_message_id, sm_content_hash = Some content_hash,
      sm_sent_at = 900, sm_updated_at = None, sm_message_title = Some ''old title'',
      sm_delivery_status = Some ''sent''\<rparr>"

definition sample_pending :: "int \<Rightarrow> string \<Rightarrow> string \<Rightarrow> timestamp \<Rightarrow> pending_notification" where
  "sample_pending chat_id message_guid title created_at =
     \<lparr>pn_chat_id = chat_id, pn_message_guid = message_guid,
      pn_message_text = ''text of '' @ message_guid, pn_event_title = Some title,
      pn_created_at = created_at\<rparr>"

definition sample_env ::
  "(string + int) \<Rightarrow> string option \<Rightarrow> (string + status_event list) \<Rightarrow> status_event env" where
  "sample_env send_answer edit_answer feed_answer =
     \<lparr>api_send_message = (\<lambda>t c x. send_answer),
      api_edit_message_text = (\<lambda>t c m x. edit_answer),
      utc_now = (\<lambda>t. noon),
      current_timestamp = (\<lambda>t. 1000 + t),
      before_cutoff = (\<lambda>t s. False),
      fetch_feed_async = (\<lambda>t. feed_answer),
      parse_entry = (\<lambda>t e. Some e),
      sha256_hexdigest = (\<lambda>s. s)\<rparr>"

definition sample_world ::
  "subscribed_chat list \<Rightarrow> sent_message list \<Rightarrow> pending_notification list \<Rightarrow> world" where
  "sample_world chats sent pending =
     \<lparr>db = \<lparr>subscribed_chats = chats, sent_messages = sent, pending_notifications = pending\<rparr>,
      monitor = \<lparr>max_age_days = 7, last_successful_fetch = None, consecutive_failures = 0\<rparr>,
      calls = [],
      tick = 0\<rparr>"

text \<open>Seven queued items of recipient 1; the title of the second has 63 characters.\<close>

definition seven_pending :: "pending_notification list" where
  "seven_pending =
     [sample_pending 1 ''g1'' ''Evento 1'' 11,
      sample_pending 1 ''g2''
        ''IX.br Rio de Janeiro - Indisponibilidade parcial do PIX central'' 12,
      sample_pending 1 ''g3'' ''Evento 3'' 13,
      sample_pending 1 ''g4'' ''Evento 4'' 14,
      sample_pending 1 ''g5'' ''Evento 5'' 15,
      sample_pending 1 ''g6'' ''Evento 6'' 16,
      sample_pending 1 ''g7'' ''Evento 7'' 17]"

section \<open>Properties\<close>

subsection \<open>Substrings\<close>

lemma startswith_iff: "startswith s p \<longleftrightarrow> (\<exists>post. s = p @ post)"
  by (induction s p rule: startswith.induct) auto

lemma contains_iff: "contains s p \<longleftrightarrow> (\<exists>pre post. s = pre @ p @ post)"
proof (induction s)
  case Nil
  then show ?case by simp
next
  case (Cons c cs)
  show ?case
  proof
    assume "contains (c # cs) p"
    then consider "startswith (c # cs) p" | "contains cs p" by auto
    then show "\<exists>pre post. c # cs = pre @ p @ post"
    proof cases
      case 1
      then obtain post where "c # cs = p @ post" by (auto simp: startswith_iff)
      then have "c # cs = [] @ p @ post" by simp
      then show ?thesis by blast
    next
      case 2
      then obtain pre post where "cs = pre @ p @ post" using Cons.IH by blast
      then have "c # cs = (c # pre) @ p @ post" by simp
      then show ?thesis by blast
    qed
  next
    assume "\<exists>pre post. c # cs = pre @ p @ post"
    then obtain pre post where eq: "c # cs = pre @ p @ post" by blast
    show "contains (c # cs) p"
    proof (cases pre)
      case Nil
      with eq have "startswith (c # cs) p" by (auto simp: startswith_iff)
      then show ?thesis by simp
    next
      case (Cons a pre')
      with eq have "cs = pre' @ p @ post" by simp
      then have "contains cs p" using Cons.IH by blast
      then show ?thesis by simp
    qed
  qed
qed

lemma any_in_iff: "any_in kws text \<longleftrightarrow> keyword_occurs kws text"
  by (simp add: any_in_def list_ex_iff contains_iff)

subsection \<open>The quiet-hours predicate\<close>

lemma time_of_parts_empty: "time_of_parts (split [] sep) = Inl ValueError"
  by (simp add: split_def time_of_parts_def py_int_def strip_def)

lemma is_quiet_hours_missing:
  "falsy qs \<or> falsy qe \<Longrightarrow> is_quiet_hours now_utc qs qe tz = Inr False"
  by (simp add: is_quiet_hours_def)

lemma is_quiet_hours_parsed:
  assumes "time_of_parts (split s '':'') = Inr start"
      and "time_of_parts (split e '':'') = Inr end'"
  shows "is_quiet_hours now_utc (Some s) (Some e) tz =
         Inr (if time_lt end' start
              then time_le start (shift_hours now_utc (tz_offset_of tz)) \<or>
                   time_le (shift_hours now_utc (tz_offset_of tz)) end'
              else time_le start (shift_hours now_utc (tz_offset_of tz)) \<and>
                   time_le (shift_hours now_utc (tz_offset_of tz)) end')"
proof -
  have "s \<noteq> []" using assms(1) time_of_parts_empty by fastforce
  moreover have "e \<noteq> []" using assms(2) time_of_parts_empty by fastforce
  ultimately show ?thesis
    using assms by (simp add: is_quiet_hours_def falsy_def Let_def)
qed

lemma tz_offset_unknown:
  "tz \<notin> {''UTC'', ''BRT'', ''AMT'', ''ACT'', ''FNT''} \<Longrightarrow> tz_offset_of (Some tz) = 0"
  by (auto simp: tz_offset_of_def falsy_def TIMEZONES_def)

lemma tz_offset_utc: "tz_offset_of (Some ''UTC'') = 0" "tz_offset_of None = 0"
  by (auto simp: tz_offset_of_def falsy_def TIMEZONES_def)

lemma is_quiet_hours_offset:
  "tz_offset_of tz = tz_offset_of tz' \<Longrightarrow>
   is_quiet_hours now_utc qs qe tz = is_quiet_hours now_utc qs qe tz'"
  by (simp add: is_quiet_hours_def)

lemma quiet_2330: "is_quiet_hours (at_clock 23 30) (Some ''22:00'') (Some ''07:00'') (Some ''UTC'') = Inr True"
  by code_simp

lemma quiet_1200: "is_quiet_hours (at_clock 12 0) (Some ''22:00'') (Some ''07:00'') (Some ''UTC'') = Inr False"
  by code_simp

lemma quiet_day_1200: "is_quiet_hours (at_clock 12 0) (Some ''07:00'') (Some ''22:00'') (Some ''UTC'') = Inr True"
  by code_simp

lemma valid_time_string_parses:
  "valid_time_string t \<Longrightarrow> \<exists>start. time_of_parts (split t '':'') = Inr start"
  by (auto simp: valid_time_string_def time_of_parts_def mk_time_def
        split: list.splits option.splits)

lemma tz_offsets:
  "map (\<lambda>n. tz_offset_of (Some n)) [''UTC'', ''BRT'', ''AMT'', ''ACT'', ''FNT''] =
   [0, -3, -4, -5, -2]"
  by (simp add: tz_offset_of_def falsy_def TIMEZONES_def)

subsection \<open>Times written as hour and minute\<close>

lemma digit_cases: "d < 10 \<Longrightarrow> d \<in> {0, 1, 2, 3, 4, 5, 6, 7, 8, 9 :: nat}"
  by (simp only: insert_iff empty_iff) arith

lemma digit_char:
  assumes "n < 10"
  shows "digit_val (''0123456789'' ! n) = Some n"
    and "\<not> isspace (''0123456789'' ! n)"
    and "''0123456789'' ! n \<noteq> CHR ''_''"
    and "''0123456789'' ! n \<noteq> CHR ''-''"
    and "''0123456789'' ! n \<noteq> CHR ''+''"
    and "''0123456789'' ! n \<noteq> CHR '':''"
  using digit_cases [OF assms] by (auto simp: digit_val_def isspace_def)

lemma py_int_one_digit:
  "x < 10 \<Longrightarrow> py_int [''0123456789'' ! x] = Some (int x)"
  by (simp add: py_int_def strip_def digit_char)

lemma py_int_two_digits:
  "x < 10 \<Longrightarrow> y < 10 \<Longrightarrow>
   py_int [''0123456789'' ! x, ''0123456789'' ! y] = Some (int (10 * x + y))"
  by (simp add: py_int_def strip_def digit_char)

lemma str_nat_one_digit: "n < 10 \<Longrightarrow> str_nat n = [''0123456789'' ! n]"
  by (simp add: str_nat.simps [of n])

lemma str_nat_two_digits:
  "10 \<le> n \<Longrightarrow> n < 100 \<Longrightarrow>
   str_nat n = [''0123456789'' ! (n div 10), ''0123456789'' ! (n mod 10)]"
  by (simp add: str_nat.simps [of n] str_nat_one_digit)

lemma pad2_two_digits:
  "n < 100 \<Longrightarrow> pad2 n = [''0123456789'' ! (n div 10), ''0123456789'' ! (n mod 10)]"
  by (cases "n < 10") (simp_all add: pad2_def str_nat_one_digit str_nat_two_digits)

lemma py_int_str_nat: "n < 100 \<Longrightarrow> py_int (str_nat n) = Some (int n)"
proof (cases "n < 10")
  case True
  then show ?thesis by (simp add: str_nat_one_digit py_int_one_digit)
next
  case False
  assume "n < 100"
  with False have "n div 10 < 10" "n mod 10 < 10" "10 \<le> n" by simp_all
  with \<open>n < 100\<close> show ?thesis
    using py_int_two_digits [of "n div 10" "n mod 10"]
    by (simp add: str_nat_two_digits)
qed

lemma py_int_pad2: "n < 100 \<Longrightarrow> py_int (pad2 n) = Some (int n)"
proof -
  assume "n < 100"
  then have "n div 10 < 10" "n mod 10 < 10" by simp_all
  with \<open>n < 100\<close> show ?thesis
    using py_int_two_digits [of "n div 10" "n mod 10"]
    by (simp add: pad2_two_digits)
qed

lemma no_colon_digits:
  assumes "x < 10" and "y < 10"
  shows "CHR '':'' \<notin> set [''0123456789'' ! x]"
    and "CHR '':'' \<notin> set [''0123456789'' ! x, ''0123456789'' ! y]"
  using digit_char(6) [OF assms(1)] digit_char(6) [OF assms(2)]
  by (auto simp only: list.set insert_iff empty_iff)

lemma no_colon_str_nat: "n < 100 \<Longrightarrow> CHR '':'' \<notin> set (str_nat n)"
proof (cases "n < 10")
  case True
  have "CHR '':'' \<notin> set [''0123456789'' ! n]"
    by (rule no_colon_digits(1) [OF True True])
  then show ?thesis
    unfolding str_nat_one_digit [OF True] .
next
  case False
  assume "n < 100"
  with False have d: "n div 10 < 10" "n mod 10 < 10" and g: "10 \<le> n" by simp_all
  have "CHR '':'' \<notin> set [''0123456789'' ! (n div 10), ''0123456789'' ! (n mod 10)]"
    by (rule no_colon_digits(2) [OF d])
  then show ?thesis
    unfolding str_nat_two_digits [OF g \<open>n < 100\<close>] .
qed

lemma no_colon_pad2: "n < 100 \<Longrightarrow> CHR '':'' \<notin> set (pad2 n)"
proof -
  assume b: "n < 100"
  then have d: "n div 10 < 10" "n mod 10 < 10" by simp_all
  have "CHR '':'' \<notin> set [''0123456789'' ! (n div 10), ''0123456789'' ! (n mod 10)]"
    by (rule no_colon_digits(2) [OF d])
  then show ?thesis
    unfolding pad2_two_digits [OF b] .
qed

text \<open>\<^verbatim>\<open>split\<close> on a separator of one character.\<close>

lemma split_acc_no_sep: "c \<notin> set s \<Longrightarrow> split_acc [c] acc s = [rev acc @ s]"
  by (induction s arbitrary: acc) auto

lemma split_acc_sep:
  "c \<notin> set a \<Longrightarrow> split_acc [c] acc (a @ c # b) = (rev acc @ a) # split_acc [c] [] b"
  by (induction a arbitrary: acc) auto

lemma split_hour_minute:
  "CHR '':'' \<notin> set a \<Longrightarrow> CHR '':'' \<notin> set b \<Longrightarrow> split (a @ CHR '':'' # b) '':'' = [a, b]"
  by (simp add: split_def split_acc_sep split_acc_no_sep)

lemma time_of_parts_hour_minute:
  "py_int a = Some (int h) \<Longrightarrow> py_int b = Some (int m) \<Longrightarrow> h < 24 \<Longrightarrow> m < 60 \<Longrightarrow>
   time_of_parts [a, b] = Inr (at_clock h m)"
  by (simp add: time_of_parts_def mk_time_def at_clock_def)

lemma time_of_hour_minute:
  assumes "h < 24" and "m < 60"
      and "hs = str_nat h \<or> hs = pad2 h" and "ms = str_nat m \<or> ms = pad2 m"
  shows "time_of_parts (split (hs @ '':'' @ ms) '':'') = Inr (at_clock h m)"
proof -
  from assms(1,2) have b: "h < 100" "m < 100" by simp_all
  have "py_int hs = Some (int h)" "CHR '':'' \<notin> set hs"
    using assms(3) b(1) by (auto simp: py_int_str_nat py_int_pad2 no_colon_str_nat no_colon_pad2)
  moreover have "py_int ms = Some (int m)" "CHR '':'' \<notin> set ms"
    using assms(4) b(2) by (auto simp: py_int_str_nat py_int_pad2 no_colon_str_nat no_colon_pad2)
  ultimately show ?thesis
    using assms(1,2) by (simp add: split_hour_minute time_of_parts_hour_minute)
qed

text \<open>Python's order on times of day is the order of the microseconds since midnight.\<close>

lemma time_lt_micros:
  assumes "minute a < 60" "second a < 60" "microsecond a < 1000000"
      and "minute b < 60" "second b < 60" "microsecond b < 1000000"
  shows "time_lt a b \<longleftrightarrow>
         micros_of_day (hour a) (minute a) (second a) (microsecond a) <
         micros_of_day (hour b) (minute b) (second b) (microsecond b)"
  using assms unfolding time_lt_def micros_of_day_def by auto

lemma time_lt_total:
  "\<not> time_lt a b \<Longrightarrow> \<not> time_lt b a \<Longrightarrow>
   hour a = hour b \<and> minute a = minute b \<and> second a = second b \<and>
   microsecond a = microsecond b"
  unfolding time_lt_def by auto

lemma time_le_micros:
  assumes "minute a < 60" "second a < 60" "microsecond a < 1000000"
      and "minute b < 60" "second b < 60" "microsecond b < 1000000"
  shows "time_le a b \<longleftrightarrow>
         micros_of_day (hour a) (minute a) (second a) (microsecond a) \<le>
         micros_of_day (hour b) (minute b) (second b) (microsecond b)"
proof
  assume "time_le a b"
  then show "micros_of_day (hour a) (minute a) (second a) (microsecond a) \<le>
             micros_of_day (hour b) (minute b) (second b) (microsecond b)"
    using time_lt_micros [OF assms] by (auto simp: time_le_def)
next
  assume le: "micros_of_day (hour a) (minute a) (second a) (microsecond a) \<le>
              micros_of_day (hour b) (minute b) (second b) (microsecond b)"
  show "time_le a b"
  proof (cases "time_lt a b")
    case True
    then show ?thesis by (simp add: time_le_def)
  next
    case False
    from le have "\<not> time_lt b a"
      using time_lt_micros [OF assms(4-6) assms(1-3)] by simp
    with False show ?thesis
      using time_lt_total [of a b] by (simp add: time_le_def)
  qed
qed

lemma tz_offset_named:
  "(name, off) \<in> set [(''UTC'', 0), (''BRT'', -3), (''AMT'', -4), (''ACT'', -5), (''FNT'', -2)] \<Longrightarrow>
   tz_offset_of (Some name) = off"
  by (auto simp: tz_offset_of_def falsy_def TIMEZONES_def)

lemma at_clock_fields [simp]:
  "hour (at_clock h m) = h" "minute (at_clock h m) = m"
  "second (at_clock h m) = 0" "microsecond (at_clock h m) = 0"
  by (simp_all add: at_clock_def)

lemma shift_hours_fields [simp]:
  "hour (shift_hours t off) = nat ((int (hour t) + off) mod 24)"
  "minute (shift_hours t off) = minute t" "second (shift_hours t off) = second t"
  "microsecond (shift_hours t off) = microsecond t"
  by (simp_all add: shift_hours_def)

lemma is_quiet_hours_hour_minute:
  assumes "h1 < 24" "m1 < 60" "h2 < 24" "m2 < 60"
      and "hs1 = str_nat h1 \<or> hs1 = pad2 h1" "ms1 = str_nat m1 \<or> ms1 = pad2 m1"
      and "hs2 = str_nat h2 \<or> hs2 = pad2 h2" "ms2 = str_nat m2 \<or> ms2 = pad2 m2"
      and "minute now_utc < 60" "second now_utc < 60" "microsecond now_utc < 1000000"
      and "(name, off) \<in> set [(''UTC'', 0), (''BRT'', -3), (''AMT'', -4), (''ACT'', -5),
                                (''FNT'', -2)]"
  shows "is_quiet_hours now_utc (Some (hs1 @ '':'' @ ms1)) (Some (hs2 @ '':'' @ ms2)) (Some name) =
         Inr (spec_window_quiet (micros_of_day h1 m1 0 0) (micros_of_day h2 m2 0 0)
                (micros_of_day (nat ((int (hour now_utc) + off) mod 24)) (minute now_utc)
                   (second now_utc) (microsecond now_utc)))"
proof -
  define start where "start = at_clock h1 m1"
  define end' where "end' = at_clock h2 m2"
  define now where "now = shift_hours now_utc off"
  have ps: "time_of_parts (split (hs1 @ '':'' @ ms1) '':'') = Inr start"
    unfolding start_def using assms(1,2,5,6) by (rule time_of_hour_minute)
  have pe: "time_of_parts (split (hs2 @ '':'' @ ms2) '':'') = Inr end'"
    unfolding end'_def using assms(3,4,7,8) by (rule time_of_hour_minute)
  have tz: "tz_offset_of (Some name) = off"
    using assms(12) by (rule tz_offset_named)
  have vs: "minute start < 60" "second start < 60" "microsecond start < 1000000"
    using assms(2) by (simp_all add: start_def)
  have ve: "minute end' < 60" "second end' < 60" "microsecond end' < 1000000"
    using assms(4) by (simp_all add: end'_def)
  have vn: "minute now < 60" "second now < 60" "microsecond now < 1000000"
    using assms(9-11) by (simp_all add: now_def)
  have lt: "time_lt end' start \<longleftrightarrow> micros_of_day h2 m2 0 0 < micros_of_day h1 m1 0 0"
    using time_lt_micros [OF ve vs] by (simp add: start_def end'_def)
  have le1: "time_le start now \<longleftrightarrow>
     micros_of_day h1 m1 0 0 \<le>
     micros_of_day (nat ((int (hour now_utc) + off) mod 24)) (minute now_utc)
       (second now_utc) (microsecond now_utc)"
    using time_le_micros [OF vs vn] by (simp add: start_def now_def)
  have le2: "time_le now end' \<longleftrightarrow>
     micros_of_day (nat ((int (hour now_utc) + off) mod 24)) (minute now_utc)
       (second now_utc) (microsecond now_utc) \<le>
     micros_of_day h2 m2 0 0"
    using time_le_micros [OF vn ve] by (simp add: end'_def now_def)
  have "is_quiet_hours now_utc (Some (hs1 @ '':'' @ ms1)) (Some (hs2 @ '':'' @ ms2)) (Some name) =
        Inr (if time_lt end' start then time_le start now \<or> time_le now end'
             else time_le start now \<and> time_le now end')"
    using is_quiet_hours_parsed [OF ps pe, of now_utc "Some name"]
    by (simp only: tz now_def)
  then show ?thesis
    by (simp only: lt le1 le2 spec_window_quiet_def)
qed

lemma is_quiet_hours_valid:
  assumes "valid_time_string s" and "valid_time_string e"
  shows "\<exists>q. is_quiet_hours now_utc (Some s) (Some e) tz = Inr q"
proof -
  obtain start end' where "time_of_parts (split s '':'') = Inr start"
    "time_of_parts (split e '':'') = Inr end'"
    using assms valid_time_string_parses by blast
  then show ?thesis
    using is_quiet_hours_parsed [of s start e end' now_utc tz] by simp
qed

lemma quiet_minutes:
  "is_quiet_hours (at_clock 22 15) (Some ''22:30'') (Some ''07:00'') (Some ''UTC'') = Inr False"
  "is_quiet_hours (at_clock 22 45) (Some ''22:30'') (Some ''07:00'') (Some ''UTC'') = Inr True"
  "is_quiet_hours (at_clock 7 0) (Some ''22:30'') (Some ''07:00'') (Some ''UTC'') = Inr True"
  "is_quiet_hours \<lparr>hour = 7, minute = 0, second = 30, microsecond = 0\<rparr>
     (Some ''22:30'') (Some ''07:00'') (Some ''UTC'') = Inr False"
  "is_quiet_hours (at_clock 1 15) (Some ''22:00'') (Some ''07:00'') (Some ''BRT'') = Inr True"
  by code_simp+

text \<open>
  Claim C4 as stated fails on a start that is present and is not a time of day:
  on "25:00" the constructor of the time refuses the hour, and on "2200" there is
  no second part to read, so the predicate raises and returns neither value.
\<close>

theorem is_quiet_hours_window_counterexample:
  "\<not> falsy (Some ''25:00'') \<and> \<not> falsy (Some ''2200'') \<and> \<not> falsy (Some ''07:00'') \<and>
   is_quiet_hours (at_clock 12 0) (Some ''25:00'') (Some ''07:00'') (Some ''UTC'') =
     Inl ValueError \<and>
   is_quiet_hours (at_clock 12 0) (Some ''2200'') (Some ''07:00'') (Some ''UTC'') =
     Inl IndexError"
  by code_simp

text \<open>
  Claim C4, as the code has it.  The quiet-hours predicate is false when the start
  or the end is missing (\<^verbatim>\<open>None\<close> or empty).  When the start is the time
  \<open>h1:m1\<close> and the end the time \<open>h2:m2\<close>, hours from 0 to 23 and minutes from 0 to
  59, each number written in decimal with or without a leading zero, and the time
  zone is one of the five names of the table, then with \<open>now\<close> the UTC time of day
  with its hour shifted by the offset of the zone (modulo 24), all counted in
  microseconds since midnight, the predicate is \<open>now \<ge> start \<or> now \<le> end\<close> if
  \<open>start > end\<close> (the window wraps midnight) and \<open>start \<le> now \<le> end\<close> otherwise.
  Every start and end that the command \<^verbatim>\<open>/silencio\<close> accepts makes the predicate
  return a truth value.  For the window 22:00 to 07:00 in UTC it is true at 23:30
  and false at 12:00; for the window 07:00 to 22:00 it is true at 12:00; for the
  window 22:30 to 07:00 it is false at 22:15, true at 22:45 and at 07:00, and
  false thirty seconds after 07:00.
\<close>

theorem is_quiet_hours_window:
  "(falsy qs \<or> falsy qe \<longrightarrow> is_quiet_hours now_utc qs qe tz = Inr False) \<and>
   (h1 < 24 \<and> m1 < 60 \<and> h2 < 24 \<and> m2 < 60 \<and>
    hs1 \<in> {str_nat h1, pad2 h1} \<and> ms1 \<in> {str_nat m1, pad2 m1} \<and>
    hs2 \<in> {str_nat h2, pad2 h2} \<and> ms2 \<in> {str_nat m2, pad2 m2} \<and>
    minute now_utc < 60 \<and> second now_utc < 60 \<and> microsecond now_utc < 1000000 \<and>
    (name, off) \<in> set [(''UTC'', 0), (''BRT'', -3), (''AMT'', -4), (''ACT'', -5), (''FNT'', -2)]
    \<longrightarrow>
      is_quiet_hours now_utc (Some (hs1 @ '':'' @ ms1)) (Some (hs2 @ '':'' @ ms2)) (Some name) =
        Inr (spec_window_quiet (micros_of_day h1 m1 0 0) (micros_of_day h2 m2 0 0)
               (micros_of_day (nat ((int (hour now_utc) + off) mod 24)) (minute now_utc)
                  (second now_utc) (microsecond now_utc)))) \<and>
   (valid_time_string s \<and> valid_time_string e \<longrightarrow>
      (\<exists>q. is_quiet_hours now_utc (Some s) (Some e) tz = Inr q)) \<and>
   is_quiet_hours (at_clock 23 30) (Some ''22:00'') (Some ''07:00'') (Some ''UTC'') = Inr True \<and>
   is_quiet_hours (at_clock 12 0) (Some ''22:00'') (Some ''07:00'') (Some ''UTC'') = Inr False \<and>
   is_quiet_hours (at_clock 12 0) (Some ''07:00'') (Some ''22:00'') (Some ''UTC'') = Inr True \<and>
   is_quiet_hours (at_clock 22 15) (Some ''22:30'') (Some ''07:00'') (Some ''UTC'') = Inr False \<and>
   is_quiet_hours (at_clock 22 45) (Some ''22:30'') (Some ''07:00'') (Some ''UTC'') = Inr True \<and>
   is_quiet_hours (at_clock 7 0) (Some ''22:30'') (Some ''07:00'') (Some ''UTC'') = Inr True \<and>
   is_quiet_hours \<lparr>hour = 7, minute = 0, second = 30, microsecond = 0\<rparr>
     (Some ''22:30'') (Some ''07:00'') (Some ''UTC'') = Inr False \<and>
   is_quiet_hours (at_clock 1 15) (Some ''22:00'') (Some ''07:00'') (Some ''BRT'') = Inr True"
proof (intro conjI impI)
  assume "falsy qs \<or> falsy qe"
  then show "is_quiet_hours now_utc qs qe tz = Inr False"
    by (rule is_quiet_hours_missing)
next
  assume a: "h1 < 24 \<and> m1 < 60 \<and> h2 < 24 \<and> m2 < 60 \<and>
    hs1 \<in> {str_nat h1, pad2 h1} \<and> ms1 \<in> {str_nat m1, pad2 m1} \<and>
    hs2 \<in> {str_nat h2, pad2 h2} \<and> ms2 \<in> {str_nat m2, pad2 m2} \<and>
    minute now_utc < 60 \<and> second now_utc < 60 \<and> microsecond now_utc < 1000000 \<and>
    (name, off) \<in> set [(''UTC'', 0), (''BRT'', -3), (''AMT'', -4), (''ACT'', -5), (''FNT'', -2)]"
  then have b: "h1 < 24" "m1 < 60" "h2 < 24" "m2 < 60"
    "hs1 = str_nat h1 \<or> hs1 = pad2 h1" "ms1 = str_nat m1 \<or> ms1 = pad2 m1"
    "hs2 = str_nat h2 \<or> hs2 = pad2 h2" "ms2 = str_nat m2 \<or> ms2 = pad2 m2"
    "minute now_utc < 60" "second now_utc < 60" "microsecond now_utc < 1000000"
    "(name, off) \<in> set [(''UTC'', 0), (''BRT'', -3), (''AMT'', -4), (''ACT'', -5), (''FNT'', -2)]"
    by blast+
  show "is_quiet_hours now_utc (Some (hs1 @ '':'' @ ms1)) (Some (hs2 @ '':'' @ ms2)) (Some name) =
        Inr (spec_window_quiet (micros_of_day h1 m1 0 0) (micros_of_day h2 m2 0 0)
               (micros_of_day (nat ((int (hour now_utc) + off) mod 24)) (minute now_utc)
                  (second now_utc) (microsecond now_utc)))"
    by (rule is_quiet_hours_hour_minute [OF b])
next
  assume "valid_time_string s \<and> valid_time_string e"
  then show "\<exists>q. is_quiet_hours now_utc (Some s) (Some e) tz = Inr q"
    using is_quiet_hours_valid by blast
next
  show "is_quiet_hours (at_clock 23 30) (Some ''22:00'') (Some ''07:00'') (Some ''UTC'') = Inr True"
    by (rule quiet_2330)
  show "is_quiet_hours (at_clock 12 0) (Some ''22:00'') (Some ''07:00'') (Some ''UTC'') = Inr False"
    by (rule quiet_1200)
  show "is_quiet_hours (at_clock 12 0) (Some ''07:00'') (Some ''22:00'') (Some ''UTC'') = Inr True"
    by (rule quiet_day_1200)
  show "is_quiet_hours (at_clock 22 15) (Some ''22:30'') (Some ''07:00'') (Some ''UTC'') = Inr False"
    by (rule quiet_minutes)
  show "is_quiet_hours (at_clock 22 45) (Some ''22:30'') (Some ''07:00'') (Some ''UTC'') = Inr True"
    by (rule quiet_minutes)
  show "is_quiet_hours (at_clock 7 0) (Some ''22:30'') (Some ''07:00'') (Some ''UTC'') = Inr True"
    by (rule quiet_minutes)
  show "is_quiet_hours \<lparr>hour = 7, minute = 0, second = 30, microsecond = 0\<rparr>
     (Some ''22:30'') (Some ''07:00'') (Some ''UTC'') = Inr False"
    by (rule quiet_minutes)
  show "is_quiet_hours (at_clock 1 15) (Some ''22:00'') (Some ''07:00'') (Some ''BRT'') = Inr True"
    by (rule quiet_minutes)
qed

text \<open>
  The theorem at the window 22:30 to 07:00 in Brasilia time: at 01:15 UTC it is
  22:15 there, a quarter of an hour before the window opens, and at 01:45 UTC it
  is 22:45, inside the window; with no end configured the recipient is not quiet;
  and on two accepted times.
\<close>

theorem is_quiet_hours_window_witness:
  "falsy None \<and>
   is_quiet_hours (at_clock 1 15) (Some ''22:30'') None (Some ''BRT'') = Inr False \<and>
   ((22::nat) < 24 \<and> (30::nat) < 60 \<and> (7::nat) < 24 \<and> (0::nat) < 60 \<and>
    ''22'' \<in> {str_nat 22, pad2 22} \<and> ''30'' \<in> {str_nat 30, pad2 30} \<and>
    ''07'' \<in> {str_nat 7, pad2 7} \<and> ''00'' \<in> {str_nat 0, pad2 0} \<and>
    minute (at_clock 1 15) < 60 \<and> second (at_clock 1 15) < 60 \<and>
    microsecond (at_clock 1 15) < 1000000 \<and>
    (''BRT'', -3) \<in> set [(''UTC'', 0), (''BRT'', -3), (''AMT'', -4), (''ACT'', -5),
                          (''FNT'', -2::int)]) \<and>
   is_quiet_hours (at_clock 1 15) (Some ''22:30'') (Some ''07:00'') (Some ''BRT'') = Inr False \<and>
   is_quiet_hours (at_clock 1 45) (Some ''22:30'') (Some ''07:00'') (Some ''BRT'') = Inr True \<and>
   valid_time_string ''22:30'' \<and> valid_time_string ''7:5'' \<and>
   (\<exists>q. is_quiet_hours (at_clock 1 15) (Some ''22:30'') (Some ''7:5'') (Some ''BRT'') = Inr q)"
proof -
  have f: "falsy None" by (simp add: falsy_def)
  have r0: "is_quiet_hours (at_clock 1 15) (Some ''22:30'') None (Some ''BRT'') = Inr False"
    using is_quiet_hours_window [where qs = "Some ''22:30''" and qe = None
        and now_utc = "at_clock 1 15" and tz = "Some ''BRT''", THEN conjunct1] f
    by blast
  have n: "(22::nat) < 24" "(30::nat) < 60" "(7::nat) < 24" "(0::nat) < 60" by simp_all
  have sn: "pad2 22 = ''22''" "pad2 30 = ''30''" "pad2 7 = ''07''" "pad2 0 = ''00''"
    by code_simp+
  have m: "''22'' \<in> {str_nat 22, pad2 22}" "''30'' \<in> {str_nat 30, pad2 30}"
    "''07'' \<in> {str_nat 7, pad2 7}" "''00'' \<in> {str_nat 0, pad2 0}"
    by (simp_all add: sn)
  have v: "minute (at_clock 1 15) < 60" "second (at_clock 1 15) < 60"
    "microsecond (at_clock 1 15) < 1000000"
    "minute (at_clock 1 45) < 60" "second (at_clock 1 45) < 60"
    "microsecond (at_clock 1 45) < 1000000"
    by simp_all
  have z: "(''BRT'', -3) \<in> set [(''UTC'', 0), (''BRT'', -3), (''AMT'', -4), (''ACT'', -5),
                                  (''FNT'', -2::int)]"
    by simp
  note t = is_quiet_hours_window [where ?h1.0 = 22 and ?m1.0 = 30 and ?h2.0 = 7 and ?m2.0 = 0
      and ?hs1.0 = "''22''" and ?ms1.0 = "''30''" and ?hs2.0 = "''07''" and ?ms2.0 = "''00''"
      and name = "''BRT''" and off = "-3", THEN conjunct2, THEN conjunct1, rule_format]
  have "is_quiet_hours (at_clock 1 15) (Some (''22'' @ '':'' @ ''30''))
          (Some (''07'' @ '':'' @ ''00'')) (Some ''BRT'') =
        Inr (spec_window_quiet (micros_of_day 22 30 0 0) (micros_of_day 7 0 0 0)
               (micros_of_day (nat ((int (hour (at_clock 1 15)) + -3) mod 24))
                  (minute (at_clock 1 15)) (second (at_clock 1 15))
                  (microsecond (at_clock 1 15))))"
    by (rule t) (intro conjI n m v(1-3) z)
  then have r1: "is_quiet_hours (at_clock 1 15) (Some ''22:30'') (Some ''07:00'') (Some ''BRT'') =
                 Inr False"
    by (simp add: spec_window_quiet_def micros_of_day_def)
  have "is_quiet_hours (at_clock 1 45) (Some (''22'' @ '':'' @ ''30''))
          (Some (''07'' @ '':'' @ ''00'')) (Some ''BRT'') =
        Inr (spec_window_quiet (micros_of_day 22 30 0 0) (micros_of_day 7 0 0 0)
               (micros_of_day (nat ((int (hour (at_clock 1 45)) + -3) mod 24))
                  (minute (at_clock 1 45)) (second (at_clock 1 45))
                  (microsecond (at_clock 1 45))))"
    by (rule t) (intro conjI n m v(4-6) z)
  then have r2: "is_quiet_hours (at_clock 1 45) (Some ''22:30'') (Some ''07:00'') (Some ''BRT'') =
                 Inr True"
    by (simp add: spec_window_quiet_def micros_of_day_def)
  have vs: "valid_time_string ''22:30''" "valid_time_string ''7:5''"
    by code_simp+
  have r3: "\<exists>q. is_quiet_hours (at_clock 1 15) (Some ''22:30'') (Some ''7:5'') (Some ''BRT'') = Inr q"
    using is_quiet_hours_window [where s = "''22:30''" and e = "''7:5''"
        and now_utc = "at_clock 1 15" and tz = "Some ''BRT''", THEN conjunct2, THEN conjunct2,
        THEN conjunct1] vs
    by blast
  show ?thesis
    by (intro conjI f r0 n m v(1-3) z r1 r2 vs r3)
qed

text \<open>
  Claim C10.  A time zone name outside the table (UTC, BRT, AMT, ACT, FNT), or no
  name at all, is taken as offset 0: the check gives, for any start, end and
  instant, exactly what it gives for \<^verbatim>\<open>"UTC"\<close>, so it fails on an unknown name only
  where it fails for \<^verbatim>\<open>"UTC"\<close> too.
\<close>

theorem is_quiet_hours_unknown_timezone:
  "(tz \<notin> {''UTC'', ''BRT'', ''AMT'', ''ACT'', ''FNT''} \<longrightarrow>
      tz_offset_of (Some tz) = 0 \<and>
      is_quiet_hours now_utc qs qe (Some tz) = is_quiet_hours now_utc qs qe (Some ''UTC'')) \<and>
   tz_offset_of None = 0 \<and>
   is_quiet_hours now_utc qs qe None = is_quiet_hours now_utc qs qe (Some ''UTC'')"
  using tz_offset_unknown [of tz] tz_offset_utc
        is_quiet_hours_offset [of "Some tz" "Some ''UTC''" now_utc qs qe]
        is_quiet_hours_offset [of None "Some ''UTC''" now_utc qs qe]
  by simp

theorem is_quiet_hours_unknown_timezone_witness:
  "''PST'' \<notin> {''UTC'', ''BRT'', ''AMT'', ''ACT'', ''FNT''} \<and>
   is_quiet_hours (at_clock 23 30) (Some ''22:00'') (Some ''07:00'') (Some ''PST'') = Inr True \<and>
   is_quiet_hours (at_clock 23 30) (Some ''22:00'') (Some ''07:00'') (Some ''UTC'') = Inr True"
proof -
  have n: "''PST'' \<notin> {''UTC'', ''BRT'', ''AMT'', ''ACT'', ''FNT''}" by simp
  have u: "is_quiet_hours (at_clock 23 30) (Some ''22:00'') (Some ''07:00'') (Some ''UTC'') = Inr True"
    by code_simp
  from is_quiet_hours_unknown_timezone
         [of "''PST''" "at_clock 23 30" "Some ''22:00''" "Some ''07:00''"]
  show ?thesis using n u by simp
qed

subsection \<open>The classifier\<close>

lemma classify_event_any_in:
  "classify_event title description =
     (if any_in resolved_keywords (lower (title @ '' '' @ description)) then (RESOLVED, True)
      else if any_in maintenance_keywords (lower (title @ '' '' @ description))
        then (MAINTENANCE, False)
      else if any_in incident_keywords (lower (title @ '' '' @ description))
        then (INCIDENT, False)
      else (UNKNOWN, False))"
  by (simp add: classify_event_def Let_def)

lemma classify_scenario:
  "classify_event ''IX.br Sao Paulo - Manutencao programada''
     ''janela de manutencao das 2h as 4h'' = (MAINTENANCE, False)"
  by code_simp

lemma location_scenario:
  "extract_location ''IX.br Sao Paulo - Manutencao programada'' = Some ''Sao Paulo''"
  by code_simp

text \<open>
  Claim C9.  The kind of an event is decided by an ordered cascade over the
  lower-cased text \<open>title + " " + description\<close>: Resolved if a resolved keyword
  occurs in it, whatever else occurs; otherwise Maintenance if a maintenance
  keyword occurs, also when incident keywords occur; otherwise Incident if an
  incident keyword occurs; otherwise Unknown.  The event titled
  "IX.br Sao Paulo - Manutencao programada" and described as
  "janela de manutencao das 2h as 4h" is of kind Maintenance, with location
  "Sao Paulo".
\<close>

theorem classify_event_cascade:
  "(keyword_occurs resolved_keywords (lower (title @ '' '' @ description)) \<longrightarrow>
      fst (classify_event title description) = RESOLVED) \<and>
   (\<not> keyword_occurs resolved_keywords (lower (title @ '' '' @ description)) \<and>
    keyword_occurs maintenance_keywords (lower (title @ '' '' @ description)) \<longrightarrow>
      fst (classify_event title description) = MAINTENANCE) \<and>
   (\<not> keyword_occurs resolved_keywords (lower (title @ '' '' @ description)) \<and>
    \<not> keyword_occurs maintenance_keywords (lower (title @ '' '' @ description)) \<and>
    keyword_occurs incident_keywords (lower (title @ '' '' @ description)) \<longrightarrow>
      fst (classify_event title description) = INCIDENT) \<and>
   (\<not> keyword_occurs resolved_keywords (lower (title @ '' '' @ description)) \<and>
    \<not> keyword_occurs maintenance_keywords (lower (title @ '' '' @ description)) \<and>
    \<not> keyword_occurs incident_keywords (lower (title @ '' '' @ description)) \<longrightarrow>
      fst (classify_event title description) = UNKNOWN) \<and>
   fst (classify_event ''IX.br Sao Paulo - Manutencao programada''
          ''janela de manutencao das 2h as 4h'') = MAINTENANCE \<and>
   extract_location ''IX.br Sao Paulo - Manutencao programada'' = Some ''Sao Paulo''"
  unfolding any_in_iff [symmetric]
  by (simp add: classify_event_any_in [of title description] classify_scenario
        location_scenario)

text \<open>
  The cascade on four texts: one with a resolved, a maintenance and an incident
  keyword, one with a maintenance and an incident keyword, one with an incident
  keyword only, and one with none.
\<close>

theorem classify_event_cascade_witness:
  "(keyword_occurs resolved_keywords (lower (''Problema resolvido'' @ '' '' @ ''apos manutencao'')) \<and>
    keyword_occurs maintenance_keywords (lower (''Problema resolvido'' @ '' '' @ ''apos manutencao'')) \<and>
    keyword_occurs incident_keywords (lower (''Problema resolvido'' @ '' '' @ ''apos manutencao'')) \<and>
    fst (classify_event ''Problema resolvido'' ''apos manutencao'') = RESOLVED) \<and>
   (\<not> keyword_occurs resolved_keywords (lower (''Falha na JANELA'' @ '' '' @ ''de hoje'')) \<and>
    keyword_occurs maintenance_keywords (lower (''Falha na JANELA'' @ '' '' @ ''de hoje'')) \<and>
    keyword_occurs incident_keywords (lower (''Falha na JANELA'' @ '' '' @ ''de hoje'')) \<and>
    fst (classify_event ''Falha na JANELA'' ''de hoje'') = MAINTENANCE) \<and>
   (\<not> keyword_occurs resolved_keywords (lower (''Rompimento de fibra'' @ '' '' @ [])) \<and>
    \<not> keyword_occurs maintenance_keywords (lower (''Rompimento de fibra'' @ '' '' @ [])) \<and>
    keyword_occurs incident_keywords (lower (''Rompimento de fibra'' @ '' '' @ [])) \<and>
    fst (classify_event ''Rompimento de fibra'' []) = INCIDENT) \<and>
   (\<not> keyword_occurs resolved_keywords (lower (''Aviso'' @ '' '' @ ''geral'')) \<and>
    \<not> keyword_occurs maintenance_keywords (lower (''Aviso'' @ '' '' @ ''geral'')) \<and>
    \<not> keyword_occurs incident_keywords (lower (''Aviso'' @ '' '' @ ''geral'')) \<and>
    fst (classify_event ''Aviso'' ''geral'') = UNKNOWN)"
proof -
  have a: "any_in resolved_keywords (lower (''Problema resolvido'' @ '' '' @ ''apos manutencao''))"
          "any_in maintenance_keywords (lower (''Problema resolvido'' @ '' '' @ ''apos manutencao''))"
          "any_in incident_keywords (lower (''Problema resolvido'' @ '' '' @ ''apos manutencao''))"
    by code_simp+
  have b: "\<not> any_in resolved_keywords (lower (''Falha na JANELA'' @ '' '' @ ''de hoje''))"
          "any_in maintenance_keywords (lower (''Falha na JANELA'' @ '' '' @ ''de hoje''))"
          "any_in incident_keywords (lower (''Falha na JANELA'' @ '' '' @ ''de hoje''))"
    by code_simp+
  have c: "\<not> any_in resolved_keywords (lower (''Rompimento de fibra'' @ '' '' @ []))"
          "\<not> any_in maintenance_keywords (lower (''Rompimento de fibra'' @ '' '' @ []))"
          "any_in incident_keywords (lower (''Rompimento de fibra'' @ '' '' @ []))"
    by code_simp+
  have d: "\<not> any_in resolved_keywords (lower (''Aviso'' @ '' '' @ ''geral''))"
          "\<not> any_in maintenance_keywords (lower (''Aviso'' @ '' '' @ ''geral''))"
          "\<not> any_in incident_keywords (lower (''Aviso'' @ '' '' @ ''geral''))"
    by code_simp+
  note a' = a [unfolded any_in_iff] and b' = b [unfolded any_in_iff]
   and c' = c [unfolded any_in_iff] and d' = d [unfolded any_in_iff]
  have r1: "fst (classify_event ''Problema resolvido'' ''apos manutencao'') = RESOLVED"
    by (rule classify_event_cascade
          [of "''Problema resolvido''" "''apos manutencao''", THEN conjunct1, rule_format])
       (rule a'(1))
  have r2: "fst (classify_event ''Falha na JANELA'' ''de hoje'') = MAINTENANCE"
    by (rule classify_event_cascade
          [of "''Falha na JANELA''" "''de hoje''", THEN conjunct2, THEN conjunct1, rule_format])
       (rule conjI [OF b'(1) b'(2)])
  have r3: "fst (classify_event ''Rompimento de fibra'' []) = INCIDENT"
    by (rule classify_event_cascade
          [of "''Rompimento de fibra''" "[]", THEN conjunct2, THEN conjunct2, THEN conjunct1,
           rule_format])
       (rule conjI [OF c'(1) conjI [OF c'(2) c'(3)]])
  have r4: "fst (classify_event ''Aviso'' ''geral'') = UNKNOWN"
    by (rule classify_event_cascade
          [of "''Aviso''" "''geral''", THEN conjunct2, THEN conjunct2, THEN conjunct2,
           THEN conjunct1, rule_format])
       (rule conjI [OF d'(1) conjI [OF d'(2) d'(3)]])
  show ?thesis
    by (intro conjI a' b' c' d' r1 r2 r3 r4)
qed

subsection \<open>The ledger: one record for an event and a recipient\<close>

lemma ledger_unique_mark_message_sent:
  "ledger_unique d \<Longrightarrow> ledger_unique (mark_message_sent now g c m h t s d)"
  by (auto simp: ledger_unique_def mark_message_sent_def sent_key_def distinct_map_filter
        image_iff)

lemma sent_key_update [simp]:
  "sent_key (r\<lparr>sm_content_hash := h, sm_message_title := t, sm_updated_at := u\<rparr>) = sent_key r"
  "sent_key (r\<lparr>sm_delivery_status := s\<rparr>) = sent_key r"
  by (simp_all add: sent_key_def)

lemma map_sent_key_update_message_record:
  "map sent_key (sent_messages (update_message_record now g c h t d)) = map sent_key (sent_messages d)"
  by (simp add: update_message_record_def o_def if_distrib cong: if_cong)

lemma ledger_unique_update_message_record:
  "ledger_unique d \<Longrightarrow> ledger_unique (update_message_record now g c h t d)"
  by (simp add: ledger_unique_def map_sent_key_update_message_record)

lemma ledger_unique_update_delivery_status:
  "ledger_unique d \<Longrightarrow> ledger_unique (update_delivery_status g c s d)"
  by (simp add: ledger_unique_def update_delivery_status_def o_def if_distrib cong: if_cong)

lemma ledger_unique_cleanup_old_messages:
  "ledger_unique d \<Longrightarrow> ledger_unique (cleanup_old_messages p d)"
  by (simp add: ledger_unique_def cleanup_old_messages_def distinct_map_filter)

lemma sent_messages_other [simp]:
  "sent_messages (unsubscribe_chat c d) = sent_messages d"
  "sent_messages (add_pending_notification now c g x t d) = sent_messages d"
  "sent_messages (clear_pending_notifications c d) = sent_messages d"
  by (simp_all add: unsubscribe_chat_def add_pending_notification_def clear_pending_notifications_def)

lemma ledger_unique_cong: "sent_messages d = sent_messages d' \<Longrightarrow> ledger_unique d = ledger_unique d'"
  by (simp add: ledger_unique_def)

lemma distinct_map_filter_le1:
  "distinct (map f xs) \<Longrightarrow> length (filter (\<lambda>x. f x = k) xs) \<le> 1"
proof (induction xs)
  case Nil
  then show ?case by simp
next
  case (Cons x xs)
  show ?case
  proof (cases "f x = k")
    case True
    with Cons.prems have "k \<notin> f ` set xs" by auto
    then have "filter (\<lambda>x. f x = k) xs = []" by (auto simp: filter_empty_conv)
    with True show ?thesis by simp
  next
    case False
    with Cons show ?thesis by simp
  qed
qed

lemma ledger_unique_records_of:
  "ledger_unique d \<Longrightarrow> length (records_of g c d) \<le> 1"
  using distinct_map_filter_le1 [of sent_key "sent_messages d" "(g, c)"]
  by (simp add: ledger_unique_def records_of_def sent_key_def)

subsection \<open>What each step does to the world\<close>

lemma advance_fields [simp]:
  "db (advance w) = db w" "calls (advance w) = calls w"
  "monitor (advance w) = monitor w" "tick (advance w) = Suc (tick w)"
  by (simp_all add: advance_def)

lemma record_call_fields [simp]:
  "db (record_call c w) = db w" "calls (record_call c w) = calls w @ [c]"
  "monitor (record_call c w) = monitor w" "tick (record_call c w) = Suc (tick w)"
  by (simp_all add: record_call_def)

lemma db_mark_message_sent_fields [simp]:
  "db (db_mark_message_sent E g c m h t s w) =
     mark_message_sent (current_timestamp E (tick w)) g c m h t s (db w)"
  "calls (db_mark_message_sent E g c m h t s w) = calls w"
  "monitor (db_mark_message_sent E g c m h t s w) = monitor w"
  "tick (db_mark_message_sent E g c m h t s w) = Suc (tick w)"
  by (simp_all add: db_mark_message_sent_def)

lemma db_update_message_record_fields [simp]:
  "db (db_update_message_record E g c h t w) =
     update_message_record (current_timestamp E (tick w)) g c h t (db w)"
  "calls (db_update_message_record E g c h t w) = calls w"
  "monitor (db_update_message_record E g c h t w) = monitor w"
  "tick (db_update_message_record E g c h t w) = Suc (tick w)"
  by (simp_all add: db_update_message_record_def)

lemma db_add_pending_notification_fields [simp]:
  "db (db_add_pending_notification E c g x t w) =
     add_pending_notification (current_timestamp E (tick w)) c g x t (db w)"
  "calls (db_add_pending_notification E c g x t w) = calls w"
  "monitor (db_add_pending_notification E c g x t w) = monitor w"
  "tick (db_add_pending_notification E c g x t w) = Suc (tick w)"
  by (simp_all add: db_add_pending_notification_def)

lemma db_unsubscribe_chat_fields [simp]:
  "db (db_unsubscribe_chat c w) = unsubscribe_chat c (db w)"
  "calls (db_unsubscribe_chat c w) = calls w @ [Unsubscribe c]"
  "monitor (db_unsubscribe_chat c w) = monitor w"
  "tick (db_unsubscribe_chat c w) = Suc (tick w)"
  by (simp_all add: db_unsubscribe_chat_def)

lemma db_clear_pending_notifications_fields [simp]:
  "db (db_clear_pending_notifications c w) = clear_pending_notifications c (db w)"
  "calls (db_clear_pending_notifications c w) = calls w"
  "monitor (db_clear_pending_notifications c w) = monitor w"
  "tick (db_clear_pending_notifications c w) = tick w"
  by (simp_all add: db_clear_pending_notifications_def)

lemma db_cleanup_old_messages_fields [simp]:
  "db (db_cleanup_old_messages E w) = cleanup_old_messages (before_cutoff E (tick w)) (db w)"
  "calls (db_cleanup_old_messages E w) = calls w"
  "monitor (db_cleanup_old_messages E w) = monitor w"
  "tick (db_cleanup_old_messages E w) = Suc (tick w)"
  by (simp_all add: db_cleanup_old_messages_def)

lemma bot_send_message_eq [simp]:
  "fst (bot_send_message E c x w) = api_send_message E (tick w) c x"
  "snd (bot_send_message E c x w) = record_call (SendMessage c x) w"
  by (simp_all add: bot_send_message_def)

lemma bot_edit_message_text_eq [simp]:
  "fst (bot_edit_message_text E c m x w) = api_edit_message_text E (tick w) c m x"
  "snd (bot_edit_message_text E c m x w) = record_call (EditMessageText c m x) w"
  by (simp_all add: bot_edit_message_text_def)

lemma chat_is_quiet_eq [simp]:
  "fst (chat_is_quiet E chat_info w) =
     is_quiet_hours (dt_time (utc_now E (tick w))) (sc_quiet_hours_start chat_info)
       (sc_quiet_hours_end chat_info) (sc_quiet_hours_tz chat_info)"
  "snd (chat_is_quiet E chat_info w) = advance w"
  by (simp_all add: chat_is_quiet_def)

text \<open>\<^verbatim>\<open>_send_message\<close>, by the answer of the transport.\<close>

lemma send_message_sent:
  "api_send_message E (tick w) c x = Inr m \<Longrightarrow>
   send_message E c ev x h w =
     (True, record_call (Sleep 100)
              (db_mark_message_sent E (ev_guid ev) c m h (Some (ev_title ev)) ''sent''
                 (record_call (SendMessage c x) w)))"
  by (simp add: send_message_def bot_send_message_def)

lemma send_message_permanent:
  "api_send_message E (tick w) c x = Inl e \<Longrightarrow> any_in permanent_errors (lower e) \<Longrightarrow>
   send_message E c ev x h w = (False, db_unsubscribe_chat c (record_call (SendMessage c x) w))"
  by (simp add: send_message_def bot_send_message_def)

lemma send_message_transient:
  "api_send_message E (tick w) c x = Inl e \<Longrightarrow> \<not> any_in permanent_errors (lower e) \<Longrightarrow>
   send_message E c ev x h w = (False, record_call (SendMessage c x) w)"
  by (simp add: send_message_def bot_send_message_def)

lemma send_message_cases:
  obtains (sent) m where "api_send_message E (tick w) c x = Inr m"
  | (permanent) e where "api_send_message E (tick w) c x = Inl e"
      "any_in permanent_errors (lower e)"
  | (transient) e where "api_send_message E (tick w) c x = Inl e"
      "\<not> any_in permanent_errors (lower e)"
  by (cases "api_send_message E (tick w) c x") auto

lemma ledger_unique_send_message:
  "ledger_unique (db w) \<Longrightarrow> ledger_unique (db (snd (send_message E c ev x h w)))"
  by (cases rule: send_message_cases [where E = E and w = w and c = c and x = x])
     (simp_all add: send_message_sent send_message_permanent send_message_transient
        ledger_unique_mark_message_sent ledger_unique_cong [of "unsubscribe_chat c (db w)" "db w"])

text \<open>The attempt to edit, by the stored message id and the answer of the transport.\<close>

lemma try_edit_no_id:
  "sm_telegram_message_id r = None \<or> sm_telegram_message_id r = Some 0 \<Longrightarrow>
   try_edit E ev x h c r w = (False, w)"
  by (auto simp: try_edit_def)

lemma try_edit_edited:
  "sm_telegram_message_id r = Some m \<Longrightarrow> m \<noteq> 0 \<Longrightarrow>
   api_edit_message_text E (tick w) c m (x @ updated_marker) = None \<Longrightarrow>
   try_edit E ev x h c r w =
     (True, record_call (Sleep 100)
              (db_update_message_record E (ev_guid ev) c h (Some (ev_title ev))
                 (record_call (EditMessageText c m (x @ updated_marker)) w)))"
  by (simp add: try_edit_def bot_edit_message_text_def)

lemma try_edit_failed:
  "sm_telegram_message_id r = Some m \<Longrightarrow> m \<noteq> 0 \<Longrightarrow>
   api_edit_message_text E (tick w) c m (x @ updated_marker) = Some e \<Longrightarrow>
   try_edit E ev x h c r w = (False, record_call (EditMessageText c m (x @ updated_marker)) w)"
  by (simp add: try_edit_def bot_edit_message_text_def)

lemma try_edit_cases:
  obtains (no_id) "sm_telegram_message_id r = None \<or> sm_telegram_message_id r = Some 0"
  | (edited) m where "sm_telegram_message_id r = Some m" "m \<noteq> 0"
      "api_edit_message_text E (tick w) c m (x @ updated_marker) = None"
  | (failed) m e where "sm_telegram_message_id r = Some m" "m \<noteq> 0"
      "api_edit_message_text E (tick w) c m (x @ updated_marker) = Some e"
  by (cases "sm_telegram_message_id r"; cases "api_edit_message_text E (tick w) c (the (sm_telegram_message_id r)) (x @ updated_marker)") auto

lemma ledger_unique_try_edit:
  "ledger_unique (db w) \<Longrightarrow> ledger_unique (db (snd (try_edit E ev x h c r w)))"
  by (cases rule: try_edit_cases [where r = r and E = E and w = w and c = c and x = x])
     (simp_all add: try_edit_no_id try_edit_edited try_edit_failed
        ledger_unique_update_message_record)

text \<open>The reconciliation of one event with one recipient, case by case.\<close>

lemma send_event_to_chat_raises:
  "fst (chat_is_quiet E ci w) = Inl e \<Longrightarrow>
   send_event_to_chat E ev x h ci w = (Some e, advance w)"
  by (simp add: send_event_to_chat_def chat_is_quiet_def)

lemma send_event_to_chat_quiet:
  "fst (chat_is_quiet E ci w) = Inr True \<Longrightarrow>
   send_event_to_chat E ev x h ci w =
     (None, db_add_pending_notification E (sc_chat_id ci) (ev_guid ev) x (Some (ev_title ev))
              (advance w))"
  by (simp add: send_event_to_chat_def chat_is_quiet_def)

lemma send_event_to_chat_new:
  "fst (chat_is_quiet E ci w) = Inr False \<Longrightarrow>
   get_sent_message (ev_guid ev) (sc_chat_id ci) (db w) = None \<Longrightarrow>
   send_event_to_chat E ev x h ci w =
     (None, snd (send_message E (sc_chat_id ci) ev x h (advance w)))"
  by (simp add: send_event_to_chat_def chat_is_quiet_def)

lemma send_event_to_chat_unchanged:
  "fst (chat_is_quiet E ci w) = Inr False \<Longrightarrow>
   get_sent_message (ev_guid ev) (sc_chat_id ci) (db w) = Some r \<Longrightarrow>
   sm_content_hash r = Some h \<Longrightarrow>
   send_event_to_chat E ev x h ci w = (None, advance w)"
  by (simp add: send_event_to_chat_def chat_is_quiet_def)

lemma send_event_to_chat_changed:
  "fst (chat_is_quiet E ci w) = Inr False \<Longrightarrow>
   get_sent_message (ev_guid ev) (sc_chat_id ci) (db w) = Some r \<Longrightarrow>
   sm_content_hash r \<noteq> Some h \<Longrightarrow>
   send_event_to_chat E ev x h ci w =
     (None,
      if fst (try_edit E ev x h (sc_chat_id ci) r (advance w))
      then snd (try_edit E ev x h (sc_chat_id ci) r (advance w))
      else snd (send_message E (sc_chat_id ci) ev x h
                  (snd (try_edit E ev x h (sc_chat_id ci) r (advance w)))))"
  by (cases "try_edit E ev x h (sc_chat_id ci) r (advance w)")
     (simp add: send_event_to_chat_def chat_is_quiet_def Let_def split: bool.splits)

lemma send_event_to_chat_cases:
  obtains (raises) e where "fst (chat_is_quiet E ci w) = Inl e"
  | (quiet) "fst (chat_is_quiet E ci w) = Inr True"
  | (new) "fst (chat_is_quiet E ci w) = Inr False"
      "get_sent_message (ev_guid ev) (sc_chat_id ci) (db w) = None"
  | (unchanged) r where "fst (chat_is_quiet E ci w) = Inr False"
      "get_sent_message (ev_guid ev) (sc_chat_id ci) (db w) = Some r"
      "sm_content_hash r = Some h"
  | (changed) r where "fst (chat_is_quiet E ci w) = Inr False"
      "get_sent_message (ev_guid ev) (sc_chat_id ci) (db w) = Some r"
      "sm_content_hash r \<noteq> Some h"
proof (cases "fst (chat_is_quiet E ci w)")
  case (Inl e)
  then show ?thesis by (rule raises)
next
  case (Inr q)
  show ?thesis
  proof (cases q)
    case True
    with Inr show ?thesis by (simp add: quiet)
  next
    case False
    with Inr have nq: "fst (chat_is_quiet E ci w) = Inr False" by simp
    show ?thesis
    proof (cases "get_sent_message (ev_guid ev) (sc_chat_id ci) (db w)")
      case None
      with nq show ?thesis by (rule new)
    next
      case (Some r)
      show ?thesis
      proof (cases "sm_content_hash r = Some h")
        case True
        with nq Some show ?thesis by (rule unchanged)
      next
        case False
        with nq Some show ?thesis by (rule changed)
      qed
    qed
  qed
qed

lemma ledger_unique_send_event_to_chat:
  assumes "ledger_unique (db w)"
  shows "ledger_unique (db (snd (send_event_to_chat E ev x h ci w)))"
proof (cases rule: send_event_to_chat_cases [where E = E and ci = ci and w = w and ev = ev and h = h])
  case (raises e)
  with assms show ?thesis by (simp add: send_event_to_chat_raises)
next
  case quiet
  with assms show ?thesis
    by (simp add: send_event_to_chat_quiet
          ledger_unique_cong [of "add_pending_notification _ _ _ _ _ (db w)" "db w"])
next
  case new
  with assms show ?thesis
    by (simp add: send_event_to_chat_new ledger_unique_send_message)
next
  case (unchanged r)
  with assms show ?thesis by (simp add: send_event_to_chat_unchanged)
next
  case (changed r)
  have "ledger_unique (db (snd (try_edit E ev x h (sc_chat_id ci) r (advance w))))"
    using assms by (simp add: ledger_unique_try_edit)
  with changed show ?thesis
    by (simp add: send_event_to_chat_changed ledger_unique_send_message)
qed

lemma ledger_unique_send_event_to_chats_loop:
  "ledger_unique (db w) \<Longrightarrow>
   ledger_unique (db (snd (send_event_to_chats_loop E ev x h chats w)))"
proof (induction chats arbitrary: w)
  case Nil
  then show ?case by simp
next
  case (Cons ci chats)
  have u: "ledger_unique (db (snd (send_event_to_chat E ev x h ci w)))"
    using Cons.prems by (rule ledger_unique_send_event_to_chat)
  show ?case
  proof (cases "send_event_to_chat E ev x h ci w")
    case (Pair r w1)
    with u have "ledger_unique (db w1)" by simp
    with Pair Cons.IH [of w1] show ?thesis by (cases r) simp_all
  qed
qed

lemma ledger_unique_send_events:
  "ledger_unique (db w) \<Longrightarrow> ledger_unique (db (snd (send_events E events chats w)))"
proof (induction events arbitrary: w)
  case Nil
  then show ?case by simp
next
  case (Cons ev events)
  have u: "ledger_unique (db (snd (send_event_to_chats E ev chats w)))"
    using Cons.prems by (simp add: send_event_to_chats_def ledger_unique_send_event_to_chats_loop)
  show ?case
  proof (cases "send_event_to_chats E ev chats w")
    case (Pair r w1)
    with u have "ledger_unique (db w1)" by simp
    with Pair Cons.IH [of w1] show ?thesis by (cases r) simp_all
  qed
qed

text \<open>The flush.\<close>

lemma ledger_unique_mark_all_sent:
  "ledger_unique (db w) \<Longrightarrow> ledger_unique (db (mark_all_sent E c ps w))"
  by (induction ps arbitrary: w) (simp_all add: ledger_unique_mark_message_sent)

lemma ledger_unique_send_pending:
  "ledger_unique (db w) \<Longrightarrow> ledger_unique (db (snd (send_pending E c ps w)))"
  by (auto simp: send_pending_def bot_send_message_def ledger_unique_mark_message_sent
        ledger_unique_mark_all_sent split: list.splits sum.splits)

lemma ledger_unique_flush_chat:
  assumes "ledger_unique (db w)"
  shows "ledger_unique (db (snd (flush_chat E ci w)))"
proof -
  have "ledger_unique
          (db (snd (send_pending E (sc_chat_id ci)
                      (get_pending_notifications (sc_chat_id ci) (db w)) (advance w))))"
    using assms by (simp add: ledger_unique_send_pending)
  then show ?thesis
    using assms
    by (auto simp: flush_chat_def chat_is_quiet_def Let_def
          ledger_unique_cong [of "clear_pending_notifications _ _" "db _"]
          split: sum.splits bool.splits prod.splits)
qed

lemma ledger_unique_process_pending_notifications:
  "ledger_unique (db w) \<Longrightarrow>
   ledger_unique (db (snd (process_pending_notifications E chats w)))"
proof (induction chats arbitrary: w)
  case Nil
  then show ?case by simp
next
  case (Cons ci chats)
  have u: "ledger_unique (db (snd (flush_chat E ci w)))"
    using Cons.prems by (rule ledger_unique_flush_chat)
  show ?case
  proof (cases "flush_chat E ci w")
    case (Pair r w1)
    with u have "ledger_unique (db w1)" by simp
    with Pair Cons.IH [of w1] show ?thesis by (cases r) simp_all
  qed
qed

text \<open>The fetch touches neither the store nor the transport.\<close>

lemma collect_events_snd_Cons:
  "snd (collect_events E cutoff (entry # entries) w) =
   snd (collect_events E cutoff entries (advance w))"
  by (simp add: Let_def split: prod.splits option.splits)

lemma collect_events_fields [simp]:
  "db (snd (collect_events E cutoff entries w)) = db w"
  "calls (snd (collect_events E cutoff entries w)) = calls w"
  "monitor (snd (collect_events E cutoff entries w)) = monitor w"
  by (induction entries arbitrary: w)
     (simp_all add: collect_events_snd_Cons del: collect_events.simps(2))

lemma fetch_events_from_db [simp]: "db (snd (fetch_events_from E attempt w)) = db w"
proof (induction E attempt w rule: fetch_events_from.induct)
  case (1 E attempt w)
  show ?case
  proof (cases "attempt < 3")
    case False
    then show ?thesis by (simp add: fetch_events_from.simps [of E attempt w])
  next
    case True
    show ?thesis
    proof (cases "fetch_feed_async E (tick w)")
      case (Inr feed)
      with True show ?thesis
        by (simp add: fetch_events_from.simps [of E attempt w] Let_def)
    next
      case (Inl e)
      with True "1.IH" [OF True Inl refl refl refl] show ?thesis
        by (simp add: fetch_events_from.simps [of E attempt w] Let_def)
    qed
  qed
qed

lemma ledger_unique_check_rss_updates:
  assumes "ledger_unique (db w)"
  shows "ledger_unique (db (check_rss_updates E w))"
proof (cases "fetch_events E w")
  case (Pair events w1)
  have "db (snd (fetch_events E w)) = db w"
    by (simp add: fetch_events_def)
  with Pair have "db w1 = db w"
    by simp
  with assms have u1: "ledger_unique (db w1)" by simp
  define chats where "chats = get_active_chats (db w1)"
  have u2: "ledger_unique (db (snd (send_events E events chats w1)))"
    using u1 by (rule ledger_unique_send_events)
  have u3: "ledger_unique (db (snd (process_pending_notifications E chats
                                      (snd (send_events E events chats w1)))))"
    using u2 by (rule ledger_unique_process_pending_notifications)
  show ?thesis
    using Pair u1 u2 u3
    by (auto simp: check_rss_updates_def Let_def chats_def ledger_unique_cleanup_old_messages
          split: prod.splits option.splits)
qed

lemma send_event_to_chat_same_hash:
  assumes "get_sent_message (ev_guid ev) (sc_chat_id ci) (db w) = Some r"
      and "sm_content_hash r = Some h"
  shows "calls (snd (send_event_to_chat E ev x h ci w)) = calls w"
    and "sent_messages (db (snd (send_event_to_chat E ev x h ci w))) = sent_messages (db w)"
proof -
  show "calls (snd (send_event_to_chat E ev x h ci w)) = calls w"
  proof (cases rule: send_event_to_chat_cases
           [where E = E and ci = ci and w = w and ev = ev and h = h])
    case (raises e)
    then show ?thesis by (simp add: send_event_to_chat_raises)
  next
    case quiet
    then show ?thesis by (simp add: send_event_to_chat_quiet)
  next
    case new
    with assms show ?thesis by simp
  next
    case (unchanged r')
    then show ?thesis by (simp add: send_event_to_chat_unchanged)
  next
    case (changed r')
    with assms show ?thesis by simp
  qed
  show "sent_messages (db (snd (send_event_to_chat E ev x h ci w))) = sent_messages (db w)"
  proof (cases rule: send_event_to_chat_cases
           [where E = E and ci = ci and w = w and ev = ev and h = h])
    case (raises e)
    then show ?thesis by (simp add: send_event_to_chat_raises)
  next
    case quiet
    then show ?thesis by (simp add: send_event_to_chat_quiet)
  next
    case new
    with assms show ?thesis by simp
  next
    case (unchanged r')
    then show ?thesis by (simp add: send_event_to_chat_unchanged)
  next
    case (changed r')
    with assms show ?thesis by simp
  qed
qed

lemma send_event_to_chats_single:
  "snd (send_event_to_chats E ev [ci] w) =
   snd (send_event_to_chat E ev (to_telegram_message ev)
          (get_content_hash (sha256_hexdigest E) ev) ci w)"
  by (simp add: send_event_to_chats_def Let_def split: prod.splits option.splits)

lemma get_sent_message_cong:
  "sent_messages d = sent_messages d' \<Longrightarrow> get_sent_message g c d = get_sent_message g c d'"
  by (simp add: get_sent_message_def)

lemma ledger_unique_empty:
  "ledger_unique \<lparr>subscribed_chats = cs, sent_messages = [], pending_notifications = ps\<rparr>"
  by (simp add: ledger_unique_def)

text \<open>
  Claim C1.  The table \<^verbatim>\<open>sent_messages\<close> never holds two records for one
  \<open>(guid, chat_id)\<close> pair: the empty table has none, every write of the store
  keeps the pairs distinct, and so do the reconciliation of an event with a
  recipient and the whole polling cycle; with distinct pairs a pair has at most one
  record.  When an event is reconciled with a recipient whose record stores the
  event's current content hash, the trace of outbound calls is as before (no send,
  no edit) and the table \<^verbatim>\<open>sent_messages\<close>, so the record, is unchanged.
\<close>

theorem ledger_at_most_one_record:
  "ledger_unique \<lparr>subscribed_chats = cs, sent_messages = [], pending_notifications = ps\<rparr> \<and>
   (ledger_unique d \<longrightarrow>
      length (records_of g c d) \<le> 1 \<and>
      ledger_unique (mark_message_sent now g c m h t s d) \<and>
      ledger_unique (update_message_record now g c h t d) \<and>
      ledger_unique (update_delivery_status g c s d) \<and>
      ledger_unique (cleanup_old_messages p d)) \<and>
   (ledger_unique (db w) \<longrightarrow>
      ledger_unique (db (snd (send_event_to_chats E ev [ci] w))) \<and>
      ledger_unique (db (check_rss_updates E w))) \<and>
   (get_sent_message (ev_guid ev) (sc_chat_id ci) (db w) = Some r \<and>
    sm_content_hash r = Some (get_content_hash (sha256_hexdigest E) ev) \<longrightarrow>
      calls (snd (send_event_to_chats E ev [ci] w)) = calls w \<and>
      sent_messages (db (snd (send_event_to_chats E ev [ci] w))) = sent_messages (db w) \<and>
      get_sent_message (ev_guid ev) (sc_chat_id ci) (db (snd (send_event_to_chats E ev [ci] w)))
        = Some r)"
proof (intro conjI impI)
  show "ledger_unique \<lparr>subscribed_chats = cs, sent_messages = [], pending_notifications = ps\<rparr>"
    by (rule ledger_unique_empty)
next
  assume u: "ledger_unique d"
  show "length (records_of g c d) \<le> 1"
    using u by (rule ledger_unique_records_of)
  show "ledger_unique (mark_message_sent now g c m h t s d)"
    using u by (rule ledger_unique_mark_message_sent)
  show "ledger_unique (update_message_record now g c h t d)"
    using u by (rule ledger_unique_update_message_record)
  show "ledger_unique (update_delivery_status g c s d)"
    using u by (rule ledger_unique_update_delivery_status)
  show "ledger_unique (cleanup_old_messages p d)"
    using u by (rule ledger_unique_cleanup_old_messages)
next
  assume "ledger_unique (db w)"
  then show "ledger_unique (db (snd (send_event_to_chats E ev [ci] w)))"
    and "ledger_unique (db (check_rss_updates E w))"
    by (simp_all add: send_event_to_chats_single ledger_unique_send_event_to_chat
          ledger_unique_check_rss_updates)
next
  assume a: "get_sent_message (ev_guid ev) (sc_chat_id ci) (db w) = Some r \<and>
             sm_content_hash r = Some (get_content_hash (sha256_hexdigest E) ev)"
  then show c: "calls (snd (send_event_to_chats E ev [ci] w)) = calls w"
    by (simp add: send_event_to_chats_single send_event_to_chat_same_hash(1) [of ev ci w r])
  from a show s: "sent_messages (db (snd (send_event_to_chats E ev [ci] w))) = sent_messages (db w)"
    by (simp add: send_event_to_chats_single send_event_to_chat_same_hash(2) [of ev ci w r])
  from a get_sent_message_cong [OF s]
  show "get_sent_message (ev_guid ev) (sc_chat_id ci) (db (snd (send_event_to_chats E ev [ci] w)))
        = Some r"
    by simp
qed

text \<open>
  The theorem on a ledger that holds the record of the sample event for recipient
  1, with the hash of the event: a second reconciliation calls nothing.
\<close>

theorem ledger_at_most_one_record_witness:
  "ledger_unique (db (sample_world [sample_chat 1 None None]
       [sample_record ''guid-1'' 1 (Some 5) (get_content_hash (\<lambda>s. s) sample_event)] [])) \<and>
   get_sent_message (ev_guid sample_event) (sc_chat_id (sample_chat 1 None None))
     (db (sample_world [sample_chat 1 None None]
        [sample_record ''guid-1'' 1 (Some 5) (get_content_hash (\<lambda>s. s) sample_event)] []))
     = Some (sample_record ''guid-1'' 1 (Some 5) (get_content_hash (\<lambda>s. s) sample_event)) \<and>
   sm_content_hash (sample_record ''guid-1'' 1 (Some 5) (get_content_hash (\<lambda>s. s) sample_event))
     = Some (get_content_hash
               (sha256_hexdigest (sample_env (Inr 77) None (Inr [sample_event]))) sample_event) \<and>
   calls (snd (send_event_to_chats (sample_env (Inr 77) None (Inr [sample_event])) sample_event
                 [sample_chat 1 None None]
                 (sample_world [sample_chat 1 None None]
                    [sample_record ''guid-1'' 1 (Some 5)
                       (get_content_hash (\<lambda>s. s) sample_event)] []))) = [] \<and>
   ledger_unique (db (check_rss_updates (sample_env (Inr 77) None (Inr [sample_event]))
       (sample_world [sample_chat 1 None None]
          [sample_record ''guid-1'' 1 (Some 5) (get_content_hash (\<lambda>s. s) sample_event)] []))) \<and>
   length (records_of ''guid-1'' 1
     (db (check_rss_updates (sample_env (Inr 77) None (Inr [sample_event]))
       (sample_world [sample_chat 1 None None]
          [sample_record ''guid-1'' 1 (Some 5) (get_content_hash (\<lambda>s. s) sample_event)] []))))
     \<le> 1"
proof -
  define E where "E = sample_env (Inr 77) None (Inr [sample_event])"
  define r where "r = sample_record ''guid-1'' 1 (Some 5) (get_content_hash (\<lambda>s. s) sample_event)"
  define w where "w = sample_world [sample_chat 1 None None] [r] []"
  have u: "ledger_unique (db w)"
    by (simp add: w_def sample_world_def ledger_unique_def)
  have g: "get_sent_message (ev_guid sample_event) (sc_chat_id (sample_chat 1 None None)) (db w)
           = Some r"
    by (simp add: w_def r_def sample_world_def get_sent_message_def sample_record_def
          sample_event_def sample_chat_def)
  have h: "sm_content_hash r = Some (get_content_hash (sha256_hexdigest E) sample_event)"
    by (simp add: r_def E_def sample_record_def sample_env_def)
  have cw: "calls w = []"
    by (simp add: w_def sample_world_def)
  note t1 = ledger_at_most_one_record
    [where w = w and E = E and ev = sample_event and ci = "sample_chat 1 None None" and r = r]
  note t2 = ledger_at_most_one_record
    [where d = "db (check_rss_updates E w)" and g = "''guid-1''" and c = 1]
  have "calls (snd (send_event_to_chats E sample_event [sample_chat 1 None None] w)) = calls w"
    by (rule t1 [THEN conjunct2, THEN conjunct2, THEN conjunct2, rule_format,
                 OF conjI [OF g h], THEN conjunct1])
  with cw have c: "calls (snd (send_event_to_chats E sample_event [sample_chat 1 None None] w)) = []"
    by simp
  have u': "ledger_unique (db (check_rss_updates E w))"
    by (rule t1 [THEN conjunct2, THEN conjunct2, THEN conjunct1, rule_format, OF u,
                 THEN conjunct2])
  have l: "length (records_of ''guid-1'' 1 (db (check_rss_updates E w))) \<le> 1"
    by (rule t2 [THEN conjunct2, THEN conjunct1, rule_format, OF u', THEN conjunct1])
  show ?thesis
    using u g h c u' l unfolding E_def r_def w_def by (intro conjI)
qed

subsection \<open>Edit instead of a second message\<close>

lemma find_map_update:
  assumes "find P xs = Some r" and "\<And>y. P y \<Longrightarrow> P (f y)"
  shows "find P (map (\<lambda>y. if P y then f y else y) xs) = Some (f r)"
  using assms by (induction xs) (auto split: if_splits)

lemma get_sent_message_update_message_record:
  assumes "get_sent_message g c d = Some r"
  shows "get_sent_message g c (update_message_record now g c h t d) =
         Some (r\<lparr>sm_content_hash := Some h, sm_message_title := t, sm_updated_at := Some now\<rparr>)"
  using find_map_update
    [where P = "\<lambda>r. sm_message_guid r = g \<and> sm_chat_id r = c"
       and f = "\<lambda>r. r\<lparr>sm_content_hash := Some h, sm_message_title := t,
                        sm_updated_at := Some now\<rparr>"
       and xs = "sent_messages d" and r = r]
    assms
  by (simp add: get_sent_message_def update_message_record_def)

lemma send_event_to_chat_edit:
  assumes nq: "fst (chat_is_quiet E ci w) = Inr False"
      and g: "get_sent_message (ev_guid ev) (sc_chat_id ci) (db w) = Some r"
      and hd: "sm_content_hash r \<noteq> Some h"
      and m: "sm_telegram_message_id r = Some mid" "mid \<noteq> 0"
  shows "api_edit_message_text E (Suc (tick w)) (sc_chat_id ci) mid (x @ updated_marker) = None \<Longrightarrow>
         snd (send_event_to_chat E ev x h ci w) =
           record_call (Sleep 100)
             (db_update_message_record E (ev_guid ev) (sc_chat_id ci) h (Some (ev_title ev))
                (record_call (EditMessageText (sc_chat_id ci) mid (x @ updated_marker))
                   (advance w)))"
    and "api_edit_message_text E (Suc (tick w)) (sc_chat_id ci) mid (x @ updated_marker) = Some e \<Longrightarrow>
         snd (send_event_to_chat E ev x h ci w) =
           snd (send_message E (sc_chat_id ci) ev x h
                  (record_call (EditMessageText (sc_chat_id ci) mid (x @ updated_marker))
                     (advance w)))"
proof -
  assume "api_edit_message_text E (Suc (tick w)) (sc_chat_id ci) mid (x @ updated_marker) = None"
  then have "try_edit E ev x h (sc_chat_id ci) r (advance w) =
     (True, record_call (Sleep 100)
              (db_update_message_record E (ev_guid ev) (sc_chat_id ci) h (Some (ev_title ev))
                 (record_call (EditMessageText (sc_chat_id ci) mid (x @ updated_marker))
                    (advance w))))"
    using m by (simp add: try_edit_edited)
  then show "snd (send_event_to_chat E ev x h ci w) =
           record_call (Sleep 100)
             (db_update_message_record E (ev_guid ev) (sc_chat_id ci) h (Some (ev_title ev))
                (record_call (EditMessageText (sc_chat_id ci) mid (x @ updated_marker))
                   (advance w)))"
    by (simp add: send_event_to_chat_changed [OF nq g hd])
next
  assume "api_edit_message_text E (Suc (tick w)) (sc_chat_id ci) mid (x @ updated_marker) = Some e"
  then have "try_edit E ev x h (sc_chat_id ci) r (advance w) =
     (False, record_call (EditMessageText (sc_chat_id ci) mid (x @ updated_marker)) (advance w))"
    using m by (simp add: try_edit_failed)
  then show "snd (send_event_to_chat E ev x h ci w) =
           snd (send_message E (sc_chat_id ci) ev x h
                  (record_call (EditMessageText (sc_chat_id ci) mid (x @ updated_marker))
                     (advance w)))"
    by (simp add: send_event_to_chat_changed [OF nq g hd])
qed

lemma send_message_calls:
  "\<exists>rest. calls (snd (send_message E c ev x h w)) = calls w @ SendMessage c x # rest"
  by (cases rule: send_message_cases [where E = E and w = w and c = c and x = x])
     (simp_all add: send_message_sent send_message_permanent send_message_transient)

text \<open>
  Claim C2, as the code has it.  For a recipient that is not inside its quiet
  window, with a record whose stored hash differs from the event's current hash
  and whose \<^verbatim>\<open>telegram_message_id\<close> is neither null nor 0 (the id 0 is what the
  flush stores for a summary), reconciliation first issues a transport edit of
  that message with the rendered text and the updated marker appended.  When the
  edit succeeds nothing is sent, and the record's \<^verbatim>\<open>content_hash\<close>,
  \<^verbatim>\<open>message_title\<close> and \<^verbatim>\<open>updated_at\<close> take the new values.  When the edit
  fails, reconciliation goes on with \<^verbatim>\<open>_send_message\<close> on the same arguments as
  for a recipient with no record.
\<close>

theorem edit_over_resend:
  "(fst (chat_is_quiet E ci w) = Inr False \<and>
    get_sent_message (ev_guid ev) (sc_chat_id ci) (db w) = Some r \<and>
    sm_content_hash r \<noteq> Some (get_content_hash (sha256_hexdigest E) ev) \<and>
    sm_telegram_message_id r = Some mid \<and> mid \<noteq> 0 \<longrightarrow>
      (\<exists>rest. calls (snd (send_event_to_chats E ev [ci] w)) =
          calls w @
          EditMessageText (sc_chat_id ci) mid (to_telegram_message ev @ updated_marker) # rest) \<and>
      (api_edit_message_text E (Suc (tick w)) (sc_chat_id ci) mid
           (to_telegram_message ev @ updated_marker) = None \<longrightarrow>
         calls (snd (send_event_to_chats E ev [ci] w)) =
           calls w @
           [EditMessageText (sc_chat_id ci) mid (to_telegram_message ev @ updated_marker),
            Sleep 100] \<and>
         get_sent_message (ev_guid ev) (sc_chat_id ci)
             (db (snd (send_event_to_chats E ev [ci] w))) =
           Some (r\<lparr>sm_content_hash := Some (get_content_hash (sha256_hexdigest E) ev),
                   sm_message_title := Some (ev_title ev),
                   sm_updated_at := Some (current_timestamp E (Suc (Suc (tick w))))\<rparr>)) \<and>
      (api_edit_message_text E (Suc (tick w)) (sc_chat_id ci) mid
           (to_telegram_message ev @ updated_marker) \<noteq> None \<longrightarrow>
         snd (send_event_to_chats E ev [ci] w) =
           snd (send_message E (sc_chat_id ci) ev (to_telegram_message ev)
                  (get_content_hash (sha256_hexdigest E) ev)
                  (record_call
                     (EditMessageText (sc_chat_id ci) mid
                        (to_telegram_message ev @ updated_marker))
                     (advance w))))) \<and>
   (fst (chat_is_quiet E ci w) = Inr False \<and>
    get_sent_message (ev_guid ev) (sc_chat_id ci) (db w) = None \<longrightarrow>
      snd (send_event_to_chats E ev [ci] w) =
        snd (send_message E (sc_chat_id ci) ev (to_telegram_message ev)
               (get_content_hash (sha256_hexdigest E) ev) (advance w)))"
proof (intro conjI impI; (elim conjE)?)
  define x where "x = to_telegram_message ev"
  define h where "h = get_content_hash (sha256_hexdigest E) ev"
  define c where "c = sc_chat_id ci"
  define w' where "w' = snd (send_event_to_chat E ev x h ci w)"
  have single: "snd (send_event_to_chats E ev [ci] w) = w'"
    by (simp add: send_event_to_chats_single w'_def x_def h_def)
  {
    assume nq: "fst (chat_is_quiet E ci w) = Inr False"
      and g: "get_sent_message (ev_guid ev) (sc_chat_id ci) (db w) = Some r"
      and hd: "sm_content_hash r \<noteq> Some (get_content_hash (sha256_hexdigest E) ev)"
      and m: "sm_telegram_message_id r = Some mid" "mid \<noteq> 0"
    from hd have hd': "sm_content_hash r \<noteq> Some h" by (simp add: h_def)
    note ed = send_event_to_chat_edit [OF nq g hd' m, of x]
    have ok: "w' = record_call (Sleep 100)
             (db_update_message_record E (ev_guid ev) c h (Some (ev_title ev))
                (record_call (EditMessageText c mid (x @ updated_marker)) (advance w)))"
      if "api_edit_message_text E (Suc (tick w)) c mid (x @ updated_marker) = None"
      using ed(1) that by (simp add: w'_def c_def)
    have ko: "w' = snd (send_message E c ev x h
                  (record_call (EditMessageText c mid (x @ updated_marker)) (advance w)))"
      if "api_edit_message_text E (Suc (tick w)) c mid (x @ updated_marker) \<noteq> None"
      using ed(2) that by (auto simp: w'_def c_def)
    show "\<exists>rest. calls (snd (send_event_to_chats E ev [ci] w)) =
          calls w @
          EditMessageText (sc_chat_id ci) mid (to_telegram_message ev @ updated_marker) # rest"
    proof (cases "api_edit_message_text E (Suc (tick w)) c mid (x @ updated_marker)")
      case None
      then show ?thesis
        by (simp add: single ok x_def [symmetric] c_def [symmetric])
    next
      case (Some e)
      then have "w' = snd (send_message E c ev x h
                  (record_call (EditMessageText c mid (x @ updated_marker)) (advance w)))"
        by (simp add: ko)
      moreover obtain rest where
        "calls (snd (send_message E c ev x h
                  (record_call (EditMessageText c mid (x @ updated_marker)) (advance w)))) =
         calls (record_call (EditMessageText c mid (x @ updated_marker)) (advance w)) @
         SendMessage c x # rest"
        using send_message_calls by blast
      ultimately show ?thesis
        by (simp add: single x_def [symmetric] c_def [symmetric])
    qed
    {
      assume a: "api_edit_message_text E (Suc (tick w)) (sc_chat_id ci) mid
           (to_telegram_message ev @ updated_marker) = None"
      then have w'_eq: "w' = record_call (Sleep 100)
             (db_update_message_record E (ev_guid ev) c h (Some (ev_title ev))
                (record_call (EditMessageText c mid (x @ updated_marker)) (advance w)))"
        by (simp add: ok x_def c_def)
      show "calls (snd (send_event_to_chats E ev [ci] w)) =
           calls w @
           [EditMessageText (sc_chat_id ci) mid (to_telegram_message ev @ updated_marker),
            Sleep 100]"
        by (simp add: single w'_eq x_def c_def)
      show "get_sent_message (ev_guid ev) (sc_chat_id ci)
             (db (snd (send_event_to_chats E ev [ci] w))) =
           Some (r\<lparr>sm_content_hash := Some (get_content_hash (sha256_hexdigest E) ev),
                   sm_message_title := Some (ev_title ev),
                   sm_updated_at := Some (current_timestamp E (Suc (Suc (tick w))))\<rparr>)"
        using get_sent_message_update_message_record [OF g]
        by (simp add: single w'_eq h_def c_def)
    }
    {
      assume "api_edit_message_text E (Suc (tick w)) (sc_chat_id ci) mid
           (to_telegram_message ev @ updated_marker) \<noteq> None"
      then show "snd (send_event_to_chats E ev [ci] w) =
           snd (send_message E (sc_chat_id ci) ev (to_telegram_message ev)
                  (get_content_hash (sha256_hexdigest E) ev)
                  (record_call
                     (EditMessageText (sc_chat_id ci) mid
                        (to_telegram_message ev @ updated_marker))
                     (advance w)))"
        using ko by (simp add: single x_def c_def h_def)
    }
  }
  {
    assume "fst (chat_is_quiet E ci w) = Inr False"
      and "get_sent_message (ev_guid ev) (sc_chat_id ci) (db w) = None"
    then show "snd (send_event_to_chats E ev [ci] w) =
        snd (send_message E (sc_chat_id ci) ev (to_telegram_message ev)
               (get_content_hash (sha256_hexdigest E) ev) (advance w))"
      by (simp add: send_event_to_chats_single send_event_to_chat_new)
  }
qed

text \<open>
  Claim C2 as stated fails on a record whose message id is 0: the record of the
  sample event for recipient 1 is there with a message id that is not null and
  with another hash, and the reconciliation sends a new message instead of
  editing.
\<close>

theorem edit_over_resend_counterexample:
  "get_sent_message (ev_guid sample_event) 1
     (db (sample_world [sample_chat 1 None None]
            [sample_record ''guid-1'' 1 (Some 0) ''pending_summary''] [])) =
     Some (sample_record ''guid-1'' 1 (Some 0) ''pending_summary'') \<and>
   sm_telegram_message_id (sample_record ''guid-1'' 1 (Some 0) ''pending_summary'') \<noteq> None \<and>
   sm_content_hash (sample_record ''guid-1'' 1 (Some 0) ''pending_summary'') \<noteq>
     Some (get_content_hash (sha256_hexdigest (sample_env (Inr 77) None (Inr [sample_event])))
             sample_event) \<and>
   fst (chat_is_quiet (sample_env (Inr 77) None (Inr [sample_event])) (sample_chat 1 None None)
          (sample_world [sample_chat 1 None None]
             [sample_record ''guid-1'' 1 (Some 0) ''pending_summary''] [])) = Inr False \<and>
   calls (snd (send_event_to_chats (sample_env (Inr 77) None (Inr [sample_event])) sample_event
                 [sample_chat 1 None None]
                 (sample_world [sample_chat 1 None None]
                    [sample_record ''guid-1'' 1 (Some 0) ''pending_summary''] []))) =
     [SendMessage 1 (to_telegram_message sample_event), Sleep 100]"
  by code_simp

text \<open>
  The theorem on the record of the sample event with message id 5 and an old
  hash: when the transport accepts the edit, the calls are the edit and the pacing
  sleep; when it refuses, the send of a recipient without a record follows.
\<close>

theorem edit_over_resend_witness:
  "(fst (chat_is_quiet (sample_env (Inr 77) None (Inr [sample_event])) (sample_chat 1 None None)
           (sample_world [sample_chat 1 None None]
              [sample_record ''guid-1'' 1 (Some 5) ''old''] [])) = Inr False \<and>
    get_sent_message (ev_guid sample_event) (sc_chat_id (sample_chat 1 None None))
      (db (sample_world [sample_chat 1 None None]
             [sample_record ''guid-1'' 1 (Some 5) ''old''] [])) =
      Some (sample_record ''guid-1'' 1 (Some 5) ''old'') \<and>
    sm_content_hash (sample_record ''guid-1'' 1 (Some 5) ''old'') \<noteq>
      Some (get_content_hash (sha256_hexdigest (sample_env (Inr 77) None (Inr [sample_event])))
              sample_event) \<and>
    sm_telegram_message_id (sample_record ''guid-1'' 1 (Some 5) ''old'') = Some 5 \<and>
    (5::int) \<noteq> 0) \<and>
   calls (snd (send_event_to_chats (sample_env (Inr 77) None (Inr [sample_event])) sample_event
                 [sample_chat 1 None None]
                 (sample_world [sample_chat 1 None None]
                    [sample_record ''guid-1'' 1 (Some 5) ''old''] []))) =
     [EditMessageText 1 5 (to_telegram_message sample_event @ updated_marker), Sleep 100] \<and>
   snd (send_event_to_chats
          (sample_env (Inr 77) (Some ''Message to edit not found'') (Inr [sample_event]))
          sample_event [sample_chat 1 None None]
          (sample_world [sample_chat 1 None None]
             [sample_record ''guid-1'' 1 (Some 5) ''old''] [])) =
     snd (send_message
            (sample_env (Inr 77) (Some ''Message to edit not found'') (Inr [sample_event]))
            1 sample_event (to_telegram_message sample_event)
            (get_content_hash (\<lambda>s. s) sample_event)
            (record_call
               (EditMessageText 1 5 (to_telegram_message sample_event @ updated_marker))
               (advance (sample_world [sample_chat 1 None None]
                           [sample_record ''guid-1'' 1 (Some 5) ''old''] []))))"
proof -
  define E where "E = sample_env (Inr 77) None (Inr [sample_event])"
  define E' where
    "E' = sample_env (Inr 77) (Some ''Message to edit not found'') (Inr [sample_event])"
  define r where "r = sample_record ''guid-1'' 1 (Some 5) ''old''"
  define ci where "ci = sample_chat 1 None None"
  define w where "w = sample_world [ci] [r] []"
  have c: "sc_chat_id ci = 1"
    by (simp add: ci_def sample_chat_def)
  have nq: "fst (chat_is_quiet E ci w) = Inr False" "fst (chat_is_quiet E' ci w) = Inr False"
    by (simp_all add: ci_def sample_chat_def is_quiet_hours_def falsy_def)
  have g: "get_sent_message (ev_guid sample_event) (sc_chat_id ci) (db w) = Some r"
    by (simp add: w_def r_def ci_def sample_world_def get_sent_message_def sample_record_def
          sample_event_def sample_chat_def)
  have sh: "sha256_hexdigest E = (\<lambda>s. s)" "sha256_hexdigest E' = (\<lambda>s. s)"
    by (simp_all add: E_def E'_def sample_env_def)
  have hd: "sm_content_hash r \<noteq> Some (get_content_hash (sha256_hexdigest E) sample_event)"
           "sm_content_hash r \<noteq> Some (get_content_hash (sha256_hexdigest E') sample_event)"
    by (simp_all add: sh r_def sample_record_def get_content_hash_def sample_event_def)
  have m: "sm_telegram_message_id r = Some 5" "(5::int) \<noteq> 0"
    by (simp_all add: r_def sample_record_def)
  have cw: "calls w = []"
    by (simp add: w_def sample_world_def)
  have ok: "api_edit_message_text E (Suc (tick w)) (sc_chat_id ci) 5
              (to_telegram_message sample_event @ updated_marker) = None"
    by (simp add: E_def sample_env_def)
  have ko: "api_edit_message_text E' (Suc (tick w)) (sc_chat_id ci) 5
              (to_telegram_message sample_event @ updated_marker) \<noteq> None"
    by (simp add: E'_def sample_env_def)
  note t = edit_over_resend [where ev = sample_event and ci = ci and w = w and r = r and mid = 5,
      THEN conjunct1, rule_format]
  have "calls (snd (send_event_to_chats E sample_event [ci] w)) =
          calls w @
          [EditMessageText (sc_chat_id ci) 5 (to_telegram_message sample_event @ updated_marker),
           Sleep 100]"
    using t [where E = E, OF conjI [OF nq(1) conjI [OF g conjI [OF hd(1) conjI [OF m]]]],
             THEN conjunct2, THEN conjunct1] ok
    by blast
  then have r1: "calls (snd (send_event_to_chats E sample_event [ci] w)) =
          [EditMessageText 1 5 (to_telegram_message sample_event @ updated_marker), Sleep 100]"
    by (simp add: cw c)
  have "snd (send_event_to_chats E' sample_event [ci] w) =
           snd (send_message E' (sc_chat_id ci) sample_event (to_telegram_message sample_event)
                  (get_content_hash (sha256_hexdigest E') sample_event)
                  (record_call
                     (EditMessageText (sc_chat_id ci) 5
                        (to_telegram_message sample_event @ updated_marker))
                     (advance w)))"
    using t [where E = E', OF conjI [OF nq(2) conjI [OF g conjI [OF hd(2) conjI [OF m]]]],
             THEN conjunct2, THEN conjunct2] ko
    by blast
  then have r2: "snd (send_event_to_chats E' sample_event [ci] w) =
           snd (send_message E' 1 sample_event (to_telegram_message sample_event)
                  (get_content_hash (\<lambda>s. s) sample_event)
                  (record_call
                     (EditMessageText 1 5 (to_telegram_message sample_event @ updated_marker))
                     (advance w)))"
    by (simp only: sh c)
  show ?thesis
    using nq(1) g hd(1) m r1 r2 unfolding E_def E'_def r_def ci_def w_def
    by (intro conjI)
qed

subsection \<open>Failures of the transport on a send\<close>







subsection \<open>The flush and the queue\<close>

lemma pending_notifications_mark_message_sent [simp]:
  "pending_notifications (mark_message_sent now g c m h t s d) = pending_notifications d"
  "subscribed_chats (mark_message_sent now g c m h t s d) = subscribed_chats d"
  by (simp_all add: mark_message_sent_def)

lemma mark_all_sent_fields [simp]:
  "pending_notifications (db (mark_all_sent E c ps w)) = pending_notifications (db w)"
  "subscribed_chats (db (mark_all_sent E c ps w)) = subscribed_chats (db w)"
  "calls (mark_all_sent E c ps w) = calls w"
  "monitor (mark_all_sent E c ps w) = monitor w"
  "tick (mark_all_sent E c ps w) = tick w + length ps"
  by (induction ps arbitrary: w) simp_all

lemma send_pending_failed:
  "pending \<noteq> [] \<Longrightarrow> api_send_message E (tick w) c (flush_text pending) = Inl e \<Longrightarrow>
   send_pending E c pending w = (False, record_call (SendMessage c (flush_text pending)) w)"
  by (auto simp: send_pending_def flush_text_def bot_send_message_def split: list.splits)

lemma send_pending_single:
  "api_send_message E (tick w) c (pn_message_text p) = Inr m \<Longrightarrow>
   send_pending E c [p] w =
     (True, db_mark_message_sent E (pn_message_guid p) c m ''pending_delivered''
              (pn_event_title p) ''sent'' (record_call (SendMessage c (pn_message_text p)) w))"
  by (simp add: send_pending_def bot_send_message_def)

lemma send_pending_summary:
  "length pending > 1 \<Longrightarrow> api_send_message E (tick w) c (summary_text pending) = Inr m \<Longrightarrow>
   send_pending E c pending w =
     (True, mark_all_sent E c pending (record_call (SendMessage c (summary_text pending)) w))"
  by (auto simp: send_pending_def bot_send_message_def split: list.splits)

lemma send_pending_sent:
  assumes "pending \<noteq> []" and "api_send_message E (tick w) c (flush_text pending) = Inr m"
  shows "fst (send_pending E c pending w)"
    and "pending_notifications (db (snd (send_pending E c pending w))) =
         pending_notifications (db w)"
    and "\<exists>n. calls (snd (send_pending E c pending w)) = calls w @ [SendMessage c (flush_text pending)]
           \<and> tick (snd (send_pending E c pending w)) = tick w + n"
proof -
  consider p where "pending = [p]" | "length pending > 1"
    using assms(1) by (cases pending; cases "tl pending") auto
  then have "fst (send_pending E c pending w) \<and>
     pending_notifications (db (snd (send_pending E c pending w))) =
       pending_notifications (db w) \<and>
     (\<exists>n. calls (snd (send_pending E c pending w)) = calls w @ [SendMessage c (flush_text pending)]
           \<and> tick (snd (send_pending E c pending w)) = tick w + n)"
  proof cases
    case 1
    with assms(2) have "api_send_message E (tick w) c (pn_message_text p) = Inr m"
      by (simp add: flush_text_def)
    then show ?thesis
      using 1 by (simp add: send_pending_single flush_text_def)
  next
    case 2
    then have ft: "flush_text pending = summary_text pending"
      by (cases pending; cases "tl pending") (auto simp: flush_text_def)
    with assms(2) have "api_send_message E (tick w) c (summary_text pending) = Inr m"
      by simp
    then show ?thesis
      using 2 by (simp add: send_pending_summary ft)
  qed
  then show "fst (send_pending E c pending w)"
    and "pending_notifications (db (snd (send_pending E c pending w))) =
         pending_notifications (db w)"
    and "\<exists>n. calls (snd (send_pending E c pending w)) = calls w @ [SendMessage c (flush_text pending)]
           \<and> tick (snd (send_pending E c pending w)) = tick w + n"
    by blast+
qed

lemma flush_chat_run:
  "fst (chat_is_quiet E ci w) = Inr False \<Longrightarrow>
   get_pending_notifications (sc_chat_id ci) (db w) \<noteq> [] \<Longrightarrow>
   snd (flush_chat E ci w) =
     (if fst (send_pending E (sc_chat_id ci) (get_pending_notifications (sc_chat_id ci) (db w))
                (advance w))
      then db_clear_pending_notifications (sc_chat_id ci)
             (snd (send_pending E (sc_chat_id ci)
                     (get_pending_notifications (sc_chat_id ci) (db w)) (advance w)))
      else snd (send_pending E (sc_chat_id ci)
                  (get_pending_notifications (sc_chat_id ci) (db w)) (advance w)))"
  by (cases "send_pending E (sc_chat_id ci) (get_pending_notifications (sc_chat_id ci) (db w))
               (advance w)")
     (simp add: flush_chat_def chat_is_quiet_def Let_def split: bool.splits)

lemma flush_chat_skip:
  "fst (chat_is_quiet E ci w) = Inr True \<or>
   (fst (chat_is_quiet E ci w) = Inr False \<and>
    get_pending_notifications (sc_chat_id ci) (db w) = []) \<Longrightarrow>
   flush_chat E ci w = (None, advance w)"
  by (auto simp: flush_chat_def chat_is_quiet_def Let_def)

lemma flush_chat_raises:
  "fst (chat_is_quiet E ci w) = Inl e \<Longrightarrow> flush_chat E ci w = (Some e, advance w)"
  by (simp add: flush_chat_def chat_is_quiet_def)

lemma get_pending_notifications_clear:
  "get_pending_notifications c (clear_pending_notifications c d) = []"
  by (simp add: get_pending_notifications_def clear_pending_notifications_def)

lemma pending_notifications_clear:
  "pending_notifications (clear_pending_notifications c d) =
   filter (\<lambda>r. pn_chat_id r \<noteq> c) (pending_notifications d)"
  by (simp add: clear_pending_notifications_def)

lemma get_pending_notifications_cong:
  "pending_notifications d = pending_notifications d' \<Longrightarrow>
   get_pending_notifications c d = get_pending_notifications c d'"
  by (simp add: get_pending_notifications_def)

lemma flush_chat_failed:
  assumes "fst (chat_is_quiet E ci w) = Inr False"
      and "get_pending_notifications (sc_chat_id ci) (db w) = pending" and "pending \<noteq> []"
      and "api_send_message E (Suc (tick w)) (sc_chat_id ci) (flush_text pending) = Inl e"
  shows "snd (flush_chat E ci w) =
         record_call (SendMessage (sc_chat_id ci) (flush_text pending)) (advance w)"
proof -
  have "send_pending E (sc_chat_id ci) pending (advance w) =
        (False, record_call (SendMessage (sc_chat_id ci) (flush_text pending)) (advance w))"
    using assms(3,4) by (simp add: send_pending_failed)
  then show ?thesis
    using assms(1,2,3) by (simp add: flush_chat_run)
qed

lemma flush_chat_sent:
  assumes "fst (chat_is_quiet E ci w) = Inr False"
      and "get_pending_notifications (sc_chat_id ci) (db w) = pending" and "pending \<noteq> []"
      and "api_send_message E (Suc (tick w)) (sc_chat_id ci) (flush_text pending) = Inr m"
  shows "snd (flush_chat E ci w) =
         db_clear_pending_notifications (sc_chat_id ci)
           (snd (send_pending E (sc_chat_id ci) pending (advance w)))"
    and "pending_notifications (db (snd (flush_chat E ci w))) =
         filter (\<lambda>r. pn_chat_id r \<noteq> sc_chat_id ci) (pending_notifications (db w))"
    and "calls (snd (flush_chat E ci w)) =
         calls w @ [SendMessage (sc_chat_id ci) (flush_text pending)]"
proof -
  have a: "api_send_message E (tick (advance w)) (sc_chat_id ci) (flush_text pending) = Inr m"
    using assms(4) by simp
  note sp = send_pending_sent [OF assms(3) a]
  show eq: "snd (flush_chat E ci w) =
         db_clear_pending_notifications (sc_chat_id ci)
           (snd (send_pending E (sc_chat_id ci) pending (advance w)))"
    using assms(1,2,3) sp(1) by (simp add: flush_chat_run)
  show "pending_notifications (db (snd (flush_chat E ci w))) =
         filter (\<lambda>r. pn_chat_id r \<noteq> sc_chat_id ci) (pending_notifications (db w))"
    using sp(2) by (simp add: eq pending_notifications_clear)
  show "calls (snd (flush_chat E ci w)) =
         calls w @ [SendMessage (sc_chat_id ci) (flush_text pending)]"
    using sp(3) by (auto simp: eq)
qed

text \<open>
  Claim C7.  For a recipient outside its quiet window with a queue that is not
  empty: when the transport refuses the send of the flush, the store is left as it
  was, so the queue of the recipient is unchanged and the same batch is read on
  the next flush; when the send succeeds, the queue of the recipient is empty
  afterwards, by one \<^verbatim>\<open>DELETE\<close> that removes all its rows and no others.
\<close>

theorem flush_failure_keeps_queue:
  "fst (chat_is_quiet E ci w) = Inr False \<and>
   get_pending_notifications (sc_chat_id ci) (db w) = pending \<and> pending \<noteq> [] \<longrightarrow>
     (api_send_message E (Suc (tick w)) (sc_chat_id ci) (flush_text pending) = Inl e \<longrightarrow>
        db (snd (flush_chat E ci w)) = db w \<and>
        get_pending_notifications (sc_chat_id ci) (db (snd (flush_chat E ci w))) = pending \<and>
        calls (snd (flush_chat E ci w)) =
          calls w @ [SendMessage (sc_chat_id ci) (flush_text pending)]) \<and>
     (api_send_message E (Suc (tick w)) (sc_chat_id ci) (flush_text pending) = Inr m \<longrightarrow>
        get_pending_notifications (sc_chat_id ci) (db (snd (flush_chat E ci w))) = [] \<and>
        pending_notifications (db (snd (flush_chat E ci w))) =
          filter (\<lambda>r. pn_chat_id r \<noteq> sc_chat_id ci) (pending_notifications (db w)) \<and>
        calls (snd (flush_chat E ci w)) =
          calls w @ [SendMessage (sc_chat_id ci) (flush_text pending)])"
proof (intro impI conjI; elim conjE)
  assume h: "fst (chat_is_quiet E ci w) = Inr False"
    "get_pending_notifications (sc_chat_id ci) (db w) = pending" "pending \<noteq> []"
  {
    assume f: "api_send_message E (Suc (tick w)) (sc_chat_id ci) (flush_text pending) = Inl e"
    note eq = flush_chat_failed [OF h f]
    show "db (snd (flush_chat E ci w)) = db w" by (simp add: eq)
    show "get_pending_notifications (sc_chat_id ci) (db (snd (flush_chat E ci w))) = pending"
      using h(2) by (simp add: eq)
    show "calls (snd (flush_chat E ci w)) =
          calls w @ [SendMessage (sc_chat_id ci) (flush_text pending)]"
      by (simp add: eq)
  }
  {
    assume s: "api_send_message E (Suc (tick w)) (sc_chat_id ci) (flush_text pending) = Inr m"
    note fs = flush_chat_sent [OF h s]
    show "get_pending_notifications (sc_chat_id ci) (db (snd (flush_chat E ci w))) = []"
      by (simp add: fs(1) get_pending_notifications_clear)
    show "pending_notifications (db (snd (flush_chat E ci w))) =
          filter (\<lambda>r. pn_chat_id r \<noteq> sc_chat_id ci) (pending_notifications (db w))"
      by (rule fs(2))
    show "calls (snd (flush_chat E ci w)) =
          calls w @ [SendMessage (sc_chat_id ci) (flush_text pending)]"
      by (rule fs(3))
  }
qed

text \<open>
  The theorem on recipient 1 with two queued items (created at 5 and at 3) beside
  one item of recipient 2: a send that times out leaves the three rows; a send
  that succeeds leaves the row of recipient 2.
\<close>

theorem flush_failure_keeps_queue_witness:
  "(fst (chat_is_quiet (sample_env (Inl ''Timed out'') None (Inr []))
           (sample_chat 1 None None)
           (sample_world [sample_chat 1 None None] []
              [sample_pending 1 ''a'' ''A'' 5, sample_pending 2 ''a'' ''A'' 5,
               sample_pending 1 ''b'' ''B'' 3])) = Inr False \<and>
    get_pending_notifications (sc_chat_id (sample_chat 1 None None))
      (db (sample_world [sample_chat 1 None None] []
             [sample_pending 1 ''a'' ''A'' 5, sample_pending 2 ''a'' ''A'' 5,
              sample_pending 1 ''b'' ''B'' 3])) =
      [sample_pending 1 ''b'' ''B'' 3, sample_pending 1 ''a'' ''A'' 5] \<and>
    [sample_pending 1 ''b'' ''B'' 3, sample_pending 1 ''a'' ''A'' 5] \<noteq> []) \<and>
   pending_notifications (db (snd (flush_chat (sample_env (Inl ''Timed out'') None (Inr []))
      (sample_chat 1 None None)
      (sample_world [sample_chat 1 None None] []
         [sample_pending 1 ''a'' ''A'' 5, sample_pending 2 ''a'' ''A'' 5,
          sample_pending 1 ''b'' ''B'' 3])))) =
     [sample_pending 1 ''a'' ''A'' 5, sample_pending 2 ''a'' ''A'' 5,
      sample_pending 1 ''b'' ''B'' 3] \<and>
   pending_notifications (db (snd (flush_chat (sample_env (Inr 77) None (Inr []))
      (sample_chat 1 None None)
      (sample_world [sample_chat 1 None None] []
         [sample_pending 1 ''a'' ''A'' 5, sample_pending 2 ''a'' ''A'' 5,
          sample_pending 1 ''b'' ''B'' 3])))) =
     [sample_pending 2 ''a'' ''A'' 5]"
proof -
  define E where "E = sample_env (Inl ''Timed out'') None (Inr [])"
  define E' where "E' = sample_env (Inr 77) None (Inr [])"
  define ci where "ci = sample_chat 1 None None"
  define rows where "rows = [sample_pending 1 ''a'' ''A'' 5, sample_pending 2 ''a'' ''A'' 5,
                             sample_pending 1 ''b'' ''B'' 3]"
  define w where "w = sample_world [ci] [] rows"
  define pending where "pending = [sample_pending 1 ''b'' ''B'' 3, sample_pending 1 ''a'' ''A'' 5]"
  have c: "sc_chat_id ci = 1"
    by (simp add: ci_def sample_chat_def)
  have nq: "fst (chat_is_quiet E ci w) = Inr False" "fst (chat_is_quiet E' ci w) = Inr False"
    by (simp_all add: ci_def sample_chat_def is_quiet_hours_def falsy_def)
  have pw: "pending_notifications (db w) = rows"
    by (simp add: w_def sample_world_def)
  have gp: "get_pending_notifications (sc_chat_id ci) (db w) = pending"
    by (simp add: c pw get_pending_notifications_def rows_def pending_def sample_pending_def)
  have ne: "pending \<noteq> []"
    by (simp add: pending_def)
  have f: "api_send_message E (Suc (tick w)) (sc_chat_id ci) (flush_text pending) = Inl ''Timed out''"
    by (simp add: E_def sample_env_def)
  have s: "api_send_message E' (Suc (tick w)) (sc_chat_id ci) (flush_text pending) = Inr 77"
    by (simp add: E'_def sample_env_def)
  note t = flush_failure_keeps_queue [where ci = ci and w = w and pending = pending, rule_format,
      OF conjI [OF _ conjI [OF gp ne]]]
  have "db (snd (flush_chat E ci w)) = db w"
    using t [where E = E, OF nq(1), THEN conjunct1, rule_format, OF f] by blast
  then have r1: "pending_notifications (db (snd (flush_chat E ci w))) = rows"
    by (simp add: pw)
  have "pending_notifications (db (snd (flush_chat E' ci w))) =
          filter (\<lambda>r. pn_chat_id r \<noteq> sc_chat_id ci) (pending_notifications (db w))"
    using t [where E = E', OF nq(2), THEN conjunct2, rule_format, OF s] by blast
  then have r2: "pending_notifications (db (snd (flush_chat E' ci w))) =
                 [sample_pending 2 ''a'' ''A'' 5]"
    by (simp add: pw c rows_def sample_pending_def)
  show ?thesis
    using nq(1) gp ne r1 r2 unfolding E_def E'_def ci_def w_def rows_def pending_def
    by (intro conjI)
qed

subsection \<open>The summary of a flushed queue\<close>

lemma mark_message_sent_summary:
  "sent_messages (mark_message_sent (current_timestamp E t) (pn_message_guid p) c 0
       ''pending_summary'' (pn_event_title p) ''sent'' d) =
   filter (\<lambda>r. \<not> (sm_message_guid r = pn_message_guid p \<and> sm_chat_id r = c))
     (sent_messages d) @ [summary_record E c t p]"
  by (simp add: mark_message_sent_def summary_record_def)

lemma summary_record_fields [simp]:
  "sm_message_guid (summary_record E c t p) = pn_message_guid p"
  "sm_chat_id (summary_record E c t p) = c"
  "sm_telegram_message_id (summary_record E c t p) = Some 0"
  "sm_content_hash (summary_record E c t p) = Some ''pending_summary''"
  "sm_message_title (summary_record E c t p) = pn_event_title p"
  by (simp_all add: summary_record_def)

lemma mark_all_sent_rows:
  "distinct (map pn_message_guid ps) \<Longrightarrow>
   sent_messages (db (mark_all_sent E c ps w)) =
     filter (\<lambda>r. \<not> (sm_chat_id r = c \<and> sm_message_guid r \<in> pn_message_guid ` set ps))
       (sent_messages (db w)) @
     summary_records E c (tick w) ps"
proof (induction ps arbitrary: w)
  case Nil
  then show ?case by simp
next
  case (Cons p ps)
  define w1 where "w1 = db_mark_message_sent E (pn_message_guid p) c 0 ''pending_summary''
                          (pn_event_title p) ''sent'' w"
  have s1: "sent_messages (db w1) =
     filter (\<lambda>r. \<not> (sm_message_guid r = pn_message_guid p \<and> sm_chat_id r = c))
       (sent_messages (db w)) @ [summary_record E c (tick w) p]"
    by (simp add: w1_def mark_message_sent_summary)
  have t1: "tick w1 = Suc (tick w)"
    by (simp add: w1_def)
  from Cons.prems have d: "distinct (map pn_message_guid ps)"
    and n: "pn_message_guid p \<notin> pn_message_guid ` set ps"
    by simp_all
  have "sent_messages (db (mark_all_sent E c (p # ps) w)) =
        sent_messages (db (mark_all_sent E c ps w1))"
    by (simp add: w1_def)
  also have "\<dots> =
     filter (\<lambda>r. \<not> (sm_chat_id r = c \<and> sm_message_guid r \<in> pn_message_guid ` set ps))
       (sent_messages (db w1)) @
     summary_records E c (tick w1) ps"
    using d by (rule Cons.IH)
  also have "\<dots> =
     filter (\<lambda>r. \<not> (sm_chat_id r = c \<and> sm_message_guid r \<in> pn_message_guid ` set (p # ps)))
       (sent_messages (db w)) @
     summary_records E c (tick w) (p # ps)"
    using n by (auto simp: s1 t1 intro: filter_cong)
  finally show ?case .
qed

lemma summary_records_facts:
  "length (summary_records E c t ps) = length ps"
  "map sm_message_guid (summary_records E c t ps) = map pn_message_guid ps"
  "map sm_message_title (summary_records E c t ps) = map pn_event_title ps"
  "list_all (\<lambda>r. sm_chat_id r = c \<and> sm_telegram_message_id r = Some 0 \<and>
                  sm_content_hash r = Some ''pending_summary'')
     (summary_records E c t ps)"
  by (induction ps arbitrary: t) simp_all

lemma distinct_pending_guids:
  assumes "pending_unique d"
  shows "distinct (map pn_message_guid (get_pending_notifications c d))"
proof -
  let ?xs = "filter (\<lambda>r. pn_chat_id r = c) (pending_notifications d)"
  from assms have d: "distinct (pending_notifications d)"
    and i: "inj_on (\<lambda>r. (pn_message_guid r, pn_chat_id r)) (set (pending_notifications d))"
    by (simp_all add: pending_unique_def distinct_map)
  have "inj_on pn_message_guid (set ?xs)"
  proof (rule inj_onI)
    fix x y
    assume "x \<in> set ?xs" "y \<in> set ?xs" "pn_message_guid x = pn_message_guid y"
    then have "x \<in> set (pending_notifications d)" "y \<in> set (pending_notifications d)"
      "(pn_message_guid x, pn_chat_id x) = (pn_message_guid y, pn_chat_id y)"
      by simp_all
    with i show "x = y" by (auto dest: inj_onD)
  qed
  moreover have "distinct ?xs" using d by simp
  ultimately have "distinct (map pn_message_guid ?xs)"
    by (simp add: distinct_map)
  then show ?thesis
    by (simp add: get_pending_notifications_def distinct_map)
qed

lemma summary_title_length: "length (summary_title p) \<le> 53"
  by (simp add: summary_title_def Let_def)

lemma summary_title_short:
  "pn_event_title p = Some t \<Longrightarrow> t \<noteq> [] \<Longrightarrow> length t \<le> 50 \<Longrightarrow> summary_title p = t"
  by (simp add: summary_title_def falsy_def)

lemma summary_title_long:
  "pn_event_title p = Some t \<Longrightarrow> length t > 50 \<Longrightarrow> summary_title p = take 50 t @ ''...''"
  by (auto simp: summary_title_def falsy_def)

lemma summary_lines_length: "length (summary_lines pending) = min 5 (length pending)"
  by (simp add: summary_lines_def min_def)

lemma flush_chat_summary:
  assumes "fst (chat_is_quiet E ci w) = Inr False"
      and "get_pending_notifications (sc_chat_id ci) (db w) = pending"
      and "length pending > 1"
      and "api_send_message E (Suc (tick w)) (sc_chat_id ci) (summary_text pending) = Inr m"
  shows "snd (flush_chat E ci w) =
         db_clear_pending_notifications (sc_chat_id ci)
           (mark_all_sent E (sc_chat_id ci) pending
              (record_call (SendMessage (sc_chat_id ci) (summary_text pending)) (advance w)))"
proof -
  from assms(3) have ne: "pending \<noteq> []" by auto
  have sp: "send_pending E (sc_chat_id ci) pending (advance w) =
     (True, mark_all_sent E (sc_chat_id ci) pending
              (record_call (SendMessage (sc_chat_id ci) (summary_text pending)) (advance w)))"
    using assms(3,4) by (simp add: send_pending_summary)
  show ?thesis
    using assms(1,2) ne by (simp add: flush_chat_run sp)
qed

lemma summary_text_unfolded:
  "summary_text pending =
     ''<b>Resumo: '' @ str_nat (length pending) @ '' notificacoes durante silencio</b>'' @
     NL @ NL @
     concat (map (\<lambda>p. ''- '' @ summary_title p @ NL) (take 5 pending)) @
     (if length pending > 5
      then NL @ ''... e mais '' @ str_nat (length pending - 5) @ '' eventos.'' else []) @
     NL @ NL @ ''Veja detalhes em https://status.ix.br''"
  by (simp add: summary_text_def summary_lines_def summary_trailer_def)

lemma flush_chat_summary_result:
  assumes "fst (chat_is_quiet E ci w) = Inr False"
      and "pending_unique (db w)"
      and "get_pending_notifications (sc_chat_id ci) (db w) = pending"
      and "length pending > 1"
      and "api_send_message E (Suc (tick w)) (sc_chat_id ci) (summary_text pending) = Inr m"
  shows "calls (snd (flush_chat E ci w)) =
           calls w @ [SendMessage (sc_chat_id ci) (summary_text pending)]"
    and "sent_messages (db (snd (flush_chat E ci w))) =
           filter (\<lambda>r. \<not> (sm_chat_id r = sc_chat_id ci \<and>
                            sm_message_guid r \<in> pn_message_guid ` set pending))
             (sent_messages (db w)) @
           summary_records E (sc_chat_id ci) (Suc (Suc (tick w))) pending"
proof -
  note eq = flush_chat_summary [OF assms(1,3,4,5)]
  show "calls (snd (flush_chat E ci w)) =
           calls w @ [SendMessage (sc_chat_id ci) (summary_text pending)]"
    by (simp add: eq)
  have "distinct (map pn_message_guid pending)"
    using distinct_pending_guids [OF assms(2), of "sc_chat_id ci"] assms(3) by simp
  then show "sent_messages (db (snd (flush_chat E ci w))) =
           filter (\<lambda>r. \<not> (sm_chat_id r = sc_chat_id ci \<and>
                            sm_message_guid r \<in> pn_message_guid ` set pending))
             (sent_messages (db w)) @
           summary_records E (sc_chat_id ci) (Suc (Suc (tick w))) pending"
    by (simp add: eq mark_all_sent_rows)
qed

lemma seven_pending_read:
  "get_pending_notifications 1 (db (sample_world [sample_chat 1 None None] [] seven_pending)) =
   seven_pending"
  by code_simp

lemma seven_pending_text:
  "summary_text seven_pending =
     ''<b>Resumo: 7 notificacoes durante silencio</b>'' @ NL @ NL @
     ''- Evento 1'' @ NL @
     ''- IX.br Rio de Janeiro - Indisponibilidade parcial d...'' @ NL @
     ''- Evento 3'' @ NL @
     ''- Evento 4'' @ NL @
     ''- Evento 5'' @ NL @
     NL @ ''... e mais 2 eventos.'' @
     NL @ NL @ ''Veja detalhes em https://status.ix.br''"
  by code_simp

lemma seven_pending_flush:
  "calls (snd (flush_chat (sample_env (Inr 77) None (Inr [])) (sample_chat 1 None None)
                 (sample_world [sample_chat 1 None None] [] seven_pending))) =
     [SendMessage 1 (summary_text seven_pending)]"
  "sent_messages (db (snd (flush_chat (sample_env (Inr 77) None (Inr [])) (sample_chat 1 None None)
                 (sample_world [sample_chat 1 None None] [] seven_pending)))) =
     summary_records (sample_env (Inr 77) None (Inr [])) 1 2 seven_pending"
proof -
  define E :: "status_event env" where "E = sample_env (Inr 77) None (Inr [])"
  define ci where "ci = sample_chat 1 None None"
  define w where "w = sample_world [ci] [] seven_pending"
  have c: "sc_chat_id ci = 1"
    by (simp add: ci_def sample_chat_def)
  have nq: "fst (chat_is_quiet E ci w) = Inr False"
    by (simp add: ci_def sample_chat_def is_quiet_hours_def falsy_def)
  have pu: "pending_unique (db w)"
    by (simp add: w_def sample_world_def pending_unique_def seven_pending_def sample_pending_def)
  have gp: "get_pending_notifications (sc_chat_id ci) (db w) = seven_pending"
    using seven_pending_read [folded ci_def] by (simp add: c w_def)
  have l: "length seven_pending > 1"
    by (simp add: seven_pending_def)
  have s: "api_send_message E (Suc (tick w)) (sc_chat_id ci) (summary_text seven_pending) = Inr 77"
    by (simp add: E_def sample_env_def)
  have w0: "calls w = []" "sent_messages (db w) = []" "tick w = 0"
    by (simp_all add: w_def sample_world_def)
  note r = flush_chat_summary_result [OF nq pu gp l s]
  show "calls (snd (flush_chat (sample_env (Inr 77) None (Inr [])) (sample_chat 1 None None)
                 (sample_world [sample_chat 1 None None] [] seven_pending))) =
     [SendMessage 1 (summary_text seven_pending)]"
    using r(1) by (simp add: w0 c E_def [symmetric] ci_def [symmetric] w_def [symmetric])
  show "sent_messages (db (snd (flush_chat (sample_env (Inr 77) None (Inr []))
                 (sample_chat 1 None None)
                 (sample_world [sample_chat 1 None None] [] seven_pending)))) =
     summary_records (sample_env (Inr 77) None (Inr [])) 1 2 seven_pending"
    using r(2)
    by (simp add: w0 c E_def [symmetric] ci_def [symmetric] w_def [symmetric] numeral_2_eq_2)
qed

lemma seven_pending_length: "length seven_pending = 7"
  by (simp add: seven_pending_def)

text \<open>
  Claim C5.  For a recipient outside its quiet window with more than one queued
  item, when the transport accepts the send, the flush sends one message, the
  summary: a header with the number of items, a line for each of the first five
  items with its title (cut at 50 characters, then three dots), a line
  "... e mais N eventos." with the number of the remaining items when there are
  more than five, and the link of the status page.  Then it writes one record for
  each queued item, all with message id 0 and hash \<^verbatim>\<open>"pending_summary"\<close>,
  replacing the records these items had.  With seven queued items the summary has
  five titles and the line "... e mais 2 eventos.", and seven records are written.
\<close>

theorem batch_summary:
  "(fst (chat_is_quiet E ci w) = Inr False \<and> pending_unique (db w) \<and>
    get_pending_notifications (sc_chat_id ci) (db w) = pending \<and> length pending > 1 \<and>
    api_send_message E (Suc (tick w)) (sc_chat_id ci) (summary_text pending) = Inr m \<longrightarrow>
      calls (snd (flush_chat E ci w)) =
        calls w @ [SendMessage (sc_chat_id ci) (summary_text pending)] \<and>
      sent_messages (db (snd (flush_chat E ci w))) =
        filter (\<lambda>r. \<not> (sm_chat_id r = sc_chat_id ci \<and>
                         sm_message_guid r \<in> pn_message_guid ` set pending))
          (sent_messages (db w)) @
        summary_records E (sc_chat_id ci) (Suc (Suc (tick w))) pending) \<and>
   length (summary_records E c t pending) = length pending \<and>
   map sm_message_guid (summary_records E c t pending) = map pn_message_guid pending \<and>
   list_all (\<lambda>r. sm_chat_id r = c \<and> sm_telegram_message_id r = Some 0 \<and>
                   sm_content_hash r = Some ''pending_summary'')
     (summary_records E c t pending) \<and>
   summary_text pending =
     ''<b>Resumo: '' @ str_nat (length pending) @ '' notificacoes durante silencio</b>'' @
     NL @ NL @
     concat (map (\<lambda>p. ''- '' @ summary_title p @ NL) (take 5 pending)) @
     (if length pending > 5
      then NL @ ''... e mais '' @ str_nat (length pending - 5) @ '' eventos.'' else []) @
     NL @ NL @ ''Veja detalhes em https://status.ix.br'' \<and>
   length (summary_title p) \<le> 53 \<and>
   (pn_event_title p = Some title \<and> length title > 50 \<longrightarrow>
      summary_title p = take 50 title @ ''...'') \<and>
   (pn_event_title p = Some title \<and> title \<noteq> [] \<and> length title \<le> 50 \<longrightarrow>
      summary_title p = title) \<and>
   summary_text seven_pending =
     ''<b>Resumo: 7 notificacoes durante silencio</b>'' @ NL @ NL @
     ''- Evento 1'' @ NL @
     ''- IX.br Rio de Janeiro - Indisponibilidade parcial d...'' @ NL @
     ''- Evento 3'' @ NL @
     ''- Evento 4'' @ NL @
     ''- Evento 5'' @ NL @
     NL @ ''... e mais 2 eventos.'' @
     NL @ NL @ ''Veja detalhes em https://status.ix.br'' \<and>
   calls (snd (flush_chat (sample_env (Inr 77) None (Inr [])) (sample_chat 1 None None)
                 (sample_world [sample_chat 1 None None] [] seven_pending))) =
     [SendMessage 1 (summary_text seven_pending)] \<and>
   length (sent_messages (db (snd (flush_chat (sample_env (Inr 77) None (Inr []))
             (sample_chat 1 None None)
             (sample_world [sample_chat 1 None None] [] seven_pending))))) = 7 \<and>
   list_all (\<lambda>r. sm_chat_id r = 1 \<and> sm_telegram_message_id r = Some 0 \<and>
                   sm_content_hash r = Some ''pending_summary'')
     (sent_messages (db (snd (flush_chat (sample_env (Inr 77) None (Inr []))
        (sample_chat 1 None None)
        (sample_world [sample_chat 1 None None] [] seven_pending)))))"
proof (intro conjI impI)
  assume a: "fst (chat_is_quiet E ci w) = Inr False \<and> pending_unique (db w) \<and>
    get_pending_notifications (sc_chat_id ci) (db w) = pending \<and> length pending > 1 \<and>
    api_send_message E (Suc (tick w)) (sc_chat_id ci) (summary_text pending) = Inr m"
  then have h: "fst (chat_is_quiet E ci w) = Inr False" "pending_unique (db w)"
    "get_pending_notifications (sc_chat_id ci) (db w) = pending" "length pending > 1"
    "api_send_message E (Suc (tick w)) (sc_chat_id ci) (summary_text pending) = Inr m"
    by blast+
  show "calls (snd (flush_chat E ci w)) =
        calls w @ [SendMessage (sc_chat_id ci) (summary_text pending)]"
    by (rule flush_chat_summary_result(1) [OF h])
  show "sent_messages (db (snd (flush_chat E ci w))) =
        filter (\<lambda>r. \<not> (sm_chat_id r = sc_chat_id ci \<and>
                         sm_message_guid r \<in> pn_message_guid ` set pending))
          (sent_messages (db w)) @
        summary_records E (sc_chat_id ci) (Suc (Suc (tick w))) pending"
    by (rule flush_chat_summary_result(2) [OF h])
next
  show "length (summary_records E c t pending) = length pending"
    by (rule summary_records_facts)
  show "map sm_message_guid (summary_records E c t pending) = map pn_message_guid pending"
    by (rule summary_records_facts)
  show "list_all (\<lambda>r. sm_chat_id r = c \<and> sm_telegram_message_id r = Some 0 \<and>
                   sm_content_hash r = Some ''pending_summary'')
     (summary_records E c t pending)"
    by (rule summary_records_facts)
  show "summary_text pending =
     ''<b>Resumo: '' @ str_nat (length pending) @ '' notificacoes durante silencio</b>'' @
     NL @ NL @
     concat (map (\<lambda>p. ''- '' @ summary_title p @ NL) (take 5 pending)) @
     (if length pending > 5
      then NL @ ''... e mais '' @ str_nat (length pending - 5) @ '' eventos.'' else []) @
     NL @ NL @ ''Veja detalhes em https://status.ix.br''"
    by (rule summary_text_unfolded)
  show "length (summary_title p) \<le> 53"
    by (rule summary_title_length)
  show "summary_text seven_pending =
     ''<b>Resumo: 7 notificacoes durante silencio</b>'' @ NL @ NL @
     ''- Evento 1'' @ NL @
     ''- IX.br Rio de Janeiro - Indisponibilidade parcial d...'' @ NL @
     ''- Evento 3'' @ NL @
     ''- Evento 4'' @ NL @
     ''- Evento 5'' @ NL @
     NL @ ''... e mais 2 eventos.'' @
     NL @ NL @ ''Veja detalhes em https://status.ix.br''"
    by (rule seven_pending_text)
  show "calls (snd (flush_chat (sample_env (Inr 77) None (Inr [])) (sample_chat 1 None None)
                 (sample_world [sample_chat 1 None None] [] seven_pending))) =
     [SendMessage 1 (summary_text seven_pending)]"
    by (rule seven_pending_flush(1))
  show "length (sent_messages (db (snd (flush_chat (sample_env (Inr 77) None (Inr []))
             (sample_chat 1 None None)
             (sample_world [sample_chat 1 None None] [] seven_pending))))) = 7"
    by (simp only: seven_pending_flush(2) summary_records_facts(1) seven_pending_length)
  show "list_all (\<lambda>r. sm_chat_id r = 1 \<and> sm_telegram_message_id r = Some 0 \<and>
                   sm_content_hash r = Some ''pending_summary'')
     (sent_messages (db (snd (flush_chat (sample_env (Inr 77) None (Inr []))
        (sample_chat 1 None None)
        (sample_world [sample_chat 1 None None] [] seven_pending)))))"
    by (simp only: seven_pending_flush(2) summary_records_facts(4))
next
  assume "pn_event_title p = Some title \<and> length title > 50"
  then show "summary_title p = take 50 title @ ''...''"
    by (simp add: summary_title_long)
next
  assume "pn_event_title p = Some title \<and> title \<noteq> [] \<and> length title \<le> 50"
  then show "summary_title p = title"
    by (simp add: summary_title_short)
qed

text \<open>
  The theorem on recipient 1 with two queued items and an older record of one of
  them: the summary is the one call, the older record is replaced, and the two
  records written carry the message id 0; and on the long title of the seven
  items above, and a short one.
\<close>

theorem batch_summary_witness:
  "(fst (chat_is_quiet (sample_env (Inr 77) None (Inr [])) (sample_chat 1 None None)
           (sample_world [sample_chat 1 None None]
              [sample_record ''a'' 1 (Some 5) ''old'']
              [sample_pending 1 ''a'' ''A'' 5, sample_pending 1 ''b'' ''B'' 3])) = Inr False \<and>
    pending_unique (db (sample_world [sample_chat 1 None None]
              [sample_record ''a'' 1 (Some 5) ''old'']
              [sample_pending 1 ''a'' ''A'' 5, sample_pending 1 ''b'' ''B'' 3])) \<and>
    get_pending_notifications (sc_chat_id (sample_chat 1 None None))
      (db (sample_world [sample_chat 1 None None]
              [sample_record ''a'' 1 (Some 5) ''old'']
              [sample_pending 1 ''a'' ''A'' 5, sample_pending 1 ''b'' ''B'' 3])) =
      [sample_pending 1 ''b'' ''B'' 3, sample_pending 1 ''a'' ''A'' 5] \<and>
    length [sample_pending 1 ''b'' ''B'' 3, sample_pending 1 ''a'' ''A'' 5] > 1) \<and>
   calls (snd (flush_chat (sample_env (Inr 77) None (Inr [])) (sample_chat 1 None None)
      (sample_world [sample_chat 1 None None]
         [sample_record ''a'' 1 (Some 5) ''old'']
         [sample_pending 1 ''a'' ''A'' 5, sample_pending 1 ''b'' ''B'' 3]))) =
     [SendMessage 1
        (summary_text [sample_pending 1 ''b'' ''B'' 3, sample_pending 1 ''a'' ''A'' 5])] \<and>
   sent_messages (db (snd (flush_chat (sample_env (Inr 77) None (Inr []))
      (sample_chat 1 None None)
      (sample_world [sample_chat 1 None None]
         [sample_record ''a'' 1 (Some 5) ''old'']
         [sample_pending 1 ''a'' ''A'' 5, sample_pending 1 ''b'' ''B'' 3])))) =
     summary_records (sample_env (Inr 77) None (Inr [])) 1 2
       [sample_pending 1 ''b'' ''B'' 3, sample_pending 1 ''a'' ''A'' 5] \<and>
   summary_title (sample_pending 1 ''g2''
       ''IX.br Rio de Janeiro - Indisponibilidade parcial do PIX central'' 12) =
     ''IX.br Rio de Janeiro - Indisponibilidade parcial d...'' \<and>
   summary_title (sample_pending 1 ''g1'' ''Evento 1'' 11) = ''Evento 1''"
proof -
  define E :: "status_event env" where "E = sample_env (Inr 77) None (Inr [])"
  define ci where "ci = sample_chat 1 None None"
  define rows where "rows = [sample_pending 1 ''a'' ''A'' 5, sample_pending 1 ''b'' ''B'' 3]"
  define w where "w = sample_world [ci] [sample_record ''a'' 1 (Some 5) ''old''] rows"
  define pending where "pending = [sample_pending 1 ''b'' ''B'' 3, sample_pending 1 ''a'' ''A'' 5]"
  define long where "long = sample_pending 1 ''g2''
       ''IX.br Rio de Janeiro - Indisponibilidade parcial do PIX central'' 12"
  define short where "short = sample_pending 1 ''g1'' ''Evento 1'' 11"
  have c: "sc_chat_id ci = 1"
    by (simp add: ci_def sample_chat_def)
  have nq: "fst (chat_is_quiet E ci w) = Inr False"
    by (simp add: ci_def sample_chat_def is_quiet_hours_def falsy_def)
  have w0: "calls w = []" "tick w = 0" "pending_notifications (db w) = rows"
    "sent_messages (db w) = [sample_record ''a'' 1 (Some 5) ''old'']"
    by (simp_all add: w_def sample_world_def)
  have pu: "pending_unique (db w)"
    by (simp add: pending_unique_def w0 rows_def sample_pending_def)
  have gp: "get_pending_notifications (sc_chat_id ci) (db w) = pending"
    by (simp add: c w0 get_pending_notifications_def rows_def pending_def sample_pending_def)
  have l: "length pending > 1"
    by (simp add: pending_def)
  have s: "api_send_message E (Suc (tick w)) (sc_chat_id ci) (summary_text pending) = Inr 77"
    by (simp add: E_def sample_env_def)
  note t = batch_summary [where E = E and ci = ci and w = w and pending = pending and m = 77,
      THEN conjunct1, rule_format, OF conjI [OF nq conjI [OF pu conjI [OF gp conjI [OF l s]]]]]
  have r1: "calls (snd (flush_chat E ci w)) = [SendMessage 1 (summary_text pending)]"
    using t [THEN conjunct1] by (simp add: w0 c)
  have r2: "sent_messages (db (snd (flush_chat E ci w))) = summary_records E 1 2 pending"
    using t [THEN conjunct2]
    by (simp add: w0 c numeral_2_eq_2 pending_def sample_pending_def sample_record_def)
  have lt: "pn_event_title long =
              Some ''IX.br Rio de Janeiro - Indisponibilidade parcial do PIX central'' \<and>
            length ''IX.br Rio de Janeiro - Indisponibilidade parcial do PIX central'' > 50"
    by (simp add: long_def sample_pending_def)
  have st: "pn_event_title short = Some ''Evento 1'' \<and> ''Evento 1'' \<noteq> [] \<and>
            length ''Evento 1'' \<le> 50"
    by (simp add: short_def sample_pending_def)
  have "summary_title long =
        take 50 ''IX.br Rio de Janeiro - Indisponibilidade parcial do PIX central'' @ ''...''"
    by (rule batch_summary [where p = long, THEN conjunct2, THEN conjunct2, THEN conjunct2,
          THEN conjunct2, THEN conjunct2, THEN conjunct2, THEN conjunct1, rule_format, OF lt])
  then have r3: "summary_title long = ''IX.br Rio de Janeiro - Indisponibilidade parcial d...''"
    by simp
  have r4: "summary_title short = ''Evento 1''"
    by (rule batch_summary [where p = short, THEN conjunct2, THEN conjunct2, THEN conjunct2,
          THEN conjunct2, THEN conjunct2, THEN conjunct2, THEN conjunct2, THEN conjunct1,
          rule_format, OF st])
  show ?thesis
    using nq pu gp l r1 r2 r3 r4
    unfolding E_def ci_def w_def rows_def pending_def long_def short_def
    by (intro conjI)
qed

subsection \<open>The fetch and its retries\<close>

lemma fetch_events_from_done:
  "fetch_events_from E 3 w =
     ([], w\<lparr>monitor := (monitor w)
               \<lparr>consecutive_failures := consecutive_failures (monitor w) + 1\<rparr>\<rparr>)"
  by (simp add: fetch_events_from.simps [of E 3 w])

lemma fetch_events_from_failed:
  "attempt < 3 \<Longrightarrow> fetch_feed_async E (tick w) = Inl e \<Longrightarrow>
   fetch_events_from E attempt w =
     fetch_events_from E (Suc attempt)
       (if attempt < 2
        then record_call (Sleep (1000 * (4 * 2 ^ attempt))) (record_call FetchFeed w)
        else record_call FetchFeed w)"
  by (simp add: fetch_events_from.simps [of E attempt w] Let_def)

lemma fetch_events_from_fetched:
  "attempt < 3 \<Longrightarrow> fetch_feed_async E (tick w) = Inr feed \<Longrightarrow>
   fetch_events_from E attempt w =
     collect_events E
       (dt_instant (utc_now E (Suc (Suc (tick w)))) - max_age_days (monitor w) * 86400000000)
       feed
       (advance (advance ((record_call FetchFeed w)
          \<lparr>monitor := (monitor w)
             \<lparr>consecutive_failures := 0,
              last_successful_fetch := Some (utc_now E (Suc (tick w)))\<rparr>\<rparr>)))"
  by (simp add: fetch_events_from.simps [of E attempt w] Let_def advance_def record_call_def)

lemma fetch_events_from_fetched_fields:
  assumes "attempt < 3" and "fetch_feed_async E (tick w) = Inr feed"
  shows "calls (snd (fetch_events_from E attempt w)) = calls w @ [FetchFeed]"
    and "consecutive_failures (monitor (snd (fetch_events_from E attempt w))) = 0"
    and "last_successful_fetch (monitor (snd (fetch_events_from E attempt w))) =
         Some (utc_now E (Suc (tick w)))"
  by (simp_all add: fetch_events_from_fetched [OF assms] advance_def record_call_def)

text \<open>The worlds in which the second and the third attempt are made.\<close>

lemma second_attempt_fields [simp]:
  "tick (record_call (Sleep n) (record_call FetchFeed w)) = tick w + 2"
  "calls (record_call (Sleep n) (record_call FetchFeed w)) = calls w @ [FetchFeed, Sleep n]"
  by simp_all

lemma fetch_events_first:
  assumes "fetch_feed_async E (tick w) = Inr feed"
  shows "calls (snd (fetch_events E w)) = calls w @ [FetchFeed]"
    and "consecutive_failures (monitor (snd (fetch_events E w))) = 0"
    and "last_successful_fetch (monitor (snd (fetch_events E w))) = Some (utc_now E (tick w + 1))"
  using fetch_events_from_fetched_fields [of 0 E w feed] assms
  by (simp_all add: fetch_events_def)

lemma fetch_events_second:
  assumes "fetch_feed_async E (tick w) = Inl e0"
      and "fetch_feed_async E (tick w + 2) = Inr feed"
  shows "calls (snd (fetch_events E w)) = calls w @ [FetchFeed, Sleep 4000, FetchFeed]"
    and "consecutive_failures (monitor (snd (fetch_events E w))) = 0"
    and "last_successful_fetch (monitor (snd (fetch_events E w))) = Some (utc_now E (tick w + 3))"
proof -
  define w1 where "w1 = record_call (Sleep 4000) (record_call FetchFeed w)"
  have t1: "tick w1 = tick w + 2" and c1: "calls w1 = calls w @ [FetchFeed, Sleep 4000]"
    by (simp_all add: w1_def)
  have e: "fetch_events E w = fetch_events_from E 1 w1"
    using assms(1) by (simp add: fetch_events_def fetch_events_from_failed w1_def)
  have f: "fetch_feed_async E (tick w1) = Inr feed"
    using assms(2) by (simp add: t1)
  have lt: "(1::nat) < 3"
    by simp
  note r = fetch_events_from_fetched_fields [of 1 E w1 feed, OF lt f]
  show "calls (snd (fetch_events E w)) = calls w @ [FetchFeed, Sleep 4000, FetchFeed]"
    using r(1) by (simp add: e c1)
  show "consecutive_failures (monitor (snd (fetch_events E w))) = 0"
    using r(2) by (simp add: e)
  have n: "Suc (tick w + 2) = tick w + 3"
    by simp
  show "last_successful_fetch (monitor (snd (fetch_events E w))) = Some (utc_now E (tick w + 3))"
    using r(3) unfolding e t1 n .
qed

lemma fetch_events_third_world:
  assumes "fetch_feed_async E (tick w) = Inl e0"
      and "fetch_feed_async E (tick w + 2) = Inl e1"
  shows "fetch_events E w =
         fetch_events_from E 2
           (record_call (Sleep 8000) (record_call FetchFeed
              (record_call (Sleep 4000) (record_call FetchFeed w))))"
proof -
  define w1 where "w1 = record_call (Sleep 4000) (record_call FetchFeed w)"
  have t1: "tick w1 = tick w + 2"
    by (simp add: w1_def)
  have "fetch_events E w = fetch_events_from E 1 w1"
    using assms(1) by (simp add: fetch_events_def fetch_events_from_failed w1_def)
  also have "\<dots> = fetch_events_from E 2 (record_call (Sleep 8000) (record_call FetchFeed w1))"
    using assms(2) fetch_events_from_failed [of 1 E w1 e1] by (simp add: t1 numeral_2_eq_2)
  finally show ?thesis by (simp add: w1_def)
qed

lemma fetch_events_third:
  assumes "fetch_feed_async E (tick w) = Inl e0"
      and "fetch_feed_async E (tick w + 2) = Inl e1"
      and "fetch_feed_async E (tick w + 4) = Inr feed"
  shows "calls (snd (fetch_events E w)) =
           calls w @ [FetchFeed, Sleep 4000, FetchFeed, Sleep 8000, FetchFeed]"
    and "consecutive_failures (monitor (snd (fetch_events E w))) = 0"
    and "last_successful_fetch (monitor (snd (fetch_events E w))) = Some (utc_now E (tick w + 5))"
proof -
  define w2 where "w2 = record_call (Sleep 8000) (record_call FetchFeed
              (record_call (Sleep 4000) (record_call FetchFeed w)))"
  have t2: "tick w2 = tick w + 4"
    and c2: "calls w2 = calls w @ [FetchFeed, Sleep 4000, FetchFeed, Sleep 8000]"
    by (simp_all add: w2_def)
  have e: "fetch_events E w = fetch_events_from E 2 w2"
    using fetch_events_third_world [OF assms(1,2)] by (simp add: w2_def)
  have f: "fetch_feed_async E (tick w2) = Inr feed"
    using assms(3) by (simp add: t2)
  have lt: "(2::nat) < 3"
    by simp
  note r = fetch_events_from_fetched_fields [of 2 E w2 feed, OF lt f]
  show "calls (snd (fetch_events E w)) =
           calls w @ [FetchFeed, Sleep 4000, FetchFeed, Sleep 8000, FetchFeed]"
    using r(1) by (simp add: e c2)
  show "consecutive_failures (monitor (snd (fetch_events E w))) = 0"
    using r(2) by (simp add: e)
  have n: "Suc (tick w + 4) = tick w + 5"
    by simp
  show "last_successful_fetch (monitor (snd (fetch_events E w))) = Some (utc_now E (tick w + 5))"
    using r(3) unfolding e t2 n .
qed

lemma fetch_events_exhausted:
  assumes "fetch_feed_async E (tick w) = Inl e0"
      and "fetch_feed_async E (tick w + 2) = Inl e1"
      and "fetch_feed_async E (tick w + 4) = Inl e2"
  shows "fetch_events E w =
         ([], w\<lparr>calls := calls w @ [FetchFeed, Sleep 4000, FetchFeed, Sleep 8000, FetchFeed],
                 tick := tick w + 5,
                 monitor := (monitor w)
                   \<lparr>consecutive_failures := consecutive_failures (monitor w) + 1\<rparr>\<rparr>)"
proof -
  define w2 where "w2 = record_call (Sleep 8000) (record_call FetchFeed
              (record_call (Sleep 4000) (record_call FetchFeed w)))"
  have t2: "tick w2 = tick w + 4"
    by (simp add: w2_def)
  have e: "fetch_events E w = fetch_events_from E 2 w2"
    using fetch_events_third_world [OF assms(1,2)] by (simp add: w2_def)
  have f: "fetch_feed_async E (tick w2) = Inl e2"
    using assms(3) by (simp add: t2)
  have "fetch_events_from E 2 w2 = fetch_events_from E 3 (record_call FetchFeed w2)"
    using fetch_events_from_failed [of 2 E w2 e2] f by (simp add: numeral_3_eq_3)
  then show ?thesis
    by (simp add: e fetch_events_from_done w2_def record_call_def advance_def)
qed

lemma check_rss_updates_no_events:
  "fst (fetch_events E w) = [] \<Longrightarrow> check_rss_updates E w = snd (fetch_events E w)"
  by (cases "fetch_events E w") (simp add: check_rss_updates_def)

lemma fetch_events_attempts:
  "length (filter (\<lambda>c. c = FetchFeed)
             (drop (length (calls w)) (calls (snd (fetch_events E w))))) \<le> 3"
proof (cases "fetch_feed_async E (tick w)")
  case (Inr feed)
  then show ?thesis by (simp add: fetch_events_first(1))
next
  case e0: (Inl e0)
  show ?thesis
  proof (cases "fetch_feed_async E (tick w + 2)")
    case (Inr feed)
    with e0 show ?thesis by (simp add: fetch_events_second(1))
  next
    case e1: (Inl e1)
    show ?thesis
    proof (cases "fetch_feed_async E (tick w + 4)")
      case (Inr feed)
      with e0 e1 show ?thesis by (simp add: fetch_events_third(1))
    next
      case (Inl e2)
      with e0 e1 show ?thesis by (simp add: fetch_events_exhausted)
    qed
  qed
qed

text \<open>
  Claim C8.  \<^verbatim>\<open>fetch_events\<close> fetches the feed at most three times.  After a
  first failure it waits \<open>4 * 2 ^ 0\<close> seconds and after a second \<open>4 * 2 ^ 1\<close>
  seconds (the sleeps are in milliseconds); after a third failure it does not
  wait: it returns the empty list, the counter of consecutive failures is one
  higher, the time of the last success and the store are as before, and the cycle
  ends there.  A fetch that succeeds, at the first, second or third attempt, sets
  the counter to 0 and the time of the last success to the clock.
\<close>

theorem retry_exhaustion:
  "(fetch_feed_async E (tick w) = Inl e0 \<and> fetch_feed_async E (tick w + 2) = Inl e1 \<and>
    fetch_feed_async E (tick w + 4) = Inl e2 \<longrightarrow>
      fst (fetch_events E w) = [] \<and>
      calls (snd (fetch_events E w)) =
        calls w @ [FetchFeed, Sleep (1000 * (4 * 2 ^ 0)), FetchFeed,
                   Sleep (1000 * (4 * 2 ^ 1)), FetchFeed] \<and>
      consecutive_failures (monitor (snd (fetch_events E w))) =
        consecutive_failures (monitor w) + 1 \<and>
      last_successful_fetch (monitor (snd (fetch_events E w))) =
        last_successful_fetch (monitor w) \<and>
      db (snd (fetch_events E w)) = db w \<and>
      check_rss_updates E w = snd (fetch_events E w)) \<and>
   (fetch_feed_async E (tick w) = Inr feed \<longrightarrow>
      calls (snd (fetch_events E w)) = calls w @ [FetchFeed] \<and>
      consecutive_failures (monitor (snd (fetch_events E w))) = 0 \<and>
      last_successful_fetch (monitor (snd (fetch_events E w))) =
        Some (utc_now E (tick w + 1))) \<and>
   (fetch_feed_async E (tick w) = Inl e0 \<and> fetch_feed_async E (tick w + 2) = Inr feed \<longrightarrow>
      calls (snd (fetch_events E w)) =
        calls w @ [FetchFeed, Sleep (1000 * (4 * 2 ^ 0)), FetchFeed] \<and>
      consecutive_failures (monitor (snd (fetch_events E w))) = 0 \<and>
      last_successful_fetch (monitor (snd (fetch_events E w))) =
        Some (utc_now E (tick w + 3))) \<and>
   (fetch_feed_async E (tick w) = Inl e0 \<and> fetch_feed_async E (tick w + 2) = Inl e1 \<and>
    fetch_feed_async E (tick w + 4) = Inr feed \<longrightarrow>
      calls (snd (fetch_events E w)) =
        calls w @ [FetchFeed, Sleep (1000 * (4 * 2 ^ 0)), FetchFeed,
                   Sleep (1000 * (4 * 2 ^ 1)), FetchFeed] \<and>
      consecutive_failures (monitor (snd (fetch_events E w))) = 0 \<and>
      last_successful_fetch (monitor (snd (fetch_events E w))) =
        Some (utc_now E (tick w + 5))) \<and>
   length (filter (\<lambda>c. c = FetchFeed)
             (drop (length (calls w)) (calls (snd (fetch_events E w))))) \<le> 3"
proof (intro conjI impI; (elim conjE)?)
  assume a: "fetch_feed_async E (tick w) = Inl e0" "fetch_feed_async E (tick w + 2) = Inl e1"
    "fetch_feed_async E (tick w + 4) = Inl e2"
  note x = fetch_events_exhausted [OF a]
  show e: "fst (fetch_events E w) = []" by (simp add: x)
  show "calls (snd (fetch_events E w)) =
        calls w @ [FetchFeed, Sleep (1000 * (4 * 2 ^ 0)), FetchFeed,
                   Sleep (1000 * (4 * 2 ^ 1)), FetchFeed]"
    by (simp add: x)
  show "consecutive_failures (monitor (snd (fetch_events E w))) =
        consecutive_failures (monitor w) + 1"
    by (simp add: x)
  show "last_successful_fetch (monitor (snd (fetch_events E w))) =
        last_successful_fetch (monitor w)"
    by (simp add: x)
  show "db (snd (fetch_events E w)) = db w" by (simp add: x)
  show "check_rss_updates E w = snd (fetch_events E w)"
    using e by (rule check_rss_updates_no_events)
next
  assume a: "fetch_feed_async E (tick w) = Inr feed"
  show "calls (snd (fetch_events E w)) = calls w @ [FetchFeed]"
    by (rule fetch_events_first(1) [OF a])
  show "consecutive_failures (monitor (snd (fetch_events E w))) = 0"
    by (rule fetch_events_first(2) [OF a])
  show "last_successful_fetch (monitor (snd (fetch_events E w))) =
        Some (utc_now E (tick w + 1))"
    by (rule fetch_events_first(3) [OF a])
next
  assume a: "fetch_feed_async E (tick w) = Inl e0" "fetch_feed_async E (tick w + 2) = Inr feed"
  show "calls (snd (fetch_events E w)) =
        calls w @ [FetchFeed, Sleep (1000 * (4 * 2 ^ 0)), FetchFeed]"
    by (simp add: fetch_events_second(1) [OF a])
  show "consecutive_failures (monitor (snd (fetch_events E w))) = 0"
    by (rule fetch_events_second(2) [OF a])
  show "last_successful_fetch (monitor (snd (fetch_events E w))) =
        Some (utc_now E (tick w + 3))"
    by (rule fetch_events_second(3) [OF a])
next
  assume a: "fetch_feed_async E (tick w) = Inl e0" "fetch_feed_async E (tick w + 2) = Inl e1"
    "fetch_feed_async E (tick w + 4) = Inr feed"
  show "calls (snd (fetch_events E w)) =
        calls w @ [FetchFeed, Sleep (1000 * (4 * 2 ^ 0)), FetchFeed,
                   Sleep (1000 * (4 * 2 ^ 1)), FetchFeed]"
    by (simp add: fetch_events_third(1) [OF a])
  show "consecutive_failures (monitor (snd (fetch_events E w))) = 0"
    by (rule fetch_events_third(2) [OF a])
  show "last_successful_fetch (monitor (snd (fetch_events E w))) =
        Some (utc_now E (tick w + 5))"
    by (rule fetch_events_third(3) [OF a])
next
  show "length (filter (\<lambda>c. c = FetchFeed)
             (drop (length (calls w)) (calls (snd (fetch_events E w))))) \<le> 3"
    by (rule fetch_events_attempts)
qed

text \<open>
  The theorem on a feed that is down at every attempt, and on one that answers at
  once, from a monitor with two failures behind it.
\<close>

theorem retry_exhaustion_witness:
  "(fetch_feed_async (sample_env (Inr 77) None (Inl ''HTTP error 503''))
      (tick (sample_world [sample_chat 1 None None] [] [])) = Inl ''HTTP error 503'' \<and>
    fetch_feed_async (sample_env (Inr 77) None (Inl ''HTTP error 503''))
      (tick (sample_world [sample_chat 1 None None] [] []) + 2) = Inl ''HTTP error 503'' \<and>
    fetch_feed_async (sample_env (Inr 77) None (Inl ''HTTP error 503''))
      (tick (sample_world [sample_chat 1 None None] [] []) + 4) = Inl ''HTTP error 503'') \<and>
   fst (fetch_events (sample_env (Inr 77) None (Inl ''HTTP error 503''))
          (sample_world [sample_chat 1 None None] [] [])) = [] \<and>
   calls (snd (fetch_events (sample_env (Inr 77) None (Inl ''HTTP error 503''))
                 (sample_world [sample_chat 1 None None] [] []))) =
     [FetchFeed, Sleep 4000, FetchFeed, Sleep 8000, FetchFeed] \<and>
   consecutive_failures (monitor
       (snd (fetch_events (sample_env (Inr 77) None (Inl ''HTTP error 503''))
               (sample_world [sample_chat 1 None None] [] [])))) = 1 \<and>
   fetch_feed_async (sample_env (Inr 77) None (Inr [sample_event]))
      (tick ((sample_world [sample_chat 1 None None] [] [])
               \<lparr>monitor := \<lparr>max_age_days = 7, last_successful_fetch = None,
                             consecutive_failures = 2\<rparr>\<rparr>)) = Inr [sample_event] \<and>
   consecutive_failures (monitor
       (snd (fetch_events (sample_env (Inr 77) None (Inr [sample_event]))
               ((sample_world [sample_chat 1 None None] [] [])
                  \<lparr>monitor := \<lparr>max_age_days = 7, last_successful_fetch = None,
                                consecutive_failures = 2\<rparr>\<rparr>)))) = 0 \<and>
   last_successful_fetch (monitor
       (snd (fetch_events (sample_env (Inr 77) None (Inr [sample_event]))
               ((sample_world [sample_chat 1 None None] [] [])
                  \<lparr>monitor := \<lparr>max_age_days = 7, last_successful_fetch = None,
                                consecutive_failures = 2\<rparr>\<rparr>)))) = Some noon"
proof -
  define E where "E = sample_env (Inr 77) None (Inl ''HTTP error 503'')"
  define E' where "E' = sample_env (Inr 77) None (Inr [sample_event])"
  define w where "w = sample_world [sample_chat 1 None None] [] []"
  define w' where "w' = w\<lparr>monitor := \<lparr>max_age_days = 7, last_successful_fetch = None,
                                      consecutive_failures = 2\<rparr>\<rparr>"
  have f: "fetch_feed_async E (tick w) = Inl ''HTTP error 503''"
    "fetch_feed_async E (tick w + 2) = Inl ''HTTP error 503''"
    "fetch_feed_async E (tick w + 4) = Inl ''HTTP error 503''"
    by (simp_all add: E_def sample_env_def)
  have s: "fetch_feed_async E' (tick w') = Inr [sample_event]"
    by (simp add: E'_def sample_env_def)
  have w0: "calls w = []" "consecutive_failures (monitor w) = 0"
    by (simp_all add: w_def sample_world_def)
  have n: "utc_now E' t = noon" for t
    by (simp add: E'_def sample_env_def)
  note x = retry_exhaustion [where E = E and w = w, THEN conjunct1, rule_format,
      OF conjI [OF f(1) conjI [OF f(2) f(3)]]]
  note y = retry_exhaustion [where E = E' and w = w', THEN conjunct2, THEN conjunct1,
      rule_format, OF s]
  have r1: "fst (fetch_events E w) = []"
    using x by blast
  have r2: "calls (snd (fetch_events E w)) = [FetchFeed, Sleep 4000, FetchFeed, Sleep 8000, FetchFeed]"
    using x [THEN conjunct2, THEN conjunct1] by (simp add: w0)
  have r3: "consecutive_failures (monitor (snd (fetch_events E w))) = 1"
    using x [THEN conjunct2, THEN conjunct2, THEN conjunct1] by (simp add: w0)
  have r4: "consecutive_failures (monitor (snd (fetch_events E' w'))) = 0"
    using y by blast
  have r5: "last_successful_fetch (monitor (snd (fetch_events E' w'))) = Some noon"
    using y [THEN conjunct2, THEN conjunct2] by (simp add: n)
  show ?thesis
    using f s r1 r2 r3 r4 r5 unfolding E_def E'_def w_def w'_def by (intro conjI)
qed

subsection \<open>The flush within the cycle\<close>

lemma fetch_events_empty_feed:
  assumes "fetch_feed_async E (tick w) = Inr []"
  shows "fst (fetch_events E w) = []"
  using fetch_events_from_fetched [of 0 E w "[]"] assms
  by (simp add: fetch_events_def)

lemma check_rss_updates_empty_feed:
  assumes "fetch_feed_async E (tick w) = Inr []"
  shows "db (check_rss_updates E w) = db w"
    and "calls (check_rss_updates E w) = calls w @ [FetchFeed]"
proof -
  have e: "check_rss_updates E w = snd (fetch_events E w)"
    using fetch_events_empty_feed [OF assms] by (rule check_rss_updates_no_events)
  show "db (check_rss_updates E w) = db w"
    by (simp add: e fetch_events_def)
  show "calls (check_rss_updates E w) = calls w @ [FetchFeed]"
    by (simp add: e fetch_events_first(1) [OF assms])
qed

lemma check_rss_updates_run:
  assumes "fetch_events E w = (events, w1)" and "events \<noteq> []"
      and "get_active_chats (db w1) = chats" and "chats \<noteq> []"
      and "send_events E events chats w1 = (None, w2)"
      and "process_pending_notifications E chats w2 = (None, w3)"
  shows "check_rss_updates E w = db_cleanup_old_messages E w3"
  using assms by (simp add: check_rss_updates_def)

text \<open>
  Claim C3 on the code.  Recipient 1 is active and outside any quiet window, and
  one notification is queued for it.  In a cycle whose fetch succeeds with a feed
  of no entries, the early return for "no events" ends the cycle: the feed is
  fetched and nothing else happens, so the queue is as before and nothing is
  sent, although the flush of this recipient in this world would send the queued
  text.
\<close>

theorem flush_skipped_without_events:
  "get_active_chats (db (sample_world [sample_chat 1 None None] []
                           [sample_pending 1 ''a'' ''A'' 5])) = [sample_chat 1 None None] \<and>
   fst (chat_is_quiet (sample_env (Inr 77) None (Inr [])) (sample_chat 1 None None)
          (sample_world [sample_chat 1 None None] [] [sample_pending 1 ''a'' ''A'' 5])) =
     Inr False \<and>
   fst (fetch_events (sample_env (Inr 77) None (Inr []))
          (sample_world [sample_chat 1 None None] [] [sample_pending 1 ''a'' ''A'' 5])) = [] \<and>
   calls (check_rss_updates (sample_env (Inr 77) None (Inr []))
            (sample_world [sample_chat 1 None None] [] [sample_pending 1 ''a'' ''A'' 5])) =
     [FetchFeed] \<and>
   pending_notifications (db (check_rss_updates (sample_env (Inr 77) None (Inr []))
            (sample_world [sample_chat 1 None None] [] [sample_pending 1 ''a'' ''A'' 5]))) =
     [sample_pending 1 ''a'' ''A'' 5] \<and>
   calls (snd (flush_chat (sample_env (Inr 77) None (Inr [])) (sample_chat 1 None None)
                 (sample_world [sample_chat 1 None None] [] [sample_pending 1 ''a'' ''A'' 5]))) =
     [SendMessage 1 ''text of a'']"
proof -
  define E :: "status_event env" where "E = sample_env (Inr 77) None (Inr [])"
  define ci where "ci = sample_chat 1 None None"
  define p where "p = sample_pending 1 ''a'' ''A'' 5"
  define w where "w = sample_world [ci] [] [p]"
  have c: "sc_chat_id ci = 1"
    by (simp add: ci_def sample_chat_def)
  have w0: "calls w = []" "tick w = 0" "pending_notifications (db w) = [p]"
    "subscribed_chats (db w) = [ci]"
    by (simp_all add: w_def sample_world_def)
  have f: "fetch_feed_async E (tick w) = Inr []"
    by (simp add: E_def sample_env_def)
  have a: "get_active_chats (db w) = [ci]"
    by (simp add: get_active_chats_def w0) (simp add: ci_def sample_chat_def)
  have nq: "fst (chat_is_quiet E ci w) = Inr False"
    by (simp add: ci_def sample_chat_def is_quiet_hours_def falsy_def)
  have e: "fst (fetch_events E w) = []"
    using f by (rule fetch_events_empty_feed)
  have r1: "calls (check_rss_updates E w) = [FetchFeed]"
    using check_rss_updates_empty_feed(2) [OF f] by (simp add: w0)
  have r2: "pending_notifications (db (check_rss_updates E w)) = [p]"
    using check_rss_updates_empty_feed(1) [OF f] by (simp add: w0)
  have gp: "get_pending_notifications (sc_chat_id ci) (db w) = [p]"
    by (simp add: get_pending_notifications_def w0 c) (simp add: p_def sample_pending_def)
  have ft: "flush_text [p] = ''text of a''"
    by (simp add: flush_text_def p_def sample_pending_def)
  have s: "api_send_message E (Suc (tick w)) (sc_chat_id ci) (flush_text [p]) = Inr 77"
    by (simp add: E_def sample_env_def)
  have "calls (snd (flush_chat E ci w)) = calls w @ [SendMessage (sc_chat_id ci) (flush_text [p])]"
    using flush_chat_sent(3) [OF nq gp _ s] by simp
  then have r3: "calls (snd (flush_chat E ci w)) = [SendMessage 1 ''text of a'']"
    by (simp add: w0 c ft)
  show ?thesis
    using a nq e r1 r2 r3 unfolding E_def ci_def p_def w_def by (intro conjI)
qed

end
